(* ===== verification/Prelude.thy ===== *)
theory Prelude
  imports
    Complex_Main
    "HOL-Library.Char_ord"
    "HOL-Library.List_Lexorder"
    "HOL-Library.Sublist"
    "HOL-Library.AList"
begin

text \<open>
  What every component shares: the Python string operations the source uses
  (\<open>strip\<close>, \<open>split\<close>, \<open>partition\<close>, \<open>join\<close>, \<open>startswith\<close>,
  \<open>endswith\<close>), dictionaries as association lists in insertion order, sets and the
  order in which the interpreter iterates over them, and the collections of rewrite
  rules the component theories fill.

  A Python \<open>str\<close> is a \<^typ>\<open>string\<close>, a list of characters; a character is a code
  point below 256. Python's white space is written out for those.
\<close>

named_theorems dict_simps \<open>lookups in dictionaries after updates\<close>
named_theorems str_simps \<open>string operations\<close>

section \<open>Exceptions\<close>

text \<open>The exceptions the source raises or lets through, without their messages.\<close>

datatype py_error =
    ValueError
  | TypeError
  | KeyError
  | AttributeError
  | OverflowError
  | UnboundLocalError
  | OSError
  | RuntimeError
  | RecursionError
  | UnmarshalError
  | ConfigparserError
  | ConfigError
  | FingerprintFormatError
  | GroupResolveError
  | PeerIdentityMismatchError
  | RpcError
  | FutureTimeoutError
  | XMLSyntaxError

text \<open>
  A computation that may raise returns a sum: \<open>Inl\<close> the exception, \<open>Inr\<close> the value.
  \<open>rbind\<close> runs the rest when nothing was raised.
\<close>

fun rbind :: "py_error + 'a \<Rightarrow> ('a \<Rightarrow> py_error + 'b) \<Rightarrow> py_error + 'b" where
  "rbind (Inl e) f = Inl e"
| "rbind (Inr x) f = f x"

lemma rbind_Inr_iff: "rbind m f = Inr y \<longleftrightarrow> (\<exists>x. m = Inr x \<and> f x = Inr y)"
  by (cases m) auto

lemma rbind_Inl_iff: "rbind m f = Inl e \<longleftrightarrow> m = Inl e \<or> (\<exists>x. m = Inr x \<and> f x = Inl e)"
  by (cases m) auto

lemma rbind_cong [fundef_cong]:
  "m = m' \<Longrightarrow> (\<And>x. m' = Inr x \<Longrightarrow> f x = g x) \<Longrightarrow> rbind m f = rbind m' g"
  by (cases m') auto

section \<open>Strings\<close>

definition py_ws :: "char \<Rightarrow> bool" where
  "py_ws c = (let n = (of_char c :: nat) in
     (9 \<le> n \<and> n \<le> 13) \<or> (28 \<le> n \<and> n \<le> 32) \<or> n = 133 \<or> n = 160)"

definition py_lstrip :: "string \<Rightarrow> string" where
  "py_lstrip s = dropWhile py_ws s"

definition py_rstrip :: "string \<Rightarrow> string" where
  "py_rstrip s = rev (dropWhile py_ws (rev s))"

definition py_strip :: "string \<Rightarrow> string" where
  "py_strip s = py_rstrip (py_lstrip s)"

text \<open>\<open>s.split(c)\<close> with a separator of one character.\<close>

fun py_split :: "char \<Rightarrow> string \<Rightarrow> string list" where
  "py_split c [] = [[]]"
| "py_split c (x # xs) =
     (if x = c then [] # py_split c xs
      else (case py_split c xs of [] \<Rightarrow> [[x]] | y # ys \<Rightarrow> (x # y) # ys))"

text \<open>\<open>c.join(xs)\<close> with a separator of one character.\<close>

fun py_join :: "char \<Rightarrow> string list \<Rightarrow> string" where
  "py_join c [] = []"
| "py_join c [x] = x"
| "py_join c (x # y # zs) = x @ c # py_join c (y # zs)"

text \<open>\<open>s.partition(c)\<close>: the part before the first separator and the part after it.\<close>

definition py_before :: "char \<Rightarrow> string \<Rightarrow> string" where
  "py_before c s = takeWhile (\<lambda>x. x \<noteq> c) s"

definition py_after :: "char \<Rightarrow> string \<Rightarrow> string" where
  "py_after c s = drop 1 (dropWhile (\<lambda>x. x \<noteq> c) s)"

abbreviation py_startswith :: "string \<Rightarrow> string \<Rightarrow> bool" where
  "py_startswith s p \<equiv> prefix p s"

abbreviation py_endswith :: "string \<Rightarrow> string \<Rightarrow> bool" where
  "py_endswith s p \<equiv> suffix p s"

text \<open>A string with no white space at either end, which \<open>strip\<close> leaves alone.\<close>

definition trimmed :: "string \<Rightarrow> bool" where
  "trimmed s = (s = [] \<or> (\<not> py_ws (hd s) \<and> \<not> py_ws (last s)))"

lemma trimmed_Nil [simp]: "trimmed []"
  by (simp add: trimmed_def)

lemma py_strip_Nil [simp]: "py_strip [] = []"
  by (simp add: py_strip_def py_lstrip_def py_rstrip_def)

lemma dropWhile_hd_id: "s = [] \<or> \<not> P (hd s) \<Longrightarrow> dropWhile P s = s"
  by (cases s) auto

lemma py_strip_trimmed [str_simps]: "trimmed s \<Longrightarrow> py_strip s = s"
  unfolding trimmed_def py_strip_def py_lstrip_def py_rstrip_def
  by (auto simp: dropWhile_hd_id hd_rev)

lemma py_strip_leading_ws [str_simps]: "py_ws c \<Longrightarrow> py_strip (c # s) = py_strip s"
  by (simp add: py_strip_def py_lstrip_def)

lemma last_dropWhile: "dropWhile P s \<noteq> [] \<Longrightarrow> last (dropWhile P s) = last s"
  by (induction s) auto

lemma hd_rev_dropWhile_rev:
  assumes "rev (dropWhile P (rev s)) \<noteq> []"
  shows "hd (rev (dropWhile P (rev s))) = hd s"
  using assms by (simp add: hd_rev last_dropWhile last_rev)

lemma trimmed_py_strip: "trimmed (py_strip s)"
proof (cases "py_strip s = []")
  case True
  then show ?thesis by simp
next
  case False
  define t where "t = dropWhile py_ws s"
  have eq: "py_strip s = rev (dropWhile py_ws (rev t))"
    by (simp add: py_strip_def py_lstrip_def py_rstrip_def t_def)
  with False have "hd (py_strip s) = hd t"
    by (simp add: hd_rev_dropWhile_rev)
  moreover have "t \<noteq> []" using False eq by auto
  then have "\<not> py_ws (hd t)" unfolding t_def by (rule hd_dropWhile)
  moreover have "\<not> py_ws (last (py_strip s))"
    using False eq by (simp add: last_rev hd_dropWhile)
  ultimately show ?thesis by (simp add: trimmed_def)
qed

lemma py_strip_idem [simp]: "py_strip (py_strip s) = py_strip s"
  by (simp add: py_strip_trimmed trimmed_py_strip)

lemma py_split_ne [simp]: "py_split c s \<noteq> []"
  by (cases s) (auto split: list.split)

lemma py_split_no_sep: "c \<notin> set s \<Longrightarrow> py_split c s = [s]"
  by (induction s) auto

lemma py_split_append: "c \<notin> set s \<Longrightarrow> py_split c (s @ c # t) = s # py_split c t"
  by (induction s) auto

lemma py_split_join:
  "xs \<noteq> [] \<Longrightarrow> \<forall>x \<in> set xs. c \<notin> set x \<Longrightarrow> py_split c (py_join c xs) = xs"
  by (induction c xs rule: py_join.induct) (auto simp: py_split_no_sep py_split_append)

lemma py_join_Cons_hd: "py_join c ((x # a) # l) = x # py_join c (a # l)"
  by (cases l) auto

lemma py_join_split: "py_join c (py_split c s) = s"
proof (induction s)
  case Nil
  then show ?case by simp
next
  case (Cons x s)
  then show ?case
    by (cases "py_split c s") (auto simp: py_join_Cons_hd neq_Nil_conv)
qed

lemma py_split_parts: "t \<in> set (py_split c s) \<Longrightarrow> c \<notin> set t"
proof (induction s arbitrary: t)
  case Nil
  then show ?case by simp
next
  case (Cons x s)
  then show ?case
    by (cases "py_split c s") (auto split: if_splits)
qed

lemma py_split_append_gen: "py_split c (s @ c # t) = py_split c s @ py_split c t"
  by (induction s) (auto split: list.split)

lemma py_split_join_mem: "x \<in> set xs \<Longrightarrow> c \<notin> set x \<Longrightarrow> x \<in> set (py_split c (py_join c xs))"
  by (induction c xs rule: py_join.induct) (auto simp: py_split_no_sep py_split_append_gen)

lemma py_before_no_sep: "c \<notin> set s \<Longrightarrow> py_before c (s @ c # t) = s"
  by (induction s) (auto simp: py_before_def)

lemma py_after_no_sep: "c \<notin> set s \<Longrightarrow> py_after c (s @ c # t) = t"
  by (induction s) (auto simp: py_after_def)

lemma py_before_after: "c \<in> set s \<Longrightarrow> py_before c s @ c # py_after c s = s"
  by (induction s) (auto simp: py_before_def py_after_def)

lemma py_before_clean: "c \<notin> set (py_before c s)"
  by (auto simp: py_before_def dest: set_takeWhileD)

section \<open>Dictionaries\<close>

text \<open>
  A Python dict keeps its insertion order, and some of the code shows it
  (\<open>list(d.values())\<close>), so a dict is an association list: \<open>map_of\<close> looks up,
  \<^const>\<open>AList.update\<close> overwrites in place or appends, \<^const>\<open>AList.delete\<close> is
  \<open>pop\<close>.
\<close>

type_synonym ('k, 'v) dict = "('k \<times> 'v) list"

abbreviation dget :: "('k, 'v) dict \<Rightarrow> 'k \<Rightarrow> 'v option" where
  "dget d k \<equiv> map_of d k"

abbreviation dset :: "'k \<Rightarrow> 'v \<Rightarrow> ('k, 'v) dict \<Rightarrow> ('k, 'v) dict" where
  "dset k v d \<equiv> AList.update k v d"

abbreviation ddel :: "'k \<Rightarrow> ('k, 'v) dict \<Rightarrow> ('k, 'v) dict" where
  "ddel k d \<equiv> AList.delete k d"

abbreviation dhas :: "('k, 'v) dict \<Rightarrow> 'k \<Rightarrow> bool" where
  "dhas d k \<equiv> k \<in> fst ` set d"

abbreviation dvalues :: "('k, 'v) dict \<Rightarrow> 'v list" where
  "dvalues d \<equiv> map snd d"

text \<open>\<open>d.setdefault(k, v)\<close>: the dict afterwards (the value it returns is the lookup in it).\<close>

definition dsetdefault :: "'k \<Rightarrow> 'v \<Rightarrow> ('k, 'v) dict \<Rightarrow> ('k, 'v) dict" where
  "dsetdefault k v d = (case dget d k of None \<Rightarrow> d @ [(k, v)] | Some _ \<Rightarrow> d)"

lemma dget_dset [simp, dict_simps]: "dget (dset k v d) j = (if j = k then Some v else dget d j)"
  by (simp add: update_conv')

lemma dget_ddel [simp, dict_simps]: "dget (ddel k d) j = (if j = k then None else dget d j)"
  by (simp add: delete_conv')

lemma dhas_iff [dict_simps]: "dhas d k \<longleftrightarrow> dget d k \<noteq> None"
  by (simp add: map_of_eq_None_iff)

lemma not_dhas_None: "\<not> dhas d k \<Longrightarrow> dget d k = None"
  by (simp add: map_of_eq_None_iff)

lemma dhas_Some: "dget d k = Some v \<Longrightarrow> dhas d k"
  by (metis dhas_iff option.distinct(1))

lemma dget_dsetdefault [simp, dict_simps]:
  "dget (dsetdefault k v d) j =
     (if j = k then Some (case dget d k of None \<Rightarrow> v | Some w \<Rightarrow> w) else dget d j)"
  by (auto simp: dsetdefault_def map_add_def split: option.split)

definition dict_ok :: "('k, 'v) dict \<Rightarrow> bool" where
  "dict_ok d = distinct (map fst d)"

lemma dict_ok_Nil [simp, intro]: "dict_ok []"
  by (simp add: dict_ok_def)

lemma dict_ok_dset [simp, intro]: "dict_ok d \<Longrightarrow> dict_ok (dset k v d)"
  by (simp add: dict_ok_def distinct_update)

lemma dict_ok_ddel [simp, intro]: "dict_ok d \<Longrightarrow> dict_ok (ddel k d)"
  by (simp add: dict_ok_def distinct_delete)

lemma dict_ok_dsetdefault [simp, intro]: "dict_ok d \<Longrightarrow> dict_ok (dsetdefault k v d)"
  by (auto simp: dict_ok_def dsetdefault_def map_of_eq_None_iff split: option.split)

section \<open>Sets and their iteration order\<close>

text \<open>\<open>sorted(s)\<close> of a set of strings.\<close>

definition py_sorted :: "string set \<Rightarrow> string list" where
  "py_sorted A = sorted_list_of_set A"

text \<open>
  Iterating over a \<open>set\<close> or \<open>frozenset\<close> of strings visits every element once, in an
  order that Python does not fix (it depends on the hash seed). A definition that
  iterates takes the order as a parameter \<open>it\<close>; this is what the code relies on.
\<close>

locale set_iteration =
  fixes it :: "string set \<Rightarrow> string list"
  assumes it_set: "finite A \<Longrightarrow> set (it A) = A"
    and it_distinct: "finite A \<Longrightarrow> distinct (it A)"
begin

lemma it_Nil_iff: "finite A \<Longrightarrow> it A = [] \<longleftrightarrow> A = {}"
  using it_set [of A] by auto

lemma it_empty [simp]: "it {} = []"
  using it_set [of "{}"] by simp

lemma it_singleton [simp]: "it {x} = [x]"
proof -
  have s: "set (it {x}) = {x}" and d: "distinct (it {x})"
    using it_set [of "{x}"] it_distinct [of "{x}"] by simp_all
  from distinct_card [OF d] s have "length (it {x}) = 1" by simp
  with s show ?thesis by (cases "it {x}") auto
qed

lemma it_length: "finite A \<Longrightarrow> length (it A) = card A"
  by (metis distinct_card it_distinct it_set)

end

interpretation sorted_order: set_iteration py_sorted
  by unfold_locales (simp_all add: py_sorted_def)

end
