(* ===== verification/Py_Int.thy ===== *)
theory Py_Int
  imports Prelude
begin

text \<open>
  Python's \<open>str\<close> of an integer and \<open>int\<close> of a string in base ten: white space around
  the number, one sign, and single underscores between digits are accepted.
\<close>

section \<open>Printing\<close>

definition digit_char :: "nat \<Rightarrow> char" where
  "digit_char d = char_of (48 + d)"

fun nat_str :: "nat \<Rightarrow> string" where
  "nat_str n = (if n < 10 then [digit_char n] else nat_str (n div 10) @ [digit_char (n mod 10)])"

declare nat_str.simps [simp del]

definition py_str :: "int \<Rightarrow> string" where
  "py_str i = (if i < 0 then CHR ''-'' # nat_str (nat (- i)) else nat_str (nat i))"

section \<open>Parsing\<close>

definition digit_val :: "char \<Rightarrow> nat option" where
  "digit_val c = (let n = of_char c :: nat in if 48 \<le> n \<and> n \<le> 57 then Some (n - 48) else None)"

text \<open>\<open>digits_val acc after_digit s\<close>: an underscore needs a digit on both sides.\<close>

fun digits_val :: "nat \<Rightarrow> bool \<Rightarrow> string \<Rightarrow> nat option" where
  "digits_val acc after_digit [] = (if after_digit then Some acc else None)"
| "digits_val acc after_digit (c # s) =
     (case digit_val c of
        Some d \<Rightarrow> digits_val (10 * acc + d) True s
      | None \<Rightarrow> if c = CHR ''_'' \<and> after_digit then digits_val acc False s else None)"

definition py_int :: "string \<Rightarrow> int option" where
  "py_int s =
     (case py_strip s of
        [] \<Rightarrow> None
      | c # t \<Rightarrow>
          if c = CHR ''-'' then map_option (\<lambda>n. - int n) (digits_val 0 False t)
          else if c = CHR ''+'' then map_option int (digits_val 0 False t)
          else map_option int (digits_val 0 False (c # t)))"

section \<open>The round trip\<close>

lemma of_char_digit_char: "d < 10 \<Longrightarrow> (of_char (digit_char d) :: nat) = 48 + d"
  by (simp add: digit_char_def)

lemma digit_val_digit_char [simp]: "d < 10 \<Longrightarrow> digit_val (digit_char d) = Some d"
  by (simp add: digit_val_def of_char_digit_char)

lemma digit_char_not_ws: "d < 10 \<Longrightarrow> \<not> py_ws (digit_char d)"
  by (simp add: py_ws_def of_char_digit_char)

lemma digit_char_neq: "d < 10 \<Longrightarrow> digit_char d \<noteq> CHR ''-''" "d < 10 \<Longrightarrow> digit_char d \<noteq> CHR ''+''"
  "d < 10 \<Longrightarrow> digit_char d \<noteq> CHR '',''"
  using of_char_digit_char [of d] by (auto dest!: arg_cong [where f = "of_char :: char \<Rightarrow> nat"])

lemma nat_str_digits: "c \<in> set (nat_str n) \<Longrightarrow> \<exists>d < 10. c = digit_char d"
proof (induction n rule: nat_str.induct)
  case (1 n)
  show ?case
  proof (cases "n < 10")
    case True
    with 1 show ?thesis by (auto simp: nat_str.simps [of n])
  next
    case False
    with "1.prems" have "c = digit_char (n mod 10) \<or> c \<in> set (nat_str (n div 10))"
      by (simp add: nat_str.simps [of n])
    moreover have "n mod 10 < 10" by simp
    ultimately show ?thesis using "1.IH" [OF False] by blast
  qed
qed

lemma nat_str_ne [simp]: "nat_str n \<noteq> []"
  by (simp add: nat_str.simps [of n])

lemma digits_val_nat_str:
  "digits_val acc b (nat_str n @ t) = digits_val (acc * 10 ^ length (nat_str n) + n) True t"
proof (induction n arbitrary: acc b t rule: nat_str.induct)
  case (1 n)
  show ?case
  proof (cases "n < 10")
    case True
    then show ?thesis by (simp add: nat_str.simps [of n] mult.commute)
  next
    case False
    then have step: "nat_str n = nat_str (n div 10) @ [digit_char (n mod 10)]"
      by (simp add: nat_str.simps [of n])
    have "digits_val acc b (nat_str n @ t) =
        digits_val (acc * 10 ^ length (nat_str (n div 10)) + n div 10) True (digit_char (n mod 10) # t)"
      using 1 [OF False, of acc b "digit_char (n mod 10) # t"] by (simp add: step)
    also have "\<dots> = digits_val (10 * (acc * 10 ^ length (nat_str (n div 10)) + n div 10) + n mod 10) True t"
      by simp
    also have "10 * (acc * 10 ^ length (nat_str (n div 10)) + n div 10) + n mod 10 =
        acc * 10 ^ length (nat_str n) + n"
      by (simp add: step)
    finally show ?thesis .
  qed
qed

lemma trimmed_nat_str: "trimmed (nat_str n)"
  using nat_str_digits [of "hd (nat_str n)" n] nat_str_digits [of "last (nat_str n)" n]
  by (auto simp: trimmed_def digit_char_not_ws)

lemma trimmed_py_str: "trimmed (py_str i)"
  using trimmed_nat_str [of "nat (- i)"] trimmed_nat_str [of "nat i"]
  by (auto simp: py_str_def trimmed_def py_ws_def)

lemma hd_nat_str: "\<exists>d < 10. hd (nat_str n) = digit_char d"
  using nat_str_digits [of "hd (nat_str n)" n] by simp

lemma py_int_str [simp]: "py_int (py_str i) = Some i"
proof (cases "i < 0")
  case True
  then show ?thesis
    using digits_val_nat_str [of 0 False "nat (- i)" "[]"] trimmed_py_str [of i]
    by (simp add: py_int_def py_strip_trimmed) (simp add: py_str_def)
next
  case False
  obtain d t where s: "nat_str (nat i) = digit_char d # t" "d < 10"
    using hd_nat_str [of "nat i"] by (cases "nat_str (nat i)") auto
  have "digits_val 0 False (digit_char d # t) = Some (nat i)"
    using digits_val_nat_str [of 0 False "nat i" "[]"] s by simp
  with False s trimmed_py_str [of i] show ?thesis
    by (simp add: py_int_def py_strip_trimmed py_str_def digit_char_neq del: digits_val.simps)
qed

end
