(* ===== verification/Py_Float.thy ===== *)
theory Py_Float
  imports Py_Int "HOL-Library.Log_Nat"
begin

text \<open>
  Python's \<open>float\<close>: a finite double is the rational number it denotes (so the sign of a
  zero is not kept), arithmetic rounds to the nearest double with ties to even, and
  \<open>float(s)\<close> and \<open>'%.df' % x\<close> read and print decimal text. The error bound of the
  rounding is what the codec's timestamp conversion rests on.
\<close>

section \<open>Rounding\<close>

datatype pyfloat = Fin rat | PosInf | NegInf | NaN

definition round_even :: "rat \<Rightarrow> int" where
  "round_even x =
     (let n = \<lfloor>x\<rfloor>; d = x - of_int n in
      if d < 1 / 2 then n else if 1 / 2 < d then n + 1 else if even n then n else n + 1)"

definition pow2 :: "int \<Rightarrow> rat" where
  "pow2 e = (if 0 \<le> e then 2 ^ nat e else 1 / 2 ^ nat (- e))"

text \<open>The binary exponent of a rational that is not zero.\<close>

definition bin_exp :: "rat \<Rightarrow> int" where
  "bin_exp x =
     (case quotient_of x of (p, q) \<Rightarrow>
        let e = bitlen \<bar>p\<bar> - bitlen q in if pow2 e \<le> \<bar>x\<bar> then e else e - 1)"

definition ulp :: "rat \<Rightarrow> rat" where
  "ulp x = pow2 (max (bin_exp x - 52) (- 1074))"

definition rnd_rat :: "rat \<Rightarrow> rat" where
  "rnd_rat x = (if x = 0 then 0 else of_int (round_even (x / ulp x)) * ulp x)"

definition rnd :: "rat \<Rightarrow> pyfloat" where
  "rnd x =
     (let r = rnd_rat x in
      if 2 ^ 1024 \<le> r then PosInf else if r \<le> - (2 ^ 1024) then NegInf else Fin r)"

lemma round_even_error: "\<bar>of_int (round_even x) - x\<bar> \<le> 1 / 2"
proof -
  have "of_int \<lfloor>x\<rfloor> \<le> x" "x < of_int \<lfloor>x\<rfloor> + 1" by linarith+
  moreover have "round_even x = \<lfloor>x\<rfloor> \<and> x - of_int \<lfloor>x\<rfloor> \<le> 1 / 2 \<or>
      round_even x = \<lfloor>x\<rfloor> + 1 \<and> 1 / 2 \<le> x - of_int \<lfloor>x\<rfloor>"
    unfolding round_even_def Let_def by (simp split: if_split)
  ultimately show ?thesis by (auto simp: abs_le_iff)
qed

lemma round_even_of_int [simp]: "round_even (of_int n) = n"
  by (simp add: round_even_def)

lemma round_even_near:
  assumes "\<bar>x - of_int n\<bar> < 1 / 2"
  shows "round_even x = n"
proof -
  have "\<bar>of_int (round_even x) - (of_int n :: rat)\<bar> < 1"
    using round_even_error [of x] assms by linarith
  then have "\<bar>round_even x - n\<bar> < 1" by linarith
  then show ?thesis by simp
qed

lemma pow2_pos [simp]: "0 < pow2 e"
  by (simp add: pow2_def)

lemma pow2_add: "pow2 (a + b) = pow2 a * pow2 b"
proof -
  have "pow2 e = 2 powi e" for e
    by (simp add: pow2_def power_int_def power_one_over inverse_eq_divide)
  then show ?thesis by (simp add: power_int_add)
qed

lemma pow2_mono: "a \<le> b \<Longrightarrow> pow2 a \<le> pow2 b"
proof -
  assume "a \<le> b"
  then have "pow2 b = pow2 a * pow2 (b - a)" using pow2_add [of a "b - a"] by simp
  moreover have "1 \<le> pow2 (b - a)" using \<open>a \<le> b\<close> by (simp add: pow2_def)
  ultimately show ?thesis using pow2_pos [of a] by simp
qed

lemma pow2_nat: "pow2 (int n) = 2 ^ n"
  by (simp add: pow2_def)

lemma pow2_bitlen_le: "0 < p \<Longrightarrow> pow2 (bitlen p - 1) \<le> of_int p"
proof -
  assume p: "0 < p"
  have "2 ^ nat (bitlen p - 1) \<le> p" "0 < bitlen p"
    using bitlen_bounds [OF p] bitlen_nonneg [of p] bitlen_eq_zero_iff [of p] p by (simp_all add: order.order_iff_strict)
  then have "(2 :: rat) ^ nat (bitlen p - 1) \<le> of_int p"
    by (metis of_int_le_iff of_int_numeral of_int_power)
  then show ?thesis using \<open>0 < bitlen p\<close> by (simp add: pow2_def)
qed

lemma lt_pow2_bitlen: "0 < q \<Longrightarrow> of_int q < pow2 (bitlen q)"
proof -
  assume q: "0 < q"
  have "q < 2 ^ nat (bitlen q)" "0 \<le> bitlen q"
    using bitlen_bounds [OF q] bitlen_nonneg [of q] by auto
  then have "of_int q < (2 :: rat) ^ nat (bitlen q)"
    by (metis of_int_less_iff of_int_numeral of_int_power)
  then show ?thesis using \<open>0 \<le> bitlen q\<close> by (simp add: pow2_def)
qed

lemma pow2_bin_exp_le:
  assumes "x \<noteq> 0"
  shows "pow2 (bin_exp x) \<le> \<bar>x\<bar>"
proof -
  obtain p q where pq: "quotient_of x = (p, q)" by (cases "quotient_of x")
  have q: "0 < q" using pq by (rule quotient_of_denom_pos)
  have x: "x = of_int p / of_int q" using pq by (rule quotient_of_div)
  with assms have p: "0 < \<bar>p\<bar>" by auto
  have "pow2 (bitlen \<bar>p\<bar> - 1) * of_int q \<le> of_int \<bar>p\<bar> * pow2 (bitlen q)"
    using pow2_bitlen_le [OF p] lt_pow2_bitlen [OF q] q
    by (intro mult_mono) (auto intro: less_imp_le)
  moreover have "pow2 (bitlen \<bar>p\<bar> - 1) = pow2 (bitlen \<bar>p\<bar> - bitlen q - 1) * pow2 (bitlen q)"
    by (simp add: pow2_add [symmetric] algebra_simps)
  ultimately have "pow2 (bitlen \<bar>p\<bar> - bitlen q - 1) * of_int q * pow2 (bitlen q) \<le>
      of_int \<bar>p\<bar> * pow2 (bitlen q)"
    by (simp add: ac_simps)
  then have "pow2 (bitlen \<bar>p\<bar> - bitlen q - 1) * of_int q \<le> of_int \<bar>p\<bar>"
    using pow2_pos [of "bitlen q"] by (simp only: mult_le_cancel_right)
  then have "pow2 (bitlen \<bar>p\<bar> - bitlen q - 1) \<le> \<bar>x\<bar>"
    using q by (simp add: x abs_divide le_divide_eq)
  then show ?thesis by (simp add: bin_exp_def pq Let_def)
qed

lemma ulp_pos [simp]: "0 < ulp x"
  by (simp add: ulp_def)

lemma ulp_le: "x \<noteq> 0 \<Longrightarrow> ulp x \<le> \<bar>x\<bar> / 2 ^ 52 + 1 / 2 ^ 1074"
proof -
  assume x: "x \<noteq> 0"
  have "pow2 (bin_exp x - 52) = pow2 (bin_exp x) / 2 ^ 52"
    using pow2_add [of "bin_exp x" "- 52"] by (simp add: pow2_def)
  also have "\<dots> \<le> \<bar>x\<bar> / 2 ^ 52"
    using pow2_bin_exp_le [OF x] by (simp add: divide_right_mono)
  finally have "pow2 (bin_exp x - 52) \<le> \<bar>x\<bar> / 2 ^ 52" .
  moreover have "pow2 (- 1074) = 1 / 2 ^ 1074" by (simp add: pow2_def)
  ultimately show ?thesis
    unfolding ulp_def max_def by (auto intro: add_increasing add_increasing2)
qed

text \<open>The error of one rounding.\<close>

lemma rnd_rat_error: "\<bar>rnd_rat x - x\<bar> \<le> \<bar>x\<bar> / 2 ^ 53 + 1 / 2 ^ 1075"
proof (cases "x = 0")
  case True
  then show ?thesis by (simp add: rnd_rat_def)
next
  case False
  have "\<bar>rnd_rat x - x\<bar> = \<bar>of_int (round_even (x / ulp x)) - x / ulp x\<bar> * ulp x"
  proof -
    have "of_int (round_even (x / ulp x)) * ulp x - x = (of_int (round_even (x / ulp x)) - x / ulp x) * ulp x"
      using ulp_pos [of x] by (simp add: left_diff_distrib less_imp_neq [symmetric])
    then show ?thesis using False ulp_pos [of x] by (simp only: rnd_rat_def if_False abs_mult)
  qed
  also have "\<dots> \<le> 1 / 2 * ulp x"
    by (rule mult_right_mono) (rule round_even_error, simp add: less_imp_le)
  also have "\<dots> \<le> 1 / 2 * (\<bar>x\<bar> / 2 ^ 52 + 1 / 2 ^ 1074)"
    using ulp_le [OF False] by simp
  finally show ?thesis by simp
qed

text \<open>Integers below 2 to the 53 are doubles.\<close>

lemma pow2_lt_iff: "pow2 a < pow2 b \<longleftrightarrow> a < b"
proof
  show "pow2 a < pow2 b \<Longrightarrow> a < b"
    using pow2_mono [of b a] by (meson leD le_less_linear)
next
  assume "a < b"
  then have "pow2 (a + 1) \<le> pow2 b" by (intro pow2_mono) simp
  moreover have "pow2 (a + 1) = 2 * pow2 a" by (simp add: pow2_add) (simp add: pow2_def)
  ultimately show "pow2 a < pow2 b" using pow2_pos [of a] by linarith
qed

lemma rnd_rat_int:
  assumes "\<bar>i\<bar> < 2 ^ 53"
  shows "rnd_rat (of_int i) = of_int i"
proof (cases "i = 0")
  case False
  let ?x = "of_int i :: rat"
  have "pow2 (bin_exp ?x) \<le> \<bar>?x\<bar>" using False by (simp add: pow2_bin_exp_le)
  also have "\<bar>?x\<bar> < pow2 53"
    using assms by (simp add: pow2_def)
  finally have "bin_exp ?x \<le> 52" by (simp add: pow2_lt_iff)
  then have "ulp ?x = 1 / 2 ^ nat (- max (bin_exp ?x - 52) (- 1074))"
    by (simp add: ulp_def pow2_def)
  then obtain j where j: "ulp ?x = 1 / 2 ^ j" by blast
  have "?x / ulp ?x = of_int (i * 2 ^ j)" by (simp add: j)
  then have "round_even (?x / ulp ?x) = i * 2 ^ j" by (simp only: round_even_of_int)
  with False show ?thesis by (simp add: rnd_rat_def j)
qed (simp add: rnd_rat_def)

section \<open>Text\<close>

definition is_digit :: "char \<Rightarrow> bool" where
  "is_digit c = (digit_val c \<noteq> None)"

text \<open>The underscores of a number literal stand between digits and are dropped.\<close>

fun drop_underscores :: "bool \<Rightarrow> string \<Rightarrow> string option" where
  "drop_underscores after_digit [] = Some []"
| "drop_underscores after_digit (c # s) =
     (if c = CHR ''_'' then
        (case s of
           [] \<Rightarrow> None
         | d # _ \<Rightarrow> if after_digit \<and> is_digit d then drop_underscores False s else None)
      else map_option (Cons c) (drop_underscores (is_digit c) s))"

definition dec_val :: "string \<Rightarrow> nat" where
  "dec_val s = foldl (\<lambda>a c. 10 * a + the (digit_val c)) 0 s"

definition to_lower :: "char \<Rightarrow> char" where
  "to_lower c = (let n = of_char c :: nat in if 65 \<le> n \<and> n \<le> 90 then char_of (n + 32) else c)"

definition pow10 :: "int \<Rightarrow> rat" where
  "pow10 e = (if 0 \<le> e then 10 ^ nat e else 1 / 10 ^ nat (- e))"

text \<open>The exponent part, after the mantissa: nothing, or an \<open>e\<close>, a sign and digits.\<close>

definition exp_part :: "string \<Rightarrow> int option" where
  "exp_part s =
     (case s of
        [] \<Rightarrow> Some 0
      | c # t \<Rightarrow>
          if to_lower c \<noteq> CHR ''e'' then None
          else (let ds = (case t of [] \<Rightarrow> [] | d # u \<Rightarrow> if d = CHR ''-'' \<or> d = CHR ''+'' then u else t);
                    n = int (dec_val ds) in
                if ds = [] \<or> \<not> list_all is_digit ds then None
                else Some (if hd t = CHR ''-'' then - n else n)))"

definition unsigned_float :: "string \<Rightarrow> rat option" where
  "unsigned_float s =
     (let ip = takeWhile is_digit s; r = dropWhile is_digit s;
          fp = (case r of [] \<Rightarrow> [] | c # t \<Rightarrow> if c = CHR ''.'' then takeWhile is_digit t else []);
          e = (case r of [] \<Rightarrow> [] | c # t \<Rightarrow> if c = CHR ''.'' then dropWhile is_digit t else r) in
      if ip = [] \<and> fp = [] then None
      else map_option (\<lambda>n. of_nat (dec_val (ip @ fp)) * pow10 (n - int (length fp))) (exp_part e))"

definition float_body :: "string \<Rightarrow> pyfloat option" where
  "float_body s =
     (let w = map to_lower s in
      if w = ''inf'' \<or> w = ''infinity'' then Some PosInf
      else if w = ''nan'' then Some NaN
      else map_option rnd (unsigned_float s))"

fun float_neg :: "pyfloat \<Rightarrow> pyfloat" where
  "float_neg (Fin r) = Fin (- r)"
| "float_neg PosInf = NegInf"
| "float_neg NegInf = PosInf"
| "float_neg NaN = NaN"

definition py_float :: "string \<Rightarrow> pyfloat option" where
  "py_float s =
     (case drop_underscores False (py_strip s) of
        None \<Rightarrow> None
      | Some [] \<Rightarrow> None
      | Some (c # t) \<Rightarrow>
          if c = CHR ''-'' then map_option float_neg (float_body t)
          else if c = CHR ''+'' then float_body t
          else float_body (c # t))"

text \<open>\<open>'%.df' % x\<close>\<close>

definition pad_left :: "nat \<Rightarrow> string \<Rightarrow> string" where
  "pad_left w s = replicate (w - length s) (CHR ''0'') @ s"

fun fmt_fixed :: "nat \<Rightarrow> pyfloat \<Rightarrow> string" where
  "fmt_fixed d (Fin r) =
     (let n = nat (round_even (\<bar>r\<bar> * 10 ^ d)) in
      (if r < 0 then ''-'' else []) @ nat_str (n div 10 ^ d) @ ''.'' @
      pad_left d (nat_str (n mod 10 ^ d)))"
| "fmt_fixed d PosInf = ''inf''"
| "fmt_fixed d NegInf = ''-inf''"
| "fmt_fixed d NaN = ''nan''"

section \<open>Printing and reading back\<close>

text \<open>The double that \<open>float('%.df' % x)\<close> gives.\<close>

fun coarse :: "nat \<Rightarrow> pyfloat \<Rightarrow> pyfloat" where
  "coarse d (Fin r) =
     (let q = rnd (of_nat (nat (round_even (\<bar>r\<bar> * 10 ^ d))) / 10 ^ d) in
      if r < 0 then float_neg q else q)"
| "coarse d x = x"

lemma is_digit_digit_char [simp]: "d < 10 \<Longrightarrow> is_digit (digit_char d)"
  by (simp add: is_digit_def)

lemma nat_str_is_digit: "c \<in> set (nat_str n) \<Longrightarrow> is_digit c"
  by (auto dest!: nat_str_digits)

lemma list_all_digit_nat_str [simp]: "list_all is_digit (nat_str n)"
  by (simp add: list_all_iff nat_str_is_digit)

lemma is_digit_zero [simp]: "is_digit (CHR ''0'')"
  by (simp add: is_digit_def digit_val_def)

lemma list_all_digit_pad [simp]: "list_all is_digit (pad_left w (nat_str n))"
  by (auto simp: pad_left_def list_all_iff nat_str_is_digit)

lemma dec_val_append: "dec_val (a @ b) = dec_val a * 10 ^ length b + dec_val b"
proof -
  have "foldl (\<lambda>a c. 10 * a + the (digit_val c)) x b =
      x * 10 ^ length b + foldl (\<lambda>a c. 10 * a + the (digit_val c)) 0 b" for x
  proof (induction b arbitrary: x)
    case Nil
    then show ?case by simp
  next
    case (Cons c b)
    show ?case
      unfolding foldl_Cons Cons.IH [of "10 * x + the (digit_val c)"]
        Cons.IH [of "10 * 0 + the (digit_val c)"]
      by (simp add: algebra_simps)
  qed
  then show ?thesis unfolding dec_val_def foldl_append by blast
qed

lemma dec_val_nat_str [simp]: "dec_val (nat_str n) = n"
proof (induction n rule: nat_str.induct)
  case (1 n)
  have one: "dec_val [digit_char d] = d" if "d < 10" for d
    using that by (simp add: dec_val_def)
  show ?case
  proof (cases "n < 10")
    case True
    then show ?thesis by (simp add: nat_str.simps [of n] one)
  next
    case False
    with 1 one [of "n mod 10"] show ?thesis
      by (subst nat_str.simps) (simp add: dec_val_append)
  qed
qed

lemma dec_val_zeros: "dec_val (replicate k (CHR ''0'') @ s) = dec_val s"
  by (induction k) (simp_all add: dec_val_def digit_val_def)

lemma length_nat_str: "n < 10 ^ w \<Longrightarrow> 0 < w \<Longrightarrow> length (nat_str n) \<le> w"
proof (induction n arbitrary: w rule: nat_str.induct)
  case (1 n)
  show ?case
  proof (cases "n < 10")
    case True
    with 1 show ?thesis by (simp add: nat_str.simps [of n])
  next
    case False
    with "1.prems" obtain v where w: "w = Suc v" "0 < v" by (cases w; cases "w - 1") auto
    with "1.prems" have "n div 10 < 10 ^ v" by (simp add: div_less_iff_less_mult mult.commute)
    with 1(1) [OF False _ w(2)] False show ?thesis by (simp add: nat_str.simps [of n] w)
  qed
qed

lemma length_pad [simp]: "n < 10 ^ w \<Longrightarrow> 0 < w \<Longrightarrow> length (pad_left w (nat_str n)) = w"
  using length_nat_str [of n w] by (simp add: pad_left_def)

lemma dec_val_fixed:
  "0 < d \<Longrightarrow> dec_val (nat_str (n div 10 ^ d) @ pad_left d (nat_str (n mod 10 ^ d))) = n"
  by (simp add: dec_val_append) (simp add: pad_left_def dec_val_zeros div_mult_mod_eq)

lemma takeWhile_digits:
  "list_all is_digit a \<Longrightarrow> \<not> is_digit c \<Longrightarrow> takeWhile is_digit (a @ c # b) = a"
  "list_all is_digit a \<Longrightarrow> \<not> is_digit c \<Longrightarrow> dropWhile is_digit (a @ c # b) = c # b"
  by (induction a) auto

lemma all_digits:
  "list_all is_digit a \<Longrightarrow> takeWhile is_digit a = a" "list_all is_digit a \<Longrightarrow> dropWhile is_digit a = []"
  by (induction a) auto

lemma unsigned_float_fixed:
  assumes "list_all is_digit a" "list_all is_digit b" "a \<noteq> []"
  shows "unsigned_float (a @ CHR ''.'' # b) = Some (of_nat (dec_val (a @ b)) / 10 ^ length b)"
proof -
  have "\<not> is_digit (CHR ''.'')" by (simp add: is_digit_def digit_val_def)
  then have "unsigned_float (a @ CHR ''.'' # b) =
      Some (of_nat (dec_val (a @ b)) * pow10 (0 - int (length b)))"
    using assms by (simp add: unsigned_float_def takeWhile_digits all_digits exp_part_def Let_def)
  moreover have "pow10 (- int (length b)) = 1 / 10 ^ length b"
    by (cases "b = []") (simp_all add: pow10_def)
  ultimately show ?thesis by simp
qed

lemma drop_underscores_id: "CHR ''_'' \<notin> set s \<Longrightarrow> drop_underscores b s = Some s"
  by (induction s arbitrary: b) auto

lemma digit_neqs:
  "is_digit c \<Longrightarrow> c \<noteq> CHR ''-'' \<and> c \<noteq> CHR ''+'' \<and> c \<noteq> CHR ''_'' \<and> \<not> py_ws c \<and>
     to_lower c \<noteq> CHR ''i'' \<and> to_lower c \<noteq> CHR ''n''"
  by (auto simp: is_digit_def digit_val_def py_ws_def to_lower_def Let_def split: if_splits)

lemma float_body_fixed:
  assumes "list_all is_digit a" "list_all is_digit b" "a \<noteq> []"
  shows "float_body (a @ CHR ''.'' # b) = Some (rnd (of_nat (dec_val (a @ b)) / 10 ^ length b))"
proof -
  obtain c a' where a: "a = c # a'" using assms(3) by (cases a) auto
  with assms(1) digit_neqs [of c] have "to_lower c \<noteq> CHR ''i''" "to_lower c \<noteq> CHR ''n''" by auto
  then show ?thesis
    using unsigned_float_fixed [OF assms] by (simp add: float_body_def a Let_def)
qed

text \<open>Printing a float with at least one decimal and reading it back never fails.\<close>

lemma py_float_fixed:
  assumes "0 < d"
  shows "py_float (fmt_fixed d x) = Some (coarse d x)"
proof (cases x)
  case (Fin r)
  define n where "n = nat (round_even (\<bar>r\<bar> * 10 ^ d))"
  define s where "s = nat_str (n div 10 ^ d) @ CHR ''.'' # pad_left d (nat_str (n mod 10 ^ d))"
  have body: "float_body s = Some (rnd (of_nat n / 10 ^ d))"
    using assms by (simp add: s_def float_body_fixed dec_val_fixed)
  obtain c t where ct: "s = c # t" "is_digit c"
    using nat_str_is_digit [of "hd s" "n div 10 ^ d"]
    by (cases "nat_str (n div 10 ^ d)") (auto simp: s_def)
  have "list_all is_digit (pad_left d (nat_str (n mod 10 ^ d)))" by simp
  moreover have "pad_left d (nat_str (n mod 10 ^ d)) \<noteq> []" by (simp add: pad_left_def)
  ultimately have last: "is_digit (last s)" by (simp add: s_def list_all_iff)
  have us: "CHR ''_'' \<notin> set s"
  proof -
    have "list_all is_digit (nat_str (n div 10 ^ d))" "list_all is_digit (pad_left d (nat_str (n mod 10 ^ d)))"
      by simp_all
    then show ?thesis using digit_neqs [of "CHR ''_''"] by (auto simp: s_def list_all_iff)
  qed
  have fmt: "fmt_fixed d x = (if r < 0 then ''-'' else []) @ s"
    by (simp add: Fin n_def s_def Let_def)
  have "trimmed (fmt_fixed d x)"
    using ct last digit_neqs [of c] digit_neqs [of "last s"]
    by (auto simp: trimmed_def fmt py_ws_def)
  moreover have "CHR ''_'' \<notin> set (fmt_fixed d x)" using us by (simp add: fmt)
  ultimately have "py_float (fmt_fixed d x) =
      (if r < 0 then map_option float_neg (float_body s) else float_body s)"
    using ct digit_neqs [of c]
    by (auto simp: py_float_def py_strip_trimmed drop_underscores_id fmt)
  with body show ?thesis by (simp add: Fin n_def Let_def)
qed (simp_all add: py_float_def py_strip_def py_lstrip_def py_rstrip_def py_ws_def float_body_def
    to_lower_def Let_def)

end
