(* ===== verification/Py_Time.thy ===== *)
theory Py_Time
  imports Py_Float
begin

text \<open>
  Naive UTC \<open>datetime\<close> values: the number of microseconds since the epoch, between the
  years 1 and 9999. \<open>utcfromtimestamp\<close>, \<open>total_seconds\<close> and \<open>isoformat\<close> are written out
  from the language's definition.
\<close>

type_synonym datetime = int

definition dt_min :: datetime where
  "dt_min = - 62135596800000000"

definition dt_max :: datetime where
  "dt_max = 253402300799999999"

definition dt_in_range :: "datetime \<Rightarrow> bool" where
  "dt_in_range t = (dt_min \<le> t \<and> t \<le> dt_max)"

definition trunc :: "rat \<Rightarrow> int" where
  "trunc x = (if x < 0 then - \<lfloor>- x\<rfloor> else \<lfloor>x\<rfloor>)"

text \<open>
  \<open>datetime.utcfromtimestamp(x)\<close>: the fraction of the double is scaled to microseconds
  (one more rounding) and rounded to even.
\<close>

definition utcfromtimestamp :: "rat \<Rightarrow> py_error + datetime" where
  "utcfromtimestamp x =
     (let s = trunc x; us = round_even (rnd_rat ((x - of_int s) * 1000000));
          t = s * 1000000 + us in
      if dt_in_range t then Inr t else Inl ValueError)"

text \<open>\<open>(t - datetime(1970, 1, 1)).total_seconds()\<close>\<close>

definition total_seconds :: "datetime \<Rightarrow> rat" where
  "total_seconds t = rnd_rat (of_int t / 1000000)"

section \<open>Calendar\<close>

definition month_days :: "bool \<Rightarrow> int list" where
  "month_days leap = [31, if leap then 29 else 28, 31, 30, 31, 30, 31, 31, 30, 31, 30, 31]"

fun month_day :: "int \<Rightarrow> int list \<Rightarrow> int \<Rightarrow> int \<times> int" where
  "month_day m [] n = (m, n + 1)"
| "month_day m (d # ds) n = (if n < d \<or> ds = [] then (m, n + 1) else month_day (m + 1) ds (n - d))"

text \<open>Year, month and day from the days since 0001-01-01, by 400, 100, 4 and 1 years.\<close>

definition civil_date :: "int \<Rightarrow> int \<times> int \<times> int" where
  "civil_date n =
     (let n400 = n div 146097; r400 = n mod 146097;
          n100 = r400 div 36524; r100 = r400 mod 36524;
          n4 = r100 div 1461; r4 = r100 mod 1461;
          n1 = r4 div 365; r1 = r4 mod 365;
          year = 400 * n400 + 100 * n100 + 4 * n4 + n1 + 1 in
      if n1 = 4 \<or> n100 = 4 then (year - 1, 12, 31)
      else (year, month_day 1 (month_days (n1 = 3 \<and> (n4 \<noteq> 24 \<or> n100 = 3))) r1))"

definition pad :: "nat \<Rightarrow> int \<Rightarrow> string" where
  "pad w n = pad_left w (nat_str (nat n))"

text \<open>\<open>t.isoformat(timespec='milliseconds') + 'Z'\<close>\<close>

definition isoformat_ms_z :: "datetime \<Rightarrow> string" where
  "isoformat_ms_z t =
     (let ms = (t - dt_min) div 1000; days = ms div 86400000; r = ms mod 86400000 in
      case civil_date days of (y, m, d) \<Rightarrow>
        pad 4 y @ ''-'' @ pad 2 m @ ''-'' @ pad 2 d @ ''T'' @
        pad 2 (r div 3600000) @ '':'' @ pad 2 (r div 60000 mod 60) @ '':'' @
        pad 2 (r div 1000 mod 60) @ ''.'' @ pad 3 (r mod 1000) @ ''Z'')"

end
