(* ===== verification/Wire.thy ===== *)
theory Wire
  imports Py_Time
begin

text \<open>
  The messages of the federation protocol (proto/fig_pb2.py), with the fields the source
  reads or writes, and the sidecar \<open>FedMeta\<close> of codec.py. A message field is an option, a
  repeated field a list; scalar fields have the default of proto3. Hop counts and
  timestamps are int64 and the battery int32: assigning a number outside of that range
  raises \<open>ValueError\<close>.
\<close>

section \<open>Messages\<close>

record geo_event =
  ge_uid :: string
  ge_type :: string
  ge_coordSource :: string
  ge_sendTime :: int
  ge_startTime :: int
  ge_staleTime :: int
  ge_lat :: pyfloat
  ge_lon :: pyfloat
  ge_hae :: pyfloat
  ge_ce :: pyfloat
  ge_le :: pyfloat
  ge_other :: string
  ge_battery :: int
  ge_screenName :: string
  ge_groupName :: string
  ge_groupRole :: string
  ge_phone :: string
  ge_speed :: pyfloat
  ge_course :: pyfloat

datatype crud = CRUD_INVALID | CRUD_CREATE | CRUD_READ | CRUD_UPDATE | CRUD_DELETE | CRUD_OTHER int

record contact_entry =
  ct_operation :: crud
  ct_uid :: string
  ct_callsign :: string
  ct_phone :: string
  ct_sip :: string
  ct_directConnect :: string

record fed_hops =
  fh_maxHops :: int
  fh_currentHops :: int

record group_hop_limit =
  hl_groupName :: string
  hl_maxHops :: int
  hl_currentHops :: int

record group_hop_limits =
  hl_limits :: "group_hop_limit list"
  hl_use :: bool

record fed_event =
  fe_event :: "geo_event option"
  fe_contact :: "contact_entry option"
  fe_groups :: "string list"
  fe_provenance :: "string list"
  fe_hops :: "fed_hops option"
  fe_group_hop_limits :: "group_hop_limits option"

definition empty_fed_event :: fed_event where
  "empty_fed_event = \<lparr> fe_event = None, fe_contact = None, fe_groups = [], fe_provenance = [],
     fe_hops = None, fe_group_hop_limits = None \<rparr>"

definition int64_ok :: "int \<Rightarrow> bool" where
  "int64_ok i = (- (2 ^ 63) \<le> i \<and> i < 2 ^ 63)"

definition int32_ok :: "int \<Rightarrow> bool" where
  "int32_ok i = (- (2 ^ 31) \<le> i \<and> i < 2 ^ 31)"

text \<open>A sub-message that is not set reads as the default message.\<close>

definition wire_hops :: "fed_event \<Rightarrow> fed_hops" where
  "wire_hops p = (case fe_hops p of Some h \<Rightarrow> h | None \<Rightarrow> \<lparr> fh_maxHops = 0, fh_currentHops = 0 \<rparr>)"

section \<open>FedMeta\<close>

record fed_meta =
  fm_seen :: "string list"
  fm_current_hops :: int
  fm_max_hops :: int
  fm_group_hop_limits :: "group_hop_limits option"

text \<open>What the type of the wire guarantees for a message that was received.\<close>

definition hops_ok :: "fed_hops \<Rightarrow> bool" where
  "hops_ok h = (int64_ok (fh_maxHops h) \<and> int64_ok (fh_currentHops h))"

definition geo_ok :: "geo_event \<Rightarrow> bool" where
  "geo_ok g = (int64_ok (ge_sendTime g) \<and> int64_ok (ge_startTime g) \<and>
     int64_ok (ge_staleTime g) \<and> int32_ok (ge_battery g))"

definition wire_ok :: "fed_event \<Rightarrow> bool" where
  "wire_ok p = (pred_option geo_ok (fe_event p) \<and> pred_option hops_ok (fe_hops p))"

lemma int64_ok_numeral [simp]: "int64_ok 0" "int64_ok 1" "int64_ok (- 1)"
  by (simp_all add: int64_ok_def)

end
