(* ===== verification/Xml_Tree.thy ===== *)
theory Xml_Tree
  imports Prelude
begin

text \<open>
  XML elements as the code handles them: trees of the ElementTree data model (tag,
  attributes, text, children, tail), with the few operations of that interface the
  source calls. The parser and the serialiser of lxml are not under the repository's
  source, so they are a parameter \<open>xml_lib\<close> of the definitions that parse or print; what
  the code relies on is \<open>xml_lib_ok\<close>: printing a normal tree and parsing it gives the
  tree back, parsing gives normal trees only, and the empty text does not parse. Comments and processing instructions
  are left out: no lookup of the source matches one.

  The last section is an implementation of the parameter that satisfies the hypothesis,
  for the witnesses.
\<close>

section \<open>Elements\<close>

datatype elem = Elem
  (e_tag: string)
  (e_attrs: "(string, string) dict")
  (e_text: "string option")
  (e_kids: "elem list")
  (e_tail: "string option")

definition new_elem :: "string \<Rightarrow> elem" where
  "new_elem tag = Elem tag [] None [] None"

definition elem_get :: "elem \<Rightarrow> string \<Rightarrow> string option" where
  "elem_get e k = dget (e_attrs e) k"

text \<open>\<open>e.get(k, default)\<close>\<close>

definition elem_get_or :: "elem \<Rightarrow> string \<Rightarrow> string \<Rightarrow> string" where
  "elem_get_or e k d = (case elem_get e k of Some v \<Rightarrow> v | None \<Rightarrow> d)"

fun elem_set :: "string \<Rightarrow> string \<Rightarrow> elem \<Rightarrow> elem" where
  "elem_set k v (Elem t as x cs l) = Elem t (dset k v as) x cs l"

fun set_text :: "string option \<Rightarrow> elem \<Rightarrow> elem" where
  "set_text x (Elem t as _ cs l) = Elem t as x cs l"

fun with_kids :: "elem list \<Rightarrow> elem \<Rightarrow> elem" where
  "with_kids cs (Elem t as x _ l) = Elem t as x cs l"

fun append_kid :: "elem \<Rightarrow> elem \<Rightarrow> elem" where
  "append_kid c (Elem t as x cs l) = Elem t as x (cs @ [c]) l"

definition elem_findall :: "elem \<Rightarrow> string \<Rightarrow> elem list" where
  "elem_findall e tag = filter (\<lambda>c. e_tag c = tag) (e_kids e)"

definition elem_find :: "elem \<Rightarrow> string \<Rightarrow> elem option" where
  "elem_find e tag = (case elem_findall e tag of [] \<Rightarrow> None | c # _ \<Rightarrow> Some c)"

text \<open>Changing in place the first child with a tag, the object that \<open>find\<close> returns.\<close>

fun map_first :: "('a \<Rightarrow> bool) \<Rightarrow> ('a \<Rightarrow> 'a) \<Rightarrow> 'a list \<Rightarrow> 'a list" where
  "map_first P f [] = []"
| "map_first P f (x # xs) = (if P x then f x # xs else x # map_first P f xs)"

definition update_first :: "string \<Rightarrow> (elem \<Rightarrow> elem) \<Rightarrow> elem \<Rightarrow> elem" where
  "update_first tag f e = with_kids (map_first (\<lambda>c. e_tag c = tag) f (e_kids e)) e"

text \<open>Removing every direct child with one of the given tags (a child goes with its tail).\<close>

definition remove_kids :: "string list \<Rightarrow> elem \<Rightarrow> elem" where
  "remove_kids tags e = with_kids (filter (\<lambda>c. e_tag c \<notin> set tags) (e_kids e)) e"

lemma elem_sel_simps [simp]:
  "e_tag (elem_set k v e) = e_tag e" "e_kids (elem_set k v e) = e_kids e"
  "e_attrs (elem_set k v e) = dset k v (e_attrs e)"
  "e_text (elem_set k v e) = e_text e" "e_tail (elem_set k v e) = e_tail e"
  "e_tag (with_kids cs e) = e_tag e" "e_kids (with_kids cs e) = cs"
  "e_attrs (with_kids cs e) = e_attrs e" "e_text (with_kids cs e) = e_text e"
  "e_tail (with_kids cs e) = e_tail e"
  "e_tag (append_kid c e) = e_tag e" "e_kids (append_kid c e) = e_kids e @ [c]"
  "e_attrs (append_kid c e) = e_attrs e" "e_text (append_kid c e) = e_text e"
  "e_tail (append_kid c e) = e_tail e"
  by (cases e; simp)+

lemma new_elem_sel [simp]:
  "e_tag (new_elem t) = t" "e_attrs (new_elem t) = []" "e_kids (new_elem t) = []"
  "e_text (new_elem t) = None" "e_tail (new_elem t) = None"
  by (simp_all add: new_elem_def)

lemma elem_find_new [simp]: "elem_find (new_elem t) s = None"
  by (simp add: elem_find_def elem_findall_def)

lemma elem_eqI:
  "e_tag a = e_tag b \<Longrightarrow> e_attrs a = e_attrs b \<Longrightarrow> e_text a = e_text b \<Longrightarrow>
   e_kids a = e_kids b \<Longrightarrow> e_tail a = e_tail b \<Longrightarrow> a = b"
  by (cases a; cases b) simp

lemma findall_append_kid [simp]:
  "elem_findall (append_kid c e) t = elem_findall e t @ (if e_tag c = t then [c] else [])"
  by (simp add: elem_findall_def)

lemma find_append_kid:
  "elem_find (append_kid c e) t =
     (case elem_find e t of Some d \<Rightarrow> Some d | None \<Rightarrow> if e_tag c = t then Some c else None)"
  by (auto simp: elem_find_def split: list.split)

lemma elem_find_tag: "elem_find e t = Some c \<Longrightarrow> e_tag c = t \<and> c \<in> set (e_kids e)"
  by (auto simp: elem_find_def elem_findall_def split: list.splits dest: filter_eq_ConsD)

lemma elem_find_None: "elem_find e t = None \<longleftrightarrow> (\<forall>c \<in> set (e_kids e). e_tag c \<noteq> t)"
  by (auto simp: elem_find_def elem_findall_def filter_empty_conv split: list.splits
      dest: filter_eq_ConsD)

lemma filter_map_first:
  "(\<And>x. P x \<Longrightarrow> P (f x)) \<Longrightarrow>
   filter P (map_first P f xs) = (case filter P xs of [] \<Rightarrow> [] | y # ys \<Rightarrow> f y # ys)"
  by (induction xs) auto

lemma map_first_none: "\<forall>x \<in> set xs. \<not> P x \<Longrightarrow> map_first P f xs = xs"
  by (induction xs) auto

lemma set_map_first: "set (map_first P f xs) \<subseteq> set xs \<union> f ` {x \<in> set xs. P x}"
  by (induction xs) auto

lemma find_update_first:
  "(\<And>c. e_tag (f c) = e_tag c) \<Longrightarrow>
   elem_find (update_first t f e) t = map_option f (elem_find e t)"
  by (simp add: elem_find_def elem_findall_def update_first_def filter_map_first split: list.split)

lemma findall_remove_kids [simp]:
  "elem_findall (remove_kids ts e) t = (if t \<in> set ts then [] else elem_findall e t)"
  by (auto simp: elem_findall_def remove_kids_def filter_empty_conv intro: filter_cong)

section \<open>Parser and serialiser\<close>

record xml_lib =
  xml_fromstring :: "string \<Rightarrow> py_error + elem"
  xml_tostring :: "elem \<Rightarrow> string"
  xml_name_ok :: "string \<Rightarrow> bool"

definition xml_char :: "char \<Rightarrow> bool" where
  "xml_char c = (let n = of_char c :: nat in 32 \<le> n \<or> n = 9 \<or> n = 10 \<or> n = 13)"

definition xml_text_ok :: "string \<Rightarrow> bool" where
  "xml_text_ok s = list_all xml_char s"

definition opt_text_ok :: "string option \<Rightarrow> bool" where
  "opt_text_ok x = (case x of None \<Rightarrow> True | Some s \<Rightarrow> s \<noteq> [] \<and> xml_text_ok s)"

text \<open>
  A normal tree: names the library accepts, every attribute once, no empty text node and
  no character that XML cannot carry.
\<close>

fun xml_normal :: "(string \<Rightarrow> bool) \<Rightarrow> elem \<Rightarrow> bool" where
  "xml_normal ok (Elem t as x cs l) \<longleftrightarrow>
     ok t \<and> dict_ok as \<and> list_all (\<lambda>(k, v). ok k \<and> xml_text_ok v) as \<and>
     opt_text_ok x \<and> opt_text_ok l \<and> list_all (xml_normal ok) cs"

text \<open>The element and attribute names the source writes into documents it parsed.\<close>

definition code_names :: "string list" where
  "code_names = [''detail'', ''_fedprov'', ''_fedhops'', ''server_id'', ''chain'',
     ''max_hops'', ''current_hops'']"

definition xml_lib_ok :: "xml_lib \<Rightarrow> bool" where
  "xml_lib_ok L \<longleftrightarrow>
     (\<forall>e. xml_normal (xml_name_ok L) e \<and> e_tail e = None \<longrightarrow>
          xml_fromstring L (xml_tostring L e) = Inr e) \<and>
     (\<forall>s e. xml_fromstring L s = Inr e \<longrightarrow> xml_normal (xml_name_ok L) e \<and> e_tail e = None) \<and>
     xml_fromstring L [] = Inl XMLSyntaxError \<and>
     list_all (xml_name_ok L) code_names"

lemma xml_lib_okD:
  assumes "xml_lib_ok L"
  shows "xml_normal (xml_name_ok L) e \<Longrightarrow> e_tail e = None \<Longrightarrow>
      xml_fromstring L (xml_tostring L e) = Inr e"
    and "xml_fromstring L s = Inr e \<Longrightarrow> xml_normal (xml_name_ok L) e"
    and "xml_fromstring L s = Inr e \<Longrightarrow> e_tail e = None"
    and "n \<in> set code_names \<Longrightarrow> xml_name_ok L n"
    and "xml_fromstring L [] = Inl XMLSyntaxError"
  using assms unfolding xml_lib_ok_def list_all_iff by blast+

lemma xml_normal_iff:
  "xml_normal ok e \<longleftrightarrow>
     ok (e_tag e) \<and> dict_ok (e_attrs e) \<and> list_all (\<lambda>(k, v). ok k \<and> xml_text_ok v) (e_attrs e) \<and>
     opt_text_ok (e_text e) \<and> opt_text_ok (e_tail e) \<and> list_all (xml_normal ok) (e_kids e)"
  by (cases e) simp

text \<open>\<open>e.set(k, v)\<close> in lxml refuses a value with a character XML cannot carry.\<close>

definition xml_set :: "string \<Rightarrow> string \<Rightarrow> elem \<Rightarrow> py_error + elem" where
  "xml_set k v e = (if xml_text_ok v then Inr (elem_set k v e) else Inl ValueError)"

lemma xml_set_Inr: "xml_set k v e = Inr d \<longleftrightarrow> xml_text_ok v \<and> d = elem_set k v e"
  by (auto simp: xml_set_def)

lemma list_all_dset:
  "list_all P d \<Longrightarrow> P (k, v) \<Longrightarrow> list_all P (dset k v d)"
  by (induction d) auto

lemma xml_normal_elem_set:
  "xml_normal ok e \<Longrightarrow> ok k \<Longrightarrow> xml_text_ok v \<Longrightarrow> xml_normal ok (elem_set k v e)"
  by (auto simp: xml_normal_iff [of ok e] xml_normal_iff [of ok "elem_set k v e"]
      intro: list_all_dset)

lemma xml_normal_append_kid:
  "xml_normal ok e \<Longrightarrow> xml_normal ok c \<Longrightarrow> xml_normal ok (append_kid c e)"
  by (auto simp: xml_normal_iff [of ok e] xml_normal_iff [of ok "append_kid c e"])

lemma xml_normal_new_elem: "ok t \<Longrightarrow> xml_normal ok (new_elem t)"
  by (simp add: new_elem_def opt_text_ok_def)

lemma xml_normal_with_kids:
  "xml_normal ok e \<Longrightarrow> list_all (xml_normal ok) cs \<Longrightarrow> xml_normal ok (with_kids cs e)"
  by (auto simp: xml_normal_iff [of ok e] xml_normal_iff [of ok "with_kids cs e"])

lemma xml_normal_kids: "xml_normal ok e \<Longrightarrow> c \<in> set (e_kids e) \<Longrightarrow> xml_normal ok c"
  by (auto simp: xml_normal_iff [of ok e] list_all_iff)

lemma xml_normal_update_first:
  assumes "xml_normal ok e" and "\<And>c. xml_normal ok c \<Longrightarrow> xml_normal ok (f c)"
  shows "xml_normal ok (update_first t f e)"
proof -
  have "\<forall>c \<in> set (e_kids e). xml_normal ok c"
    using assms(1) by (auto dest: xml_normal_kids)
  then have "list_all (xml_normal ok) (map_first (\<lambda>c. e_tag c = t) f (e_kids e))"
    using assms(2) by (induction "e_kids e" arbitrary: e) (auto simp: list_all_iff dest!: set_map_first [THEN subsetD])
  with assms(1) show ?thesis by (simp add: update_first_def xml_normal_with_kids)
qed

lemma xml_normal_remove_kids: "xml_normal ok e \<Longrightarrow> xml_normal ok (remove_kids ts e)"
  by (auto simp: remove_kids_def list_all_iff dest: xml_normal_kids intro!: xml_normal_with_kids)

lemmas xml_normal_intros =
  xml_normal_elem_set xml_normal_append_kid xml_normal_new_elem
  xml_normal_update_first xml_normal_remove_kids

section \<open>A reference implementation of the parameter\<close>

text \<open>
  A string is written with a dot before every character and a semicolon at its end, an
  optional one after a plus or minus sign, an element between angle brackets. The parser
  takes fuel; the length of the text is enough.
\<close>

fun ser_str :: "string \<Rightarrow> string" where
  "ser_str [] = '';''"
| "ser_str (c # s) = CHR ''.'' # c # ser_str s"

fun ser_opt :: "string option \<Rightarrow> string" where
  "ser_opt None = ''-''"
| "ser_opt (Some s) = CHR ''+'' # ser_str s"

fun ser_attrs :: "(string, string) dict \<Rightarrow> string" where
  "ser_attrs [] = '';''"
| "ser_attrs ((k, v) # as) = CHR ''='' # ser_str k @ ser_str v @ ser_attrs as"

fun ser_elem :: "elem \<Rightarrow> string" where
  "ser_elem (Elem t as x cs l) =
     CHR ''<'' # ser_str t @ ser_attrs as @ ser_opt x @ concat (map ser_elem cs) @
     CHR ''>'' # ser_opt l"

fun par_str :: "string \<Rightarrow> (string \<times> string) option" where
  "par_str (a # b # s) =
     (if a = CHR ''.'' then map_option (\<lambda>(t, r). (b # t, r)) (par_str s)
      else if a = CHR '';'' then Some ([], b # s) else None)"
| "par_str [a] = (if a = CHR '';'' then Some ([], []) else None)"
| "par_str [] = None"

fun par_opt :: "string \<Rightarrow> (string option \<times> string) option" where
  "par_opt [] = None"
| "par_opt (a # s) =
     (if a = CHR ''-'' then Some (None, s)
      else if a = CHR ''+'' then map_option (\<lambda>(t, r). (Some t, r)) (par_str s) else None)"

fun par_attrs :: "nat \<Rightarrow> string \<Rightarrow> ((string, string) dict \<times> string) option" where
  "par_attrs (Suc n) (a # s) =
     (if a = CHR '';'' then Some ([], s)
      else if a = CHR ''='' then
        (case par_str s of None \<Rightarrow> None
         | Some (k, s1) \<Rightarrow> (case par_str s1 of None \<Rightarrow> None
            | Some (v, s2) \<Rightarrow> map_option (\<lambda>(as, r). ((k, v) # as, r)) (par_attrs n s2)))
      else None)"
| "par_attrs _ _ = None"

fun par_elem :: "nat \<Rightarrow> string \<Rightarrow> (elem \<times> string) option"
  and par_kids :: "nat \<Rightarrow> string \<Rightarrow> (elem list \<times> string) option" where
  "par_elem (Suc n) (a # s) =
     (if a \<noteq> CHR ''<'' then None else
      (case par_str s of None \<Rightarrow> None
       | Some (t, s1) \<Rightarrow> (case par_attrs n s1 of None \<Rightarrow> None
          | Some (as, s2) \<Rightarrow> (case par_opt s2 of None \<Rightarrow> None
             | Some (x, s3) \<Rightarrow> (case par_kids n s3 of None \<Rightarrow> None
                | Some (cs, s4) \<Rightarrow> map_option (\<lambda>(l, r). (Elem t as x cs l, r)) (par_opt s4))))))"
| "par_elem _ _ = None"
| "par_kids (Suc n) (a # s) =
     (if a = CHR ''>'' then Some ([], s)
      else (case par_elem n (a # s) of None \<Rightarrow> None
            | Some (c, s1) \<Rightarrow> map_option (\<lambda>(cs, r). (c # cs, r)) (par_kids n s1)))"
| "par_kids _ _ = None"

definition ref_name_ok :: "string \<Rightarrow> bool" where
  "ref_name_ok s = (s \<noteq> [])"

definition ref_fromstring :: "string \<Rightarrow> py_error + elem" where
  "ref_fromstring s =
     (case par_elem (length s) s of
        Some (e, r) \<Rightarrow>
          (if r = [] \<and> xml_normal ref_name_ok e \<and> e_tail e = None then Inr e else Inl XMLSyntaxError)
      | None \<Rightarrow> Inl XMLSyntaxError)"

definition ref_xml :: xml_lib where
  "ref_xml = \<lparr> xml_fromstring = ref_fromstring, xml_tostring = ser_elem, xml_name_ok = ref_name_ok \<rparr>"

lemma par_ser_str [simp]: "par_str (ser_str s @ r) = Some (s, r)"
  by (induction s) (cases r; auto)+

lemma par_ser_opt [simp]: "par_opt (ser_opt x @ r) = Some (x, r)"
  by (cases x) auto

lemma par_ser_attrs:
  "length as < n \<Longrightarrow> par_attrs n (ser_attrs as @ r) = Some (as, r)"
proof (induction as arbitrary: n)
  case Nil
  then show ?case by (cases n) auto
next
  case (Cons p as)
  then obtain m where "n = Suc m" "length as < m" by (cases n) auto
  with Cons.IH [of m] show ?case by (cases p) simp
qed

text \<open>Fuel that is enough: one unit per element, per attribute and per end of a list.\<close>

fun elem_fuel :: "elem \<Rightarrow> nat" where
  "elem_fuel (Elem t as x cs l) = Suc (Suc (length as) + sum_list (map (\<lambda>c. Suc (elem_fuel c)) cs))"

lemma par_kids_ser:
  assumes "\<And>c n r. c \<in> set cs \<Longrightarrow> elem_fuel c \<le> n \<Longrightarrow> par_elem n (ser_elem c @ r) = Some (c, r)"
    and "sum_list (map (\<lambda>c. Suc (elem_fuel c)) cs) < n"
  shows "par_kids n (concat (map ser_elem cs) @ CHR ''>'' # r) = Some (cs, r)"
  using assms
proof (induction cs arbitrary: n)
  case Nil
  then show ?case by (cases n) auto
next
  case (Cons c cs)
  then obtain m where n: "n = Suc m" by (cases n) auto
  obtain a s where cs: "ser_elem c = a # s" "a \<noteq> CHR ''>''" by (cases c) auto
  have "par_elem m (ser_elem c @ concat (map ser_elem cs) @ CHR ''>'' # r) =
      Some (c, concat (map ser_elem cs) @ CHR ''>'' # r)"
    using Cons.prems n by (intro Cons.prems(1)) auto
  moreover have "par_kids m (concat (map ser_elem cs) @ CHR ''>'' # r) = Some (cs, r)"
    using Cons.prems n by (intro Cons.IH) auto
  ultimately show ?case by (simp add: n cs)
qed

lemma par_ser_elem: "elem_fuel e \<le> n \<Longrightarrow> par_elem n (ser_elem e @ r) = Some (e, r)"
proof (induction e arbitrary: n r)
  case (Elem t as x cs l)
  then obtain m where n: "n = Suc m" by (cases n) auto
  have "par_kids m (concat (map ser_elem cs) @ CHR ''>'' # ser_opt l @ r) = Some (cs, ser_opt l @ r)"
    using Elem n by (intro par_kids_ser) auto
  moreover have "par_attrs m (ser_attrs as @ s) = Some (as, s)" for s
    using Elem.prems n by (intro par_ser_attrs) auto
  ultimately show ?case by (simp add: n)
qed

lemma length_ser_attrs: "Suc (length as) \<le> length (ser_attrs as)"
  by (induction as) auto

lemma sum_fuel_le:
  "(\<And>c. c \<in> set cs \<Longrightarrow> Suc (elem_fuel c) \<le> length (ser_elem c)) \<Longrightarrow>
   sum_list (map (\<lambda>c. Suc (elem_fuel c)) cs) \<le> length (concat (map ser_elem cs))"
proof (induction cs)
  case Nil
  then show ?case by simp
next
  case (Cons c cs)
  have "Suc (elem_fuel c) \<le> length (ser_elem c)" by (rule Cons.prems) simp
  moreover have "sum_list (map (\<lambda>c. Suc (elem_fuel c)) cs) \<le> length (concat (map ser_elem cs))"
    by (rule Cons.IH) (rule Cons.prems, simp)
  ultimately show ?case by simp
qed

lemma elem_fuel_le: "Suc (elem_fuel e) \<le> length (ser_elem e)"
proof (induction e)
  case (Elem t as x cs l)
  have "sum_list (map (\<lambda>c. Suc (elem_fuel c)) cs) \<le> length (concat (map ser_elem cs))"
    by (rule sum_fuel_le) (rule Elem.IH)
  moreover have "Suc 0 \<le> length (ser_str t)" by (cases t) auto
  moreover have "Suc 0 \<le> length (ser_opt x)" by (cases x) auto
  moreover have "Suc 0 \<le> length (ser_opt l)" by (cases l) auto
  ultimately show ?case using length_ser_attrs [of as] by simp
qed

lemma ref_roundtrip:
  assumes "xml_normal ref_name_ok e" "e_tail e = None"
  shows "ref_fromstring (ser_elem e) = Inr e"
proof -
  have "par_elem (length (ser_elem e)) (ser_elem e @ []) = Some (e, [])"
    by (rule par_ser_elem) (rule Suc_leD [OF elem_fuel_le])
  then show ?thesis using assms by (simp add: ref_fromstring_def)
qed

lemma ref_fromstring_normal:
  "ref_fromstring s = Inr e \<Longrightarrow> xml_normal ref_name_ok e \<and> e_tail e = None"
  by (auto simp: ref_fromstring_def split: option.splits prod.splits if_splits)

lemma ref_xml_ok: "xml_lib_ok ref_xml"
  unfolding xml_lib_ok_def
proof (intro conjI allI impI)
  fix e
  assume "xml_normal (xml_name_ok ref_xml) e \<and> e_tail e = None"
  then show "xml_fromstring ref_xml (xml_tostring ref_xml e) = Inr e"
    by (auto simp: ref_xml_def intro: ref_roundtrip)
next
  fix s e
  assume "xml_fromstring ref_xml s = Inr e"
  then show "xml_normal (xml_name_ok ref_xml) e" and "e_tail e = None"
    using ref_fromstring_normal [of s e] by (auto simp: ref_xml_def)
next
  show "xml_fromstring ref_xml [] = Inl XMLSyntaxError"
    by (simp add: ref_xml_def ref_fromstring_def)
  show "list_all (xml_name_ok ref_xml) code_names"
    by (simp add: ref_xml_def code_names_def ref_name_ok_def)
qed

end
