(* ===== verification/Cot_Models.thy ===== *)
theory Cot_Models
  imports Wire Xml_Tree
begin

text \<open>
  models/: the CoT event, its point and the three kinds of detail (a TAK user, a chat
  message, anything else), read from and written to XML elements. \<open>isoparse\<close> of dateutil,
  composed with \<open>replace(tzinfo=None)\<close>, is a parameter. The attributes that other modules
  hang on an event (\<open>fed_meta\<close>, \<open>local_acl_groups\<close>, \<open>inbound_local_groups\<close>) are fields
  of the event; a set among them is the list of its elements in iteration order.
\<close>

section \<open>Environment\<close>

record py_env =
  env_xml :: xml_lib
  env_isoparse :: "string \<Rightarrow> py_error + datetime"
  env_it :: "string set \<Rightarrow> string list"

text \<open>\<open>float(e.get(k))\<close> and \<open>isoparse(e.get(k)).replace(tzinfo=None)\<close>\<close>

definition float_attr :: "elem \<Rightarrow> string \<Rightarrow> py_error + pyfloat" where
  "float_attr e k =
     (case elem_get e k of
        None \<Rightarrow> Inl TypeError
      | Some s \<Rightarrow> (case py_float s of None \<Rightarrow> Inl ValueError | Some x \<Rightarrow> Inr x))"

definition time_attr :: "py_env \<Rightarrow> elem \<Rightarrow> string \<Rightarrow> py_error + datetime" where
  "time_attr E e k = (case elem_get e k of None \<Rightarrow> Inl TypeError | Some s \<Rightarrow> env_isoparse E s)"

text \<open>Attributes set in order; \<open>None\<close> is no attribute value.\<close>

definition xml_set_opt :: "string \<Rightarrow> string option \<Rightarrow> elem \<Rightarrow> py_error + elem" where
  "xml_set_opt k v e = (case v of None \<Rightarrow> Inl TypeError | Some s \<Rightarrow> xml_set k s e)"

fun xml_set_all :: "(string \<times> string option) list \<Rightarrow> elem \<Rightarrow> py_error + elem" where
  "xml_set_all [] e = Inr e"
| "xml_set_all ((k, v) # kvs) e = rbind (xml_set_opt k v e) (xml_set_all kvs)"

section \<open>Point\<close>

record point =
  pt_lat :: pyfloat
  pt_lon :: pyfloat
  pt_hae :: pyfloat
  pt_ce :: pyfloat
  pt_le :: pyfloat

definition default_point :: point where
  "default_point = \<lparr> pt_lat = Fin 0, pt_lon = Fin 0, pt_hae = Fin 0, pt_ce = Fin 9999999,
     pt_le = Fin 9999999 \<rparr>"

definition point_from_elm :: "elem \<Rightarrow> py_error + point" where
  "point_from_elm e =
     rbind (float_attr e ''lat'') (\<lambda>lat.
     rbind (float_attr e ''lon'') (\<lambda>lon.
     rbind (float_attr e ''hae'') (\<lambda>hae.
     rbind (float_attr e ''ce'') (\<lambda>ce.
     rbind (float_attr e ''le'') (\<lambda>le.
       Inr \<lparr> pt_lat = lat, pt_lon = lon, pt_hae = hae, pt_ce = ce, pt_le = le \<rparr>)))))"

definition point_as_element :: "point \<Rightarrow> elem" where
  "point_as_element p =
     elem_set ''le'' (fmt_fixed 1 (pt_le p))
       (elem_set ''ce'' (fmt_fixed 1 (pt_ce p))
         (elem_set ''hae'' (fmt_fixed 1 (pt_hae p))
           (elem_set ''lon'' (fmt_fixed 6 (pt_lon p))
             (elem_set ''lat'' (fmt_fixed 6 (pt_lat p)) (new_elem ''point'')))))"

section \<open>TAK user\<close>

record tak_device =
  td_os :: "string option"
  td_version :: "string option"
  td_device :: "string option"
  td_platform :: "string option"

definition new_tak_device :: tak_device where
  "new_tak_device = \<lparr> td_os = None, td_version = None, td_device = None, td_platform = None \<rparr>"

definition device_from_elm :: "elem \<Rightarrow> py_error + tak_device" where
  "device_from_elm e =
     (if e_tag e \<noteq> ''takv'' then Inl UnmarshalError
      else Inr \<lparr> td_os = elem_get e ''os'', td_version = elem_get e ''version'',
        td_device = elem_get e ''device'', td_platform = elem_get e ''platform'' \<rparr>)"

text \<open>\<open>x or ''\<close>\<close>

definition or_empty :: "string option \<Rightarrow> string" where
  "or_empty x = (case x of None \<Rightarrow> [] | Some s \<Rightarrow> s)"

definition device_as_element :: "tak_device \<Rightarrow> py_error + elem" where
  "device_as_element d =
     xml_set_all [(''os'', Some (or_empty (td_os d))), (''device'', Some (or_empty (td_device d))),
       (''version'', Some (or_empty (td_version d))), (''platform'', Some (or_empty (td_platform d)))]
       (new_elem ''takv'')"

record tak_user =
  tu_elm :: "elem option"
  tu_uid :: "string option"
  tu_callsign :: "string option"
  tu_marker :: "string option"
  tu_group :: "string option"
  tu_role :: "string option"
  tu_phone :: "string option"
  tu_xmpp :: "string option"
  tu_endpoint :: "string option"
  tu_course :: "pyfloat option"
  tu_speed :: "pyfloat option"
  tu_battery :: "string option"
  tu_device :: tak_device

definition new_tak_user :: "elem option \<Rightarrow> tak_user" where
  "new_tak_user elm = \<lparr> tu_elm = elm, tu_uid = None, tu_callsign = None, tu_marker = None,
     tu_group = None, tu_role = None, tu_phone = None, tu_xmpp = None, tu_endpoint = None,
     tu_course = None, tu_speed = None, tu_battery = None, tu_device = new_tak_device \<rparr>"

definition tak_user_is_type :: "string set \<Rightarrow> bool" where
  "tak_user_is_type tags = ({''takv'', ''contact'', ''__group''} \<subseteq> tags)"

definition tak_user_child :: "tak_user \<Rightarrow> elem \<Rightarrow> py_error + tak_user" where
  "tak_user_child u c =
     (if e_tag c = ''takv'' then rbind (device_from_elm c) (\<lambda>d. Inr (u\<lparr> tu_device := d \<rparr>))
      else if e_tag c = ''contact'' then
        Inr (u\<lparr> tu_callsign := elem_get c ''callsign'', tu_phone := elem_get c ''phone'',
          tu_endpoint := elem_get c ''endpoint'' \<rparr>)
      else if e_tag c = ''__group'' then
        Inr (u\<lparr> tu_group := Some (or_empty (elem_get c ''name'')), tu_role := elem_get c ''role'' \<rparr>)
      else if e_tag c = ''status'' then Inr (u\<lparr> tu_battery := elem_get c ''battery'' \<rparr>)
      else if e_tag c = ''track'' then
        rbind (float_attr c ''course'') (\<lambda>course.
        rbind (float_attr c ''speed'') (\<lambda>speed.
          Inr (u\<lparr> tu_course := Some course, tu_speed := Some speed \<rparr>)))
      else Inr u)"

fun tak_user_children :: "tak_user \<Rightarrow> elem list \<Rightarrow> py_error + tak_user" where
  "tak_user_children u [] = Inr u"
| "tak_user_children u (c # cs) = rbind (tak_user_child u c) (\<lambda>v. tak_user_children v cs)"

definition tak_user_from_elm :: "elem \<Rightarrow> string \<Rightarrow> py_error + tak_user" where
  "tak_user_from_elm e uid =
     tak_user_children ((new_tak_user (Some e))\<lparr> tu_uid := Some uid \<rparr>) (e_kids e)"

definition float_truthy :: "pyfloat option \<Rightarrow> bool" where
  "float_truthy x = (x \<noteq> None \<and> x \<noteq> Some (Fin 0))"

definition str_truthy :: "string option \<Rightarrow> bool" where
  "str_truthy x = (x \<noteq> None \<and> x \<noteq> Some [])"

text \<open>Without an element, one is built from the fields, child by child.\<close>

definition tak_user_build :: "tak_user \<Rightarrow> py_error + elem" where
  "tak_user_build u =
     (if None \<in> {tu_callsign u, tu_group u, tu_role u, tu_endpoint u} then Inl ValueError
      else
        rbind (device_as_element (tu_device u)) (\<lambda>takv.
        rbind (if str_truthy (tu_battery u)
               then rbind (xml_set_all [(''battery'', tu_battery u)] (new_elem ''status'')) (\<lambda>s. Inr [s])
               else Inr []) (\<lambda>status.
        rbind (xml_set_all [(''Droid'', tu_callsign u)] (new_elem ''uid'')) (\<lambda>uid.
        rbind (xml_set_all ([(''callsign'', tu_callsign u), (''endpoint'', tu_endpoint u)] @
                 (if str_truthy (tu_phone u) then [(''phone'', tu_phone u)] else []) @
                 (if str_truthy (tu_xmpp u) then [(''xmppUsername'', tu_xmpp u)] else []))
               (new_elem ''contact'')) (\<lambda>contact.
        rbind (xml_set_all [(''role'', tu_role u), (''name'', Some (or_empty (tu_group u)))]
               (new_elem ''__group'')) (\<lambda>group.
          Inr (with_kids
            ([takv] @ status @ [uid, contact, group] @
             (if float_truthy (tu_course u) \<and> float_truthy (tu_speed u)
              then [elem_set ''speed'' (fmt_fixed 1 (the (tu_speed u)))
                     (elem_set ''course'' (fmt_fixed 1 (the (tu_course u))) (new_elem ''track''))]
              else []))
            (new_elem ''detail''))))))))"

section \<open>Chat message\<close>

definition ALL_CHAT_ROOMS :: string where
  "ALL_CHAT_ROOMS = ''All Chat Rooms''"

record geochat =
  gc_elm :: "elem option"
  gc_chatroom :: "string option"
  gc_chat_parent :: "string option"
  gc_group_owner :: bool
  gc_src_uid :: "string option"
  gc_src_cs :: "string option"
  gc_src_marker :: "string option"
  gc_message :: "string option"
  gc_message_ts :: "datetime option"
  gc_dst_uid :: "string option"
  gc_dst_team :: "string option"

definition geochat_broadcast :: "geochat \<Rightarrow> bool" where
  "geochat_broadcast g = (gc_chatroom g = Some ALL_CHAT_ROOMS)"

definition geochat_is_type :: "string set \<Rightarrow> bool" where
  "geochat_is_type tags = ({''__chat'', ''remarks'', ''link''} \<subseteq> tags)"

definition geochat_from_elm :: "py_env \<Rightarrow> elem \<Rightarrow> py_error + geochat" where
  "geochat_from_elm E e =
     (if e_tag e \<noteq> ''detail'' then Inl UnmarshalError
      else
        (let chat = elem_find e ''__chat'';
             chatgrp = (case chat of None \<Rightarrow> None | Some c \<Rightarrow> elem_find c ''chatgrp'');
             remarks = elem_find e ''remarks''; link = elem_find e ''link'' in
         (case (chat, chatgrp, remarks, link) of
            (Some chat, Some _, Some remarks, Some link) \<Rightarrow>
              (let parent = elem_get chat ''parent''; room = elem_get chat ''chatroom'';
                   team = (parent = Some ''TeamGroups'') in
               rbind (time_attr E remarks ''time'') (\<lambda>ts.
                 Inr \<lparr> gc_elm = Some e, gc_chatroom = room, gc_chat_parent = parent,
                   gc_group_owner = (elem_get chat ''groupOwner'' = Some ''true''),
                   gc_src_uid = elem_get link ''uid'', gc_src_cs = elem_get chat ''senderCallsign'',
                   gc_src_marker = elem_get link ''type'', gc_message = e_text remarks,
                   gc_message_ts = Some ts,
                   gc_dst_uid = (if \<not> team \<and> room \<noteq> Some ALL_CHAT_ROOMS
                                 then elem_get chat ''id'' else None),
                   gc_dst_team = (if team then Some (or_empty room) else None) \<rparr>))
          | _ \<Rightarrow> Inl UnmarshalError)))"

definition py_repr_opt :: "string option \<Rightarrow> string" where
  "py_repr_opt x = (case x of None \<Rightarrow> ''None'' | Some s \<Rightarrow> s)"

definition geochat_build :: "geochat \<Rightarrow> py_error + elem" where
  "geochat_build g =
     (let dst = (if geochat_broadcast g then Some ALL_CHAT_ROOMS
                 else if str_truthy (gc_dst_team g) then gc_dst_team g else gc_dst_uid g) in
      rbind (xml_set_all [(''parent'', gc_chat_parent g),
          (''groupOwner'', Some (if gc_group_owner g then ''true'' else ''false'')),
          (''chatroom'', gc_chatroom g), (''id'', dst), (''senderCallsign'', gc_src_cs g)]
          (new_elem ''__chat'')) (\<lambda>chat.
      rbind (xml_set_all [(''uid0'', gc_src_uid g), (''uid1'', dst), (''id'', dst)]
          (new_elem ''chatgrp'')) (\<lambda>grp.
      rbind (xml_set_all [(''uid'', gc_src_uid g), (''type'', gc_src_marker g),
          (''relation'', Some ''p-p'')] (new_elem ''link'')) (\<lambda>link.
        (case gc_message_ts g of
           None \<Rightarrow> Inl AttributeError
         | Some ts \<Rightarrow>
             rbind (xml_set_all [(''source'', Some (''BAO.F.ATAK.'' @ py_repr_opt (gc_src_uid g))),
                 (''to'', dst), (''time'', Some (isoformat_ms_z ts))] (new_elem ''remarks'')) (\<lambda>remarks.
               if pred_option xml_text_ok (gc_message g)
               then Inr (with_kids [append_kid grp chat, link, set_text (gc_message g) remarks]
                      (new_elem ''detail''))
               else Inl ValueError))))))"

section \<open>Detail\<close>

datatype detail = Generic "elem option" | Tak_User tak_user | Geo_Chat geochat

definition detail_elm :: "detail \<Rightarrow> elem option" where
  "detail_elm d = (case d of Generic e \<Rightarrow> e | Tak_User u \<Rightarrow> tu_elm u | Geo_Chat g \<Rightarrow> gc_elm g)"

definition detail_as_element :: "detail \<Rightarrow> py_error + elem option" where
  "detail_as_element d =
     (case detail_elm d of
        Some e \<Rightarrow> Inr (Some e)
      | None \<Rightarrow>
          (case d of
             Generic _ \<Rightarrow> Inr None
           | Tak_User u \<Rightarrow> rbind (tak_user_build u) (\<lambda>e. Inr (Some e))
           | Geo_Chat g \<Rightarrow> rbind (geochat_build g) (\<lambda>e. Inr (Some e))))"

definition marti_cs :: "detail \<Rightarrow> string option list" where
  "marti_cs d =
     (case detail_elm d of
        None \<Rightarrow> []
      | Some e \<Rightarrow>
          (case elem_find e ''marti'' of
             None \<Rightarrow> []
           | Some marti \<Rightarrow> map (\<lambda>dest. elem_get dest ''callsign'') (elem_findall marti ''dest'')))"

definition has_marti :: "detail \<Rightarrow> bool" where
  "has_marti d = (marti_cs d \<noteq> [])"

definition child_tags :: "elem \<Rightarrow> string set" where
  "child_tags e = set (map e_tag (e_kids e))"

text \<open>The kind of detail is decided by the tags of the children.\<close>

definition detail_from_elm :: "py_env \<Rightarrow> elem \<Rightarrow> string \<Rightarrow> py_error + detail" where
  "detail_from_elm E e uid =
     (if tak_user_is_type (child_tags e) then rbind (tak_user_from_elm e uid) (\<lambda>u. Inr (Tak_User u))
      else if geochat_is_type (child_tags e) then rbind (geochat_from_elm E e) (\<lambda>g. Inr (Geo_Chat g))
      else if e_tag e \<noteq> ''detail'' then Inl UnmarshalError
      else Inr (Generic (Some e)))"

section \<open>Event\<close>

record event =
  ev_version :: "string option"
  ev_uid :: "string option"
  ev_etype :: "string option"
  ev_how :: "string option"
  ev_time :: "datetime option"
  ev_start :: "datetime option"
  ev_stale :: "datetime option"
  ev_point :: point
  ev_detail :: "detail option"
  ev_fed_meta :: "fed_meta option"
  ev_local_acl_groups :: "string list option"
  ev_inbound_local_groups :: "string list option"

definition new_event ::
    "string option \<Rightarrow> string option \<Rightarrow> string option \<Rightarrow> string option \<Rightarrow>
     datetime \<Rightarrow> datetime \<Rightarrow> datetime \<Rightarrow> event" where
  "new_event version uid etype how time start stale =
     \<lparr> ev_version = version, ev_uid = uid, ev_etype = etype, ev_how = how, ev_time = Some time,
       ev_start = Some start, ev_stale = Some stale, ev_point = default_point, ev_detail = None,
       ev_fed_meta = None, ev_local_acl_groups = None, ev_inbound_local_groups = None \<rparr>"

text \<open>The errors that \<open>from_elm\<close> turns into \<open>UnmarshalError\<close>.\<close>

definition unmarshal :: "py_error set \<Rightarrow> py_error + 'a \<Rightarrow> py_error + 'a" where
  "unmarshal caught m = (case m of Inl e \<Rightarrow> Inl (if e \<in> caught then UnmarshalError else e) | Inr x \<Rightarrow> Inr x)"

fun event_children :: "py_env \<Rightarrow> string \<Rightarrow> event \<Rightarrow> elem list \<Rightarrow> py_error + event" where
  "event_children E uid ev [] = Inr ev"
| "event_children E uid ev (c # cs) =
     (if e_tag c = ''point'' then
        rbind (point_from_elm c) (\<lambda>p. event_children E uid (ev\<lparr> ev_point := p \<rparr>) cs)
      else if e_tag c = ''detail'' then
        rbind (detail_from_elm E c uid) (\<lambda>d. event_children E uid (ev\<lparr> ev_detail := Some d \<rparr>) cs)
      else event_children E uid ev cs)"

definition event_from_elm :: "py_env \<Rightarrow> elem \<Rightarrow> py_error + event" where
  "event_from_elm E e =
     (if e_tag e \<noteq> ''event'' then Inl UnmarshalError
      else
        rbind (unmarshal {TypeError, ValueError}
          (rbind (time_attr E e ''time'') (\<lambda>time.
           rbind (time_attr E e ''start'') (\<lambda>start.
           rbind (time_attr E e ''stale'') (\<lambda>stale. Inr (time, start, stale))))))
        (\<lambda>(time, start, stale).
          case elem_get e ''uid'' of
            None \<Rightarrow> Inl UnmarshalError
          | Some uid \<Rightarrow>
              if elem_get e ''type'' = None then Inl UnmarshalError
              else unmarshal {TypeError, ValueError, AttributeError}
                (event_children E uid
                  (new_event (elem_get e ''version'') (Some uid) (elem_get e ''type'')
                    (elem_get e ''how'') time start stale)
                  (e_kids e))))"

definition time_text :: "datetime option \<Rightarrow> py_error + string" where
  "time_text t = (case t of None \<Rightarrow> Inl AttributeError | Some t \<Rightarrow> Inr (isoformat_ms_z t))"

definition event_as_element :: "event \<Rightarrow> py_error + elem" where
  "event_as_element ev =
     rbind (xml_set_all [(''version'', ev_version ev), (''uid'', ev_uid ev), (''type'', ev_etype ev),
         (''how'', ev_how ev)] (new_elem ''event'')) (\<lambda>e0.
     rbind (time_text (ev_time ev)) (\<lambda>time.
     rbind (time_text (ev_start ev)) (\<lambda>start.
     rbind (time_text (ev_stale ev)) (\<lambda>stale.
       let e1 = append_kid (point_as_element (ev_point ev))
                  (elem_set ''stale'' stale (elem_set ''start'' start (elem_set ''time'' time e0))) in
       (case ev_detail ev of
          None \<Rightarrow> Inr e1
        | Some d \<Rightarrow>
            rbind (detail_as_element d) (\<lambda>x.
              case x of None \<Rightarrow> Inl TypeError | Some c \<Rightarrow> Inr (append_kid c e1)))))))"

text \<open>\<open>persist_ttl\<close> at the time \<open>now\<close>\<close>

definition persist_ttl :: "datetime \<Rightarrow> event \<Rightarrow> py_error + int" where
  "persist_ttl now ev =
     (case ev_stale ev of None \<Rightarrow> Inl TypeError | Some s \<Rightarrow> Inr (round_even (total_seconds (s - now))))"

section \<open>Lemmas\<close>

lemma xml_set_all_Inr_get:
  "xml_set_all kvs e = Inr e' \<Longrightarrow> distinct (map fst kvs) \<Longrightarrow>
   elem_get e' k = (case map_of kvs k of Some v \<Rightarrow> v | None \<Rightarrow> elem_get e k)"
proof (induction kvs arbitrary: e)
  case Nil
  then show ?case by simp
next
  case (Cons p kvs)
  obtain k' v where p: "p = (k', v)" by (cases p)
  with Cons.prems obtain w where v: "v = Some w"
    and e: "xml_set_all kvs (elem_set k' w e) = Inr e'"
    by (auto simp: xml_set_opt_def rbind_Inr_iff xml_set_Inr split: option.splits)
  from Cons.prems p have "map_of kvs k' = None" "distinct (map fst kvs)"
    by (auto simp: map_of_eq_None_iff image_iff)
  with Cons.IH [OF e] show ?case
    by (auto simp: p v elem_get_def split: option.splits)
qed

lemma xml_set_all_sel:
  "xml_set_all kvs e = Inr e' \<Longrightarrow> e_tag e' = e_tag e \<and> e_kids e' = e_kids e"
  by (induction kvs arbitrary: e)
    (fastforce simp: xml_set_opt_def rbind_Inr_iff xml_set_Inr split: option.splits)+

lemma xml_set_all_values: "xml_set_all kvs e = Inr e' \<Longrightarrow> (k, v) \<in> set kvs \<Longrightarrow> v \<noteq> None"
  by (induction kvs arbitrary: e) (auto simp: xml_set_opt_def rbind_Inr_iff split: option.splits)

text \<open>The accuracy that the text of a point keeps.\<close>

definition coarse_point :: "point \<Rightarrow> point" where
  "coarse_point p = \<lparr> pt_lat = coarse 6 (pt_lat p), pt_lon = coarse 6 (pt_lon p),
     pt_hae = coarse 1 (pt_hae p), pt_ce = coarse 1 (pt_ce p), pt_le = coarse 1 (pt_le p) \<rparr>"

lemma elem_get_elem_set [simp]:
  "elem_get (elem_set k v e) j = (if j = k then Some v else elem_get e j)"
  by (simp add: elem_get_def)

lemma elem_get_append_kid [simp]: "elem_get (append_kid c e) j = elem_get e j"
  by (simp add: elem_get_def)

lemma elem_get_new_elem [simp]: "elem_get (new_elem t) j = None"
  by (simp add: elem_get_def)

lemma point_roundtrip: "point_from_elm (point_as_element p) = Inr (coarse_point p)"
  by (simp add: point_from_elm_def point_as_element_def float_attr_def py_float_fixed coarse_point_def
      del: fmt_fixed.simps coarse.simps)

lemma point_as_element_tag [simp]: "e_tag (point_as_element p) = ''point''"
  by (simp add: point_as_element_def)

lemma tak_user_child_elm: "tak_user_child u c = Inr v \<Longrightarrow> tu_elm v = tu_elm u"
  by (auto simp: tak_user_child_def rbind_Inr_iff split: if_splits)

lemma tak_user_children_elm: "tak_user_children u cs = Inr v \<Longrightarrow> tu_elm v = tu_elm u"
  by (induction cs arbitrary: u) (auto simp: rbind_Inr_iff dest: tak_user_child_elm)

lemma geochat_from_elm_elm: "geochat_from_elm E e = Inr g \<Longrightarrow> gc_elm g = Some e"
  by (auto simp: geochat_from_elm_def rbind_Inr_iff Let_def split: if_splits option.splits)

text \<open>A detail that was read keeps the element it was read from.\<close>

lemma detail_from_elm_elm: "detail_from_elm E e uid = Inr d \<Longrightarrow> detail_elm d = Some e"
  by (auto simp: detail_from_elm_def detail_elm_def rbind_Inr_iff tak_user_from_elm_def
      new_tak_user_def split: if_splits dest: tak_user_children_elm geochat_from_elm_elm)

lemma event_children_sel:
  "event_children E uid ev cs = Inr ev' \<Longrightarrow>
     ev_version ev' = ev_version ev \<and> ev_uid ev' = ev_uid ev \<and> ev_etype ev' = ev_etype ev \<and>
     ev_how ev' = ev_how ev \<and> ev_time ev' = ev_time ev \<and> ev_start ev' = ev_start ev \<and>
     ev_stale ev' = ev_stale ev \<and> ev_fed_meta ev' = ev_fed_meta ev \<and>
     ev_local_acl_groups ev' = ev_local_acl_groups ev \<and>
     ev_inbound_local_groups ev' = ev_inbound_local_groups ev"
  by (induction E uid ev cs rule: event_children.induct)
    (auto simp: rbind_Inr_iff split: if_splits)

definition detail_read :: "py_env \<Rightarrow> string \<Rightarrow> detail option \<Rightarrow> bool" where
  "detail_read E uid d =
     pred_option (\<lambda>d. case detail_elm d of None \<Rightarrow> False
       | Some c \<Rightarrow> e_tag c = ''detail'' \<and> detail_from_elm E c uid = Inr d) d"

lemma event_children_detail:
  "event_children E uid ev cs = Inr ev' \<Longrightarrow> detail_read E uid (ev_detail ev) \<Longrightarrow>
   detail_read E uid (ev_detail ev')"
  by (induction E uid ev cs rule: event_children.induct)
    (auto simp: rbind_Inr_iff detail_read_def detail_from_elm_elm split: if_splits)

lemma unmarshal_Inr [simp]: "unmarshal caught m = Inr x \<longleftrightarrow> m = Inr x"
  by (cases m) (auto simp: unmarshal_def)

lemma event_from_elm_Inr:
  assumes "event_from_elm E e = Inr ev"
  obtains uid time start stale where
    "ev_uid ev = Some uid" "ev_etype ev \<noteq> None" "ev_time ev = Some time" "ev_start ev = Some start"
    "ev_stale ev = Some stale" "detail_read E uid (ev_detail ev)"
proof -
  obtain uid where u: "elem_get e ''uid'' = Some uid"
    using assms by (cases "elem_get e ''uid''") (auto simp: event_from_elm_def rbind_Inr_iff split: if_splits)
  then obtain time start stale where
    ev: "event_children E uid (new_event (elem_get e ''version'') (Some uid) (elem_get e ''type'')
        (elem_get e ''how'') time start stale) (e_kids e) = Inr ev" "elem_get e ''type'' \<noteq> None"
    using assms by (auto simp: event_from_elm_def rbind_Inr_iff split: if_splits)
  note sel = event_children_sel [OF ev(1)] and det = event_children_detail [OF ev(1)]
  show ?thesis
    by (rule that [of uid time start stale])
      (use sel ev(2) in \<open>simp_all add: new_event_def\<close>, rule det, simp add: detail_read_def new_event_def)
qed

text \<open>What printing and reading loses: digits, microseconds and the sidecars.\<close>

definition ms_floor :: "datetime \<Rightarrow> datetime" where
  "ms_floor t = t - t mod 1000"

definition reparsed :: "event \<Rightarrow> event" where
  "reparsed ev = ev\<lparr> ev_time := map_option ms_floor (ev_time ev),
     ev_start := map_option ms_floor (ev_start ev), ev_stale := map_option ms_floor (ev_stale ev),
     ev_point := coarse_point (ev_point ev), ev_fed_meta := None, ev_local_acl_groups := None,
     ev_inbound_local_groups := None \<rparr>"

text \<open>\<open>isoparse\<close> reads what \<open>isoformat\<close> printed.\<close>

definition iso_reads :: "py_env \<Rightarrow> datetime option \<Rightarrow> bool" where
  "iso_reads E t = (case t of None \<Rightarrow> True | Some t \<Rightarrow> env_isoparse E (isoformat_ms_z t) = Inr (ms_floor t))"

text \<open>The invariant of the events of the engine: read from XML or built by the codec.\<close>

definition event_ok :: "py_env \<Rightarrow> event \<Rightarrow> bool" where
  "event_ok E ev =
     (ev_etype ev \<noteq> None \<and> ev_time ev \<noteq> None \<and> ev_start ev \<noteq> None \<and> ev_stale ev \<noteq> None \<and>
      (case ev_uid ev of None \<Rightarrow> False | Some uid \<Rightarrow> detail_read E uid (ev_detail ev)))"

lemma event_from_elm_ok: "event_from_elm E e = Inr ev \<Longrightarrow> event_ok E ev"
  by (erule event_from_elm_Inr) (simp add: event_ok_def)

lemma detail_as_element_read:
  "detail_read E uid (Some d) \<Longrightarrow>
   \<exists>c. detail_as_element d = Inr (Some c) \<and> e_tag c = ''detail'' \<and> detail_from_elm E c uid = Inr d"
  by (auto simp: detail_read_def detail_as_element_def split: option.splits)

text \<open>The attributes and children of a printed event.\<close>

lemma event_as_element_Inr:
  assumes "event_as_element ev = Inr x" "event_ok E ev"
  obtains uid etype time start stale where
    "ev_uid ev = Some uid" "elem_get x ''uid'' = Some uid"
    "ev_etype ev = Some etype" "elem_get x ''type'' = Some etype"
    "elem_get x ''version'' = ev_version ev" "elem_get x ''how'' = ev_how ev"
    "ev_time ev = Some time" "elem_get x ''time'' = Some (isoformat_ms_z time)"
    "ev_start ev = Some start" "elem_get x ''start'' = Some (isoformat_ms_z start)"
    "ev_stale ev = Some stale" "elem_get x ''stale'' = Some (isoformat_ms_z stale)"
    "e_tag x = ''event''"
    "e_kids x = point_as_element (ev_point ev) #
       (case ev_detail ev of None \<Rightarrow> [] | Some d \<Rightarrow> [the (detail_elm d)])"
proof -
  obtain uid etype time start stale where
    f: "ev_uid ev = Some uid" "ev_etype ev = Some etype" "ev_time ev = Some time"
       "ev_start ev = Some start" "ev_stale ev = Some stale" "detail_read E uid (ev_detail ev)"
    using assms(2) by (auto simp: event_ok_def split: option.splits)
  let ?kvs = "[(''version'', ev_version ev), (''uid'', ev_uid ev), (''type'', ev_etype ev),
      (''how'', ev_how ev)]"
  obtain e0 where e0: "xml_set_all ?kvs (new_elem ''event'') = Inr e0"
    using assms(1) by (auto simp: event_as_element_def rbind_Inr_iff)
  have get: "elem_get e0 k = (case map_of ?kvs k of Some v \<Rightarrow> v | None \<Rightarrow> None)" for k
    using xml_set_all_Inr_get [OF e0, of k] by simp
  define e1 where "e1 = append_kid (point_as_element (ev_point ev))
      (elem_set ''stale'' (isoformat_ms_z stale) (elem_set ''start'' (isoformat_ms_z start)
        (elem_set ''time'' (isoformat_ms_z time) e0)))"
  have sel: "e_tag e1 = ''event''" "e_kids e1 = [point_as_element (ev_point ev)]"
    using xml_set_all_sel [OF e0] by (simp_all add: e1_def)
  have x: "x = (case ev_detail ev of None \<Rightarrow> e1 | Some d \<Rightarrow> append_kid (the (detail_elm d)) e1)"
  proof (cases "ev_detail ev")
    case None
    then show ?thesis
      using assms(1) by (simp add: event_as_element_def e0 [unfolded f] f time_text_def e1_def del: xml_set_all.simps)
  next
    case (Some d)
    with f(6) obtain c where "detail_elm d = Some c"
      by (auto simp: detail_read_def split: option.splits)
    with Some show ?thesis
      using assms(1) by (simp add: event_as_element_def e0 [unfolded f] f time_text_def e1_def detail_as_element_def
          del: xml_set_all.simps)
  qed
  show ?thesis
    by (rule that [of uid etype time start stale])
      (simp_all add: f x e1_def [symmetric] sel split: option.split, simp_all add: e1_def get f)
qed

section \<open>Properties\<close>

text \<open>
  C31. Round trip of an event through XML: for an event that was read from XML or built by
  the codec, printing it and reading the element gives the same event, with the numbers
  of the point at the precision printed (6 and 1 decimals), the times cut to
  milliseconds, the detail unchanged (its kind included) and no sidecars.
\<close>

theorem event_xml_roundtrip:
  assumes "event_ok E ev" "event_as_element ev = Inr x"
    and "iso_reads E (ev_time ev)" "iso_reads E (ev_start ev)" "iso_reads E (ev_stale ev)"
  shows "event_from_elm E x = Inr (reparsed ev)"
proof -
  from event_as_element_Inr [OF assms(2,1)] obtain uid etype time start stale where
    f: "ev_uid ev = Some uid" "elem_get x ''uid'' = Some uid"
      "ev_etype ev = Some etype" "elem_get x ''type'' = Some etype"
      "elem_get x ''version'' = ev_version ev" "elem_get x ''how'' = ev_how ev"
      "ev_time ev = Some time" "elem_get x ''time'' = Some (isoformat_ms_z time)"
      "ev_start ev = Some start" "elem_get x ''start'' = Some (isoformat_ms_z start)"
      "ev_stale ev = Some stale" "elem_get x ''stale'' = Some (isoformat_ms_z stale)"
      "e_tag x = ''event''"
      "e_kids x = point_as_element (ev_point ev) #
         (case ev_detail ev of None \<Rightarrow> [] | Some d \<Rightarrow> [the (detail_elm d)])" .
  have t: "time_attr E x ''time'' = Inr (ms_floor time)" "time_attr E x ''start'' = Inr (ms_floor start)"
    "time_attr E x ''stale'' = Inr (ms_floor stale)"
    using assms(3-5) by (simp_all add: time_attr_def f iso_reads_def)
  have d: "detail_read E uid (ev_detail ev)" using assms(1) by (simp add: event_ok_def f)
  have "event_children E uid (new_event (ev_version ev) (Some uid) (Some etype) (ev_how ev)
      (ms_floor time) (ms_floor start) (ms_floor stale)) (e_kids x) = Inr (reparsed ev)"
    using d by (auto simp: f point_roundtrip reparsed_def new_event_def detail_read_def
        intro!: event.equality split: option.splits)
  then show ?thesis
    by (simp add: event_from_elm_def f t unmarshal_def)
qed

text \<open>An environment and an event of the epoch for the witnesses.\<close>

definition epoch_env :: py_env where
  "epoch_env = \<lparr> env_xml = ref_xml, env_isoparse = (\<lambda>s. if s = isoformat_ms_z 0 then Inr 0 else Inl ValueError),
     env_it = py_sorted \<rparr>"

definition epoch_event :: event where
  "epoch_event = (new_event (Some ''2.0'') (Some ''u1'') (Some ''a-f-G'') (Some ''m-g'') 0 0 0)
     \<lparr> ev_detail := Some (Generic (Some (new_elem ''detail''))) \<rparr>"

lemma epoch_event_ok: "event_ok epoch_env epoch_event"
  by (simp add: event_ok_def epoch_event_def new_event_def detail_read_def detail_elm_def
      detail_from_elm_def child_tags_def tak_user_is_type_def geochat_is_type_def)

lemma epoch_event_prints: "\<exists>x. event_as_element epoch_event = Inr x"
  by (simp add: epoch_event_def new_event_def event_as_element_def xml_set_opt_def xml_set_def
      xml_text_ok_def xml_char_def time_text_def detail_as_element_def detail_elm_def Let_def)

theorem event_xml_roundtrip_witness:
  "\<exists>x. event_as_element epoch_event = Inr x \<and> event_from_elm epoch_env x = Inr (reparsed epoch_event)"
proof -
  obtain x where x: "event_as_element epoch_event = Inr x" using epoch_event_prints by blast
  have "iso_reads epoch_env (Some 0)" by (simp add: iso_reads_def epoch_env_def ms_floor_def)
  then have "event_from_elm epoch_env x = Inr (reparsed epoch_event)"
    by (intro event_xml_roundtrip [OF epoch_event_ok x]) (simp_all add: epoch_event_def new_event_def)
  with x show ?thesis by blast
qed

end
