(* ===== verification/Bridge.thy ===== *)
theory Bridge
  imports Cot_Models
begin

text \<open>
  bridge.py: the queue between the gRPC threads and the event loop, with the socket pair
  that wakes the loop. The steps of \<open>enqueue\<close> (put, then send a byte) and of \<open>drain\<close> (read
  all bytes, then pop and inject until the queue is empty) interleave, and both system calls
  may fail; \<open>bridge_reach\<close> is what their interleavings reach. The bus is a parameter of \<open>drain\<close>.
\<close>

section \<open>State and steps\<close>

datatype drain_pc = Drain_Idle | Drain_Popping

text \<open>
  The queue, the threads between putting and sending, the bytes waiting in the socket and
  whether the loop is inside of the popping loop of \<open>drain\<close>.
\<close>

record 'src bridge =
  br_queue :: "('src \<times> event) list"
  br_unsent :: nat
  br_bytes :: nat
  br_pc :: drain_pc

definition new_bridge :: "'src bridge" where
  "new_bridge = \<lparr> br_queue = [], br_unsent = 0, br_bytes = 0, br_pc = Drain_Idle \<rparr>"

definition enqueue_put :: "'src \<Rightarrow> event \<Rightarrow> 'src bridge \<Rightarrow> 'src bridge" where
  "enqueue_put src evt b = b\<lparr> br_queue := br_queue b @ [(src, evt)], br_unsent := br_unsent b + 1 \<rparr>"

text \<open>
  The byte is written unless the call fails, with any \<open>OSError\<close>, which is logged: it does
  (it would block) when the send buffer, of \<open>cap\<close> bytes, is full.
\<close>

definition enqueue_send :: "bool \<Rightarrow> nat \<Rightarrow> 'src bridge \<Rightarrow> 'src bridge" where
  "enqueue_send fails cap b =
     b\<lparr> br_unsent := br_unsent b - 1,
        br_bytes := (if fails \<or> cap \<le> br_bytes b then br_bytes b else br_bytes b + 1) \<rparr>"

definition enqueue :: "bool \<Rightarrow> nat \<Rightarrow> 'src \<Rightarrow> event \<Rightarrow> 'src bridge \<Rightarrow> 'src bridge" where
  "enqueue fails cap src evt b = enqueue_send fails cap (enqueue_put src evt b)"

text \<open>
  Reading the waiting bytes, in chunks, until the call would block or the socket is at its
  end. Another error leaves \<open>drain\<close> at once, after the \<open>n\<close> bytes of the chunks read before it.
\<close>

datatype read_result = Read_All | Read_Fails nat

definition drain_read :: "read_result \<Rightarrow> 'src bridge \<Rightarrow> 'src bridge" where
  "drain_read r b =
     (case r of
        Read_All \<Rightarrow> b\<lparr> br_bytes := 0, br_pc := Drain_Popping \<rparr>
      | Read_Fails n \<Rightarrow> b\<lparr> br_bytes := br_bytes b - n \<rparr>)"

definition drain_pop :: "'src bridge \<Rightarrow> ('src \<times> event) option \<times> 'src bridge" where
  "drain_pop b =
     (case br_queue b of
        [] \<Rightarrow> (None, b\<lparr> br_pc := Drain_Idle \<rparr>)
      | x # q \<Rightarrow> (Some x, b\<lparr> br_queue := q \<rparr>))"

text \<open>
  Injecting what was popped: an exception of the bus is logged (counted here) and the
  next item follows.
\<close>

type_synonym ('src, 's) sink = "'src \<Rightarrow> event \<Rightarrow> string list option \<Rightarrow> 's \<Rightarrow> py_error option \<times> 's"

fun deliver :: "('src, 's) sink \<Rightarrow> ('src \<times> event) list \<Rightarrow> 's \<Rightarrow> nat \<times> 's" where
  "deliver inject [] s = (0, s)"
| "deliver inject ((src, evt) # items) s =
     (case inject src evt (ev_inbound_local_groups evt) s of
        (err, s1) \<Rightarrow>
          (case deliver inject items s1 of
             (n, s2) \<Rightarrow> ((if err = None then n else n + 1), s2)))"

text \<open>\<open>drain\<close> without a producer in between.\<close>

definition drain :: "('src, 's) sink \<Rightarrow> read_result \<Rightarrow> 'src bridge \<Rightarrow> 's \<Rightarrow> nat \<times> 'src bridge \<times> 's" where
  "drain inject r b s =
     (case r of
        Read_Fails _ \<Rightarrow> (0, drain_read r b, s)
      | Read_All \<Rightarrow>
          (case deliver inject (br_queue b) s of
             (n, s') \<Rightarrow> (n, b\<lparr> br_queue := [], br_bytes := 0, br_pc := Drain_Idle \<rparr>, s')))"

section \<open>Interleavings\<close>

text \<open>
  \<open>bridge_reach faults cap puts pops b\<close>: a state, with all items put and popped on the way.
  With \<open>faults\<close> a send may fail although there is room, and a read may fail after it consumed bytes.
\<close>

inductive bridge_reach :: "bool \<Rightarrow> nat \<Rightarrow> ('src \<times> event) list \<Rightarrow> ('src \<times> event) list \<Rightarrow> 'src bridge \<Rightarrow> bool"
  for faults :: bool and cap :: nat where
  br_new: "bridge_reach faults cap [] [] new_bridge"
| br_put: "bridge_reach faults cap puts pops b \<Longrightarrow>
    bridge_reach faults cap (puts @ [(src, evt)]) pops (enqueue_put src evt b)"
| br_send: "bridge_reach faults cap puts pops b \<Longrightarrow> 0 < br_unsent b \<Longrightarrow> faults \<or> \<not> fails \<Longrightarrow>
    bridge_reach faults cap puts pops (enqueue_send fails cap b)"
| br_read: "bridge_reach faults cap puts pops b \<Longrightarrow> br_pc b = Drain_Idle \<Longrightarrow> faults \<or> r \<in> {Read_All, Read_Fails 0} \<Longrightarrow>
    bridge_reach faults cap puts pops (drain_read r b)"
| br_pop: "bridge_reach faults cap puts pops b \<Longrightarrow> br_pc b = Drain_Popping \<Longrightarrow> drain_pop b = (x, b') \<Longrightarrow>
    bridge_reach faults cap puts (case x of None \<Rightarrow> pops | Some i \<Rightarrow> pops @ [i]) b'"

definition wake_pending :: "'src bridge \<Rightarrow> bool" where
  "wake_pending b = (0 < br_unsent b \<or> 0 < br_bytes b \<or> br_pc b = Drain_Popping)"

lemmas bridge_steps = enqueue_put_def enqueue_send_def drain_read_def drain_pop_def

lemma bridge_reach_order: "bridge_reach faults cap puts pops b \<Longrightarrow> puts = pops @ br_queue b"
  by (induction rule: bridge_reach.induct)
    (auto simp: bridge_steps new_bridge_def split: read_result.splits list.splits)

lemma bridge_reach_wake:
  "bridge_reach faults cap puts pops b \<Longrightarrow> \<not> faults \<Longrightarrow> 0 < cap \<Longrightarrow> br_queue b \<noteq> [] \<Longrightarrow> wake_pending b"
  by (induction rule: bridge_reach.induct)
    (auto simp: bridge_steps wake_pending_def new_bridge_def split: list.splits if_splits read_result.splits)

text \<open>What remains is popped, in order, by the turns of one undisturbed \<open>drain\<close>.\<close>

fun pop_all :: "nat \<Rightarrow> 'src bridge \<Rightarrow> ('src \<times> event) list \<times> 'src bridge" where
  "pop_all 0 b = ([], b)"
| "pop_all (Suc n) b =
     (case drain_pop b of
        (None, b') \<Rightarrow> ([], b')
      | (Some x, b') \<Rightarrow> (case pop_all n b' of (xs, b'') \<Rightarrow> (x # xs, b'')))"

lemma pop_all_queue:
  "length (br_queue b) < n \<Longrightarrow> pop_all n b = (br_queue b, b\<lparr> br_queue := [], br_pc := Drain_Idle \<rparr>)"
proof (induction n arbitrary: b)
  case (Suc n)
  then show ?case by (cases "br_queue b") (simp_all add: drain_pop_def)
qed simp

section \<open>The contract of the bus\<close>

text \<open>
  A bus publishes, for every event it is given, only messages that are allowed for that
  event and its groups, and appends them to what it has published; it may fail on an
  event, and keeps its invariant all the same.
\<close>

locale event_sink =
  fixes inject :: "('src, 's) sink"
    and inv :: "'s \<Rightarrow> bool"
    and published :: "'s \<Rightarrow> 'p list"
    and allowed :: "event \<Rightarrow> string list option \<Rightarrow> 'p \<Rightarrow> bool"
  assumes inject_inv: "inv s \<Longrightarrow> inject src e gs s = (err, s') \<Longrightarrow> inv s'"
    and inject_published: "inv s \<Longrightarrow> inject src e gs s = (err, s') \<Longrightarrow>
      \<exists>ps. published s' = published s @ ps \<and> (\<forall>p \<in> set ps. allowed e gs p)"
begin

lemma deliver_inv: "inv s \<Longrightarrow> deliver inject items s = (n, s') \<Longrightarrow> inv s'"
proof (induction items arbitrary: s n)
  case (Cons item items)
  then show ?case by (cases item) (auto split: prod.splits intro: inject_inv)
qed simp

lemma deliver_published:
  "inv s \<Longrightarrow> deliver inject items s = (n, s') \<Longrightarrow>
   \<exists>ps. published s' = published s @ ps \<and>
     (\<forall>p \<in> set ps. \<exists>(src, e) \<in> set items. allowed e (ev_inbound_local_groups e) p)"
proof (induction items arbitrary: s n)
  case Nil
  then show ?case by simp
next
  case (Cons item items)
  obtain src e where item: "item = (src, e)" by (cases item)
  obtain err s1 where i: "inject src e (ev_inbound_local_groups e) s = (err, s1)" by fastforce
  obtain m where d: "deliver inject items s1 = (m, s')" using Cons.prems(2) i item by (auto split: prod.splits)
  from inject_published [OF Cons.prems(1) i] obtain ps where
    ps: "published s1 = published s @ ps" "\<forall>p \<in> set ps. allowed e (ev_inbound_local_groups e) p" by blast
  from Cons.IH [OF inject_inv [OF Cons.prems(1) i] d] obtain qs where
    "published s' = published s1 @ qs"
    "\<forall>p \<in> set qs. \<exists>(src, e) \<in> set items. allowed e (ev_inbound_local_groups e) p" by blast
  with ps item show ?case by (intro exI [of _ "ps @ qs"]) auto
qed

lemma drain_published:
  "inv s \<Longrightarrow> drain inject r b s = (n, b', s') \<Longrightarrow>
   inv s' \<and> (\<exists>ps. published s' = published s @ ps \<and>
     (\<forall>p \<in> set ps. \<exists>(src, e) \<in> set (br_queue b). allowed e (ev_inbound_local_groups e) p))"
  by (auto simp: drain_def split: read_result.splits prod.splits dest: deliver_inv deliver_published)

end

section \<open>Properties\<close>

text \<open>
  C22. The bridge loses no event, and no wake-up unless a system call fails. Whatever the
  interleaving and whatever fails, the items put are those popped followed by those waiting,
  in order, and the next \<open>drain\<close> that can read pops all that wait. While an item waits and
  no call has failed, but for a full send buffer, a wake-up is due: a producer has yet to send its
  byte, or a byte is in the socket, or the loop is popping. After a failure one may be
  missing until the next put; a send that succeeds makes one due again.
\<close>

theorem bridge_no_lost_wakeup:
  assumes "0 < cap" "bridge_reach faults cap puts pops b"
  shows "puts = pops @ br_queue b \<and>
    fst (pop_all (length (br_queue b) + 1) (drain_read Read_All b)) = br_queue b \<and>
    (br_queue b \<noteq> [] \<longrightarrow> wake_pending b \<or> faults) \<and>
    wake_pending (enqueue_put src evt b) \<and> wake_pending (enqueue_send False cap b)"
proof -
  have "fst (pop_all (length (br_queue b) + 1) (drain_read Read_All b)) = br_queue b"
    by (subst pop_all_queue) (simp_all add: drain_read_def)
  moreover have "wake_pending (enqueue_put src evt b)" "wake_pending (enqueue_send False cap b)"
    using assms(1) by (simp_all add: wake_pending_def bridge_steps)
  ultimately show ?thesis
    using bridge_reach_order [OF assms(2)] bridge_reach_wake [OF assms(2) _ assms(1)] by blast
qed

text \<open>Two producers; the buffer of one byte is full for the second.\<close>

lemma two_enqueued:
  "bridge_reach faults 1 [(1, epoch_event), (2 :: nat, epoch_event)] []
     (enqueue False 1 2 epoch_event (enqueue False 1 1 epoch_event new_bridge))"
proof -
  have "bridge_reach faults 1 ([] @ [(1, epoch_event)]) [] (enqueue False 1 (1 :: nat) epoch_event new_bridge)"
    unfolding enqueue_def by (rule br_send, rule br_put, rule br_new) (simp_all add: enqueue_put_def)
  from br_put [OF this, of 2 epoch_event] show ?thesis
    unfolding enqueue_def [of False 1 2] by (auto intro!: br_send simp: enqueue_put_def)
qed

theorem bridge_no_lost_wakeup_witness:
  "\<exists>b. bridge_reach False 1 [(1, epoch_event), (2 :: nat, epoch_event)] [] b \<and> br_unsent b = 0 \<and> wake_pending b \<and>
     fst (pop_all 3 (drain_read Read_All b)) = [(1, epoch_event), (2, epoch_event)]"
proof -
  define b where "b = enqueue False 1 2 epoch_event (enqueue False 1 (1 :: nat) epoch_event new_bridge)"
  have r: "bridge_reach False 1 [(1, epoch_event), (2, epoch_event)] [] b" unfolding b_def by (rule two_enqueued)
  moreover have "br_unsent b = 0" "length (br_queue b) = 2" "br_queue b \<noteq> []"
    by (simp_all add: b_def enqueue_def bridge_steps new_bridge_def)
  ultimately show ?thesis using bridge_no_lost_wakeup [OF _ r] by (auto simp: eval_nat_numeral)
qed

text \<open>
  A read that fails after it consumed the byte strands the events: \<open>drain\<close> returns without
  popping, and nothing is left that wakes the loop.
\<close>

lemma read_error_strands_events:
  "\<exists>b. bridge_reach True 1 [(1, epoch_event), (2 :: nat, epoch_event)] [] b \<and> length (br_queue b) = 2 \<and> \<not> wake_pending b"
proof -
  let ?b = "enqueue False 1 2 epoch_event (enqueue False 1 (1 :: nat) epoch_event new_bridge)"
  have "br_pc ?b = Drain_Idle" by (simp add: enqueue_def bridge_steps new_bridge_def)
  from br_read [OF two_enqueued this, of True "Read_Fails 1"]
  have "bridge_reach True 1 [(1, epoch_event), (2, epoch_event)] [] (drain_read (Read_Fails 1) ?b)" by simp
  moreover have "length (br_queue (drain_read (Read_Fails 1) ?b)) = 2" "\<not> wake_pending (drain_read (Read_Fails 1) ?b)"
    by (simp_all add: enqueue_def bridge_steps new_bridge_def wake_pending_def)
  ultimately show ?thesis by blast
qed

end
