(* ===== verification/Loop_Filter.thy ===== *)
theory Loop_Filter
  imports Wire Xml_Tree
begin

text \<open>
  loop_filter.py: the filter that stamps provenance into the detail of an injected event
  (\<open>stamp_inbound\<close>), drops what comes back (\<open>should_relay_outbound\<close>) and strips foreign
  stamps (\<open>clean_for_relay\<close>). The parser of lxml is the parameter \<open>L\<close>; the clock of the
  dedup cache is the argument \<open>now\<close>, in seconds.
\<close>

section \<open>State\<close>

record loop_filter =
  lf_server_id :: string
  lf_max_hops :: int
  lf_window :: rat
  lf_dedup :: "(string, rat) dict"

definition new_loop_filter :: "string \<Rightarrow> int \<Rightarrow> rat \<Rightarrow> loop_filter" where
  "new_loop_filter sid mh w =
     \<lparr> lf_server_id = sid, lf_max_hops = mh, lf_window = w, lf_dedup = [] \<rparr>"

definition FEDPROV_TAG :: string where
  "FEDPROV_TAG = ''_fedprov''"

definition FEDHOPS_TAG :: string where
  "FEDHOPS_TAG = ''_fedhops''"

definition DEDUP_CACHE_MAX :: nat where
  "DEDUP_CACHE_MAX = 2048"

section \<open>Inbound: stamping\<close>

definition fedprov_elem :: "string \<Rightarrow> string list \<Rightarrow> py_error + elem" where
  "fedprov_elem sid prior_ids =
     rbind (xml_set ''server_id'' sid (new_elem FEDPROV_TAG)) (\<lambda>e.
       if prior_ids = [] then Inr e else xml_set ''chain'' (py_join (CHR '','') prior_ids) e)"

definition fedhops_elem :: "int \<Rightarrow> int \<Rightarrow> py_error + elem" where
  "fedhops_elem max_hops current_hops =
     rbind (xml_set ''max_hops'' (py_str max_hops) (new_elem FEDHOPS_TAG))
       (xml_set ''current_hops'' (py_str current_hops))"

definition ensure_detail :: "elem \<Rightarrow> elem" where
  "ensure_detail rt =
     (if elem_find rt ''detail'' = None then append_kid (new_elem ''detail'') rt else rt)"

definition stamp_root :: "loop_filter \<Rightarrow> fed_meta option \<Rightarrow> elem \<Rightarrow> py_error + elem" where
  "stamp_root lf fed_meta rt =
     (let prior_ids = (case fed_meta of Some m \<Rightarrow> fm_seen m | None \<Rightarrow> []);
          mh = (case fed_meta of Some m \<Rightarrow> fm_max_hops m | None \<Rightarrow> - 1);
          max_hops = (if mh = 0 then - 1 else mh);
          current_hops = (case fed_meta of Some m \<Rightarrow> fm_current_hops m | None \<Rightarrow> 0) in
      rbind (fedprov_elem (lf_server_id lf) prior_ids) (\<lambda>prov.
      rbind (fedhops_elem max_hops current_hops) (\<lambda>hops.
        Inr (update_first ''detail'' (\<lambda>d. append_kid hops (append_kid prov d))
               (ensure_detail rt)))))"

definition stamp_inbound ::
    "xml_lib \<Rightarrow> loop_filter \<Rightarrow> string \<Rightarrow> fed_meta option \<Rightarrow> py_error + string" where
  "stamp_inbound L lf cot_xml fed_meta =
     (case xml_fromstring L cot_xml of
        Inl e \<Rightarrow> if e = XMLSyntaxError then Inr cot_xml else Inl e
      | Inr rt \<Rightarrow> rbind (stamp_root lf fed_meta rt) (\<lambda>r. Inr (xml_tostring L r)))"

definition should_inject_inbound :: "string \<Rightarrow> fed_meta option \<Rightarrow> bool" where
  "should_inject_inbound cot_xml fed_meta = True"

section \<open>Outbound: echo, loops, duplicates\<close>

text \<open>The dedup cache: the verdict and the cache afterwards.\<close>

definition dedup_step :: "loop_filter \<Rightarrow> rat \<Rightarrow> string \<Rightarrow> bool \<times> loop_filter" where
  "dedup_step lf now uid =
     (if 0 < lf_window lf \<and> uid \<noteq> [] then
        (if (case dget (lf_dedup lf) uid of
               Some last_seen \<Rightarrow> now - last_seen < lf_window lf | None \<Rightarrow> False)
         then (False, lf)
         else let d = ddel uid (lf_dedup lf) @ [(uid, now)] in
           (True, lf\<lparr> lf_dedup := (if DEDUP_CACHE_MAX < length d then tl d else d) \<rparr>))
      else (True, lf))"

definition is_echo :: "string \<Rightarrow> elem \<Rightarrow> bool" where
  "is_echo sid e =
     (elem_get_or e ''server_id'' [] = sid \<or>
      (let chain_raw = elem_get_or e ''chain'' [] in
       chain_raw \<noteq> [] \<and> list_ex (\<lambda>i. py_strip i = sid) (py_split (CHR '','') chain_raw)))"

definition not_looped :: "string \<Rightarrow> elem \<Rightarrow> bool" where
  "not_looped sid rt =
     (case elem_find rt ''detail'' of
        None \<Rightarrow> True
      | Some detail \<Rightarrow> \<not> list_ex (is_echo sid) (elem_findall detail FEDPROV_TAG))"

definition should_relay_outbound ::
    "xml_lib \<Rightarrow> loop_filter \<Rightarrow> rat \<Rightarrow> string \<Rightarrow> bool \<times> loop_filter" where
  "should_relay_outbound L lf now cot_xml =
     (case xml_fromstring L cot_xml of
        Inl _ \<Rightarrow> (True, lf)
      | Inr rt \<Rightarrow>
          (case dedup_step lf now (elem_get_or rt ''uid'' []) of
             (False, lf') \<Rightarrow> (False, lf')
           | (True, lf') \<Rightarrow> (not_looped (lf_server_id lf) rt, lf')))"

definition clean_root :: "elem \<Rightarrow> elem" where
  "clean_root = update_first ''detail'' (remove_kids [FEDPROV_TAG, FEDHOPS_TAG])"

definition clean_for_relay :: "xml_lib \<Rightarrow> string \<Rightarrow> string" where
  "clean_for_relay L cot_xml =
     (case xml_fromstring L cot_xml of
        Inl _ \<Rightarrow> cot_xml
      | Inr rt \<Rightarrow>
          (case elem_find rt ''detail'' of
             None \<Rightarrow> cot_xml
           | Some _ \<Rightarrow> xml_tostring L (clean_root rt)))"

section \<open>Reading a stamp\<close>

record prov_info =
  pi_server_id :: "string option"
  pi_chain :: "string list option"
  pi_max_hops :: "int option"
  pi_current_hops :: "int option"

definition empty_prov :: prov_info where
  "empty_prov = \<lparr> pi_server_id = None, pi_chain = None, pi_max_hops = None, pi_current_hops = None \<rparr>"

definition read_fedprov :: "elem \<Rightarrow> prov_info \<Rightarrow> prov_info" where
  "read_fedprov e r =
     (let raw = elem_get_or e ''chain'' [] in
      r\<lparr> pi_server_id := Some (elem_get_or e ''server_id'' []),
         pi_chain := Some (if raw = [] then []
           else filter (\<lambda>x. x \<noteq> []) (map py_strip (py_split (CHR '','') raw))) \<rparr>)"

definition read_fedhops :: "elem \<Rightarrow> prov_info \<Rightarrow> prov_info" where
  "read_fedhops e r =
     (case py_int (elem_get_or e ''max_hops'' ''-1'') of
        None \<Rightarrow> r
      | Some m \<Rightarrow> r\<lparr> pi_max_hops := Some m,
          pi_current_hops := py_int (elem_get_or e ''current_hops'' ''0'') \<rparr>)"

definition parse_fedprov :: "xml_lib \<Rightarrow> string \<Rightarrow> prov_info option" where
  "parse_fedprov L cot_xml =
     (case xml_fromstring L cot_xml of
        Inl _ \<Rightarrow> None
      | Inr rt \<Rightarrow>
          (case elem_find rt ''detail'' of
             None \<Rightarrow> None
           | Some detail \<Rightarrow>
               let r = (case elem_find detail FEDPROV_TAG of
                          None \<Rightarrow> empty_prov | Some e \<Rightarrow> read_fedprov e empty_prov);
                   r' = (case elem_find detail FEDHOPS_TAG of
                          None \<Rightarrow> r | Some e \<Rightarrow> read_fedhops e r) in
               if r' = empty_prov then None else Some r'))"

section \<open>Lemmas\<close>

lemma xml_text_ok_append [simp]: "xml_text_ok (a @ b) \<longleftrightarrow> xml_text_ok a \<and> xml_text_ok b"
  by (simp add: xml_text_ok_def)

lemma xml_text_ok_Cons [simp]: "xml_text_ok (c # b) \<longleftrightarrow> xml_char c \<and> xml_text_ok b"
  by (simp add: xml_text_ok_def)

lemma xml_text_ok_Nil [simp]: "xml_text_ok []"
  by (simp add: xml_text_ok_def)

lemma xml_text_ok_nat_str: "xml_text_ok (nat_str n)"
  unfolding xml_text_ok_def list_all_iff
  using nat_str_digits [of _ n] by (auto simp: xml_char_def of_char_digit_char dest!: nat_str_digits)

lemma xml_text_ok_py_str [simp]: "xml_text_ok (py_str i)"
  by (simp add: py_str_def xml_text_ok_nat_str xml_char_def)

lemma xml_text_ok_join:
  "xml_char c \<Longrightarrow> xml_text_ok (py_join c xs) \<longleftrightarrow> list_all xml_text_ok xs"
  by (induction c xs rule: py_join.induct) auto

lemma xml_char_comma [simp]: "xml_char (CHR '','')"
  by (simp add: xml_char_def)

lemma elem_get_set [simp]: "elem_get (elem_set k v e) j = (if j = k then Some v else elem_get e j)"
  by (simp add: elem_get_def)

lemma elem_get_or_set [simp]:
  "elem_get_or (elem_set k v e) j d = (if j = k then v else elem_get_or e j d)"
  by (simp add: elem_get_or_def)

lemma elem_get_or_new [simp]: "elem_get_or (new_elem t) j d = d"
  by (simp add: elem_get_or_def elem_get_def)

lemma fedprov_elem_Inr:
  "fedprov_elem sid ids = Inr e \<longleftrightarrow>
     xml_text_ok sid \<and> list_all xml_text_ok ids \<and>
     e = (let p = elem_set ''server_id'' sid (new_elem FEDPROV_TAG) in
          if ids = [] then p else elem_set ''chain'' (py_join (CHR '','') ids) p)"
  by (auto simp: fedprov_elem_def rbind_Inr_iff xml_set_Inr xml_text_ok_join Let_def)

lemma fedhops_elem_eq:
  "fedhops_elem m c =
     Inr (elem_set ''current_hops'' (py_str c) (elem_set ''max_hops'' (py_str m) (new_elem FEDHOPS_TAG)))"
  by (simp add: fedhops_elem_def xml_set_def)

lemma ensure_detail_find: "\<exists>d. elem_find (ensure_detail r) ''detail'' = Some d"
  by (auto simp: ensure_detail_def find_append_kid)

lemma ensure_detail_get: "elem_find r ''detail'' = Some d \<Longrightarrow> ensure_detail r = r"
  by (simp add: ensure_detail_def)

text \<open>What the meta data contributes to a stamp.\<close>

definition stamp_ids :: "fed_meta option \<Rightarrow> string list" where
  "stamp_ids fm = (case fm of Some m \<Rightarrow> fm_seen m | None \<Rightarrow> [])"

definition stamp_max :: "fed_meta option \<Rightarrow> int" where
  "stamp_max fm =
     (case fm of Some m \<Rightarrow> if fm_max_hops m = 0 then - 1 else fm_max_hops m | None \<Rightarrow> - 1)"

definition stamp_current :: "fed_meta option \<Rightarrow> int" where
  "stamp_current fm = (case fm of Some m \<Rightarrow> fm_current_hops m | None \<Rightarrow> 0)"

definition prov_of :: "string \<Rightarrow> string list \<Rightarrow> elem" where
  "prov_of sid ids =
     (let p = elem_set ''server_id'' sid (new_elem FEDPROV_TAG) in
      if ids = [] then p else elem_set ''chain'' (py_join (CHR '','') ids) p)"

definition hops_of :: "int \<Rightarrow> int \<Rightarrow> elem" where
  "hops_of m c =
     elem_set ''current_hops'' (py_str c) (elem_set ''max_hops'' (py_str m) (new_elem FEDHOPS_TAG))"

lemma stamp_root_eq:
  "stamp_root lf fm r =
     (if xml_text_ok (lf_server_id lf) \<and> list_all xml_text_ok (stamp_ids fm) then
        Inr (update_first ''detail''
          (\<lambda>d. append_kid (hops_of (stamp_max fm) (stamp_current fm))
                 (append_kid (prov_of (lf_server_id lf) (stamp_ids fm)) d)) (ensure_detail r))
      else Inl ValueError)"
  by (auto simp: stamp_root_def stamp_ids_def stamp_max_def stamp_current_def prov_of_def
      hops_of_def fedprov_elem_def xml_set_def fedhops_elem_eq xml_text_ok_join Let_def
      split: option.split)

lemma tags_neq [simp]: "FEDPROV_TAG \<noteq> FEDHOPS_TAG" "FEDHOPS_TAG \<noteq> FEDPROV_TAG"
  by (simp_all add: FEDPROV_TAG_def FEDHOPS_TAG_def)

lemma prov_of_sel [simp]:
  "e_tag (prov_of sid ids) = FEDPROV_TAG" "elem_get_or (prov_of sid ids) ''server_id'' [] = sid"
  "elem_get_or (prov_of sid ids) ''chain'' [] = py_join (CHR '','') ids"
  by (auto simp: prov_of_def Let_def)

lemma hops_of_sel [simp]:
  "e_tag (hops_of m c) = FEDHOPS_TAG" "elem_get_or (hops_of m c) ''max_hops'' d = py_str m"
  "elem_get_or (hops_of m c) ''current_hops'' d = py_str c"
  by (simp_all add: hops_of_def)

lemma code_names_mem [simp]:
  "''detail'' \<in> set code_names" "FEDPROV_TAG \<in> set code_names" "FEDHOPS_TAG \<in> set code_names"
  "''server_id'' \<in> set code_names" "''chain'' \<in> set code_names" "''max_hops'' \<in> set code_names"
  "''current_hops'' \<in> set code_names"
  by (simp_all add: code_names_def FEDPROV_TAG_def FEDHOPS_TAG_def)

lemma xml_normal_ensure_detail:
  "xml_normal ok r \<Longrightarrow> ok ''detail'' \<Longrightarrow> xml_normal ok (ensure_detail r)"
  by (simp add: ensure_detail_def xml_normal_intros)

lemma xml_normal_prov_of:
  "\<forall>n \<in> set code_names. ok n \<Longrightarrow> xml_text_ok sid \<Longrightarrow> list_all xml_text_ok ids \<Longrightarrow>
   xml_normal ok (prov_of sid ids)"
  by (auto simp: prov_of_def Let_def xml_text_ok_join intro!: xml_normal_intros)

lemma xml_normal_hops_of:
  "\<forall>n \<in> set code_names. ok n \<Longrightarrow> xml_normal ok (hops_of m c)"
  by (auto simp: hops_of_def intro!: xml_normal_intros)

lemma ensure_detail_tail [simp]: "e_tail (ensure_detail r) = e_tail r"
  by (simp add: ensure_detail_def)

lemma update_first_sel [simp]:
  "e_tail (update_first t f e) = e_tail e" "e_attrs (update_first t f e) = e_attrs e"
  "e_tag (update_first t f e) = e_tag e"
  by (simp_all add: update_first_def)

text \<open>What parsing a stamped document gives.\<close>

definition stamped_root :: "loop_filter \<Rightarrow> fed_meta option \<Rightarrow> elem \<Rightarrow> elem" where
  "stamped_root lf fm r =
     update_first ''detail''
       (\<lambda>d. append_kid (hops_of (stamp_max fm) (stamp_current fm))
              (append_kid (prov_of (lf_server_id lf) (stamp_ids fm)) d)) (ensure_detail r)"

lemma stamp_inbound_parse:
  assumes "xml_lib_ok L" "xml_fromstring L cot_xml = Inr r"
    and "stamp_inbound L lf cot_xml fm = Inr out"
  shows "xml_fromstring L out = Inr (stamped_root lf fm r)"
proof -
  have ok: "xml_text_ok (lf_server_id lf)" "list_all xml_text_ok (stamp_ids fm)"
    and out: "out = xml_tostring L (stamped_root lf fm r)"
    using assms(2,3) by (auto simp: stamp_inbound_def stamp_root_eq stamped_root_def split: if_splits)
  have n: "\<forall>n \<in> set code_names. xml_name_ok L n"
    using xml_lib_okD(4) [OF assms(1)] by blast
  then have "xml_name_ok L ''detail''" by simp
  then have "xml_normal (xml_name_ok L) (ensure_detail r)"
    using xml_lib_okD(2) [OF assms(1,2)] by (rule xml_normal_ensure_detail [rotated])
  then have "xml_normal (xml_name_ok L) (stamped_root lf fm r)"
    unfolding stamped_root_def
    by (rule xml_normal_update_first)
      (intro xml_normal_append_kid xml_normal_prov_of xml_normal_hops_of n ok)
  moreover have "e_tail (stamped_root lf fm r) = None"
    using xml_lib_okD(3) [OF assms(1,2)] by (simp add: stamped_root_def)
  ultimately show ?thesis unfolding out by (rule xml_lib_okD(1) [OF assms(1)])
qed

lemma stamped_detail:
  "\<exists>d. elem_find (ensure_detail r) ''detail'' = Some d \<and>
     elem_find (stamped_root lf fm r) ''detail'' =
       Some (append_kid (hops_of (stamp_max fm) (stamp_current fm))
              (append_kid (prov_of (lf_server_id lf) (stamp_ids fm)) d))"
  using ensure_detail_find [of r]
  by (auto simp: stamped_root_def find_update_first)

lemma stamped_fedprov:
  "\<exists>d. elem_find (stamped_root lf fm r) ''detail'' = Some d \<and>
     prov_of (lf_server_id lf) (stamp_ids fm) \<in> set (elem_findall d FEDPROV_TAG)"
  using stamped_detail [of r lf fm] by auto

lemma stamp_inbound_succeeds:
  assumes "xml_fromstring L cot_xml = Inr r"
    and "xml_text_ok (lf_server_id lf)" "list_all xml_text_ok (stamp_ids fm)"
  shows "stamp_inbound L lf cot_xml fm = Inr (xml_tostring L (stamped_root lf fm r))"
  using assms by (simp add: stamp_inbound_def stamp_root_eq stamped_root_def)

lemma relay_of_looped:
  assumes "xml_fromstring L cot_xml = Inr r" "\<not> not_looped (lf_server_id lf) r"
  shows "fst (should_relay_outbound L lf now cot_xml) = False"
proof -
  have "lf_server_id (snd (dedup_step lf now u)) = lf_server_id lf" for u
    by (simp add: dedup_step_def Let_def)
  then show ?thesis
    using assms by (auto simp: should_relay_outbound_def split: prod.split bool.split)
qed

lemma not_looped_stamped:
  "is_echo sid (prov_of (lf_server_id lf) (stamp_ids fm)) \<Longrightarrow> \<not> not_looped sid (stamped_root lf fm r)"
  using stamped_fedprov [of lf fm r] by (auto simp: not_looped_def list_ex_iff)

lemma is_echo_own: "is_echo sid (prov_of sid ids)"
  by (simp add: is_echo_def)

lemma is_echo_chain:
  assumes "a \<in> set ids" "CHR '','' \<notin> set a" "trimmed a" "a \<noteq> []"
  shows "is_echo a (prov_of sid ids)"
proof -
  have "a \<in> set (py_split (CHR '','') (py_join (CHR '','') ids))"
    using assms by (simp add: py_split_join_mem)
  moreover from this have "py_join (CHR '','') ids \<noteq> []"
    using assms(4) by (intro notI) simp
  ultimately show ?thesis
    using py_strip_trimmed [OF assms(3)] by (auto simp: is_echo_def list_ex_iff)
qed

subsection \<open>Cleaning\<close>

lemma clean_inbound_parse:
  assumes "xml_lib_ok L" "xml_fromstring L cot_xml = Inr r"
  shows "xml_fromstring L (clean_for_relay L cot_xml) =
      Inr (if elem_find r ''detail'' = None then r else clean_root r)"
proof (cases "elem_find r ''detail''")
  case None
  then show ?thesis using assms by (simp add: clean_for_relay_def)
next
  case (Some d)
  have "xml_normal (xml_name_ok L) (clean_root r)"
    unfolding clean_root_def
    by (intro xml_normal_update_first xml_normal_remove_kids xml_lib_okD(2) [OF assms])
  moreover have "e_tail (clean_root r) = None"
    using xml_lib_okD(3) [OF assms] by (simp add: clean_root_def)
  ultimately show ?thesis
    using assms Some by (simp add: clean_for_relay_def xml_lib_okD(1))
qed

lemma remove_kids_sel [simp]: "e_tag (remove_kids ts e) = e_tag e"
  by (simp add: remove_kids_def)

lemma remove_kids_idem [simp]: "remove_kids ts (remove_kids ts e) = remove_kids ts e"
  by (rule elem_eqI) (simp_all add: remove_kids_def)

lemma map_first_idem:
  "(\<And>x. P x \<Longrightarrow> P (f x)) \<Longrightarrow> (\<And>x. P x \<Longrightarrow> f (f x) = f x) \<Longrightarrow>
   map_first P f (map_first P f xs) = map_first P f xs"
  by (induction xs) auto

lemma clean_root_idem: "clean_root (clean_root r) = clean_root r"
  by (rule elem_eqI) (simp_all add: clean_root_def update_first_def map_first_idem)

lemma clean_root_detail:
  "elem_find (clean_root r) ''detail'' =
     map_option (remove_kids [FEDPROV_TAG, FEDHOPS_TAG]) (elem_find r ''detail'')"
  by (simp add: clean_root_def find_update_first)

lemma elem_find_removed: "t \<in> set ts \<Longrightarrow> elem_find (remove_kids ts e) t = None"
  by (simp add: elem_find_def)

lemma not_looped_clean: "not_looped sid (clean_root r)"
  by (simp add: not_looped_def clean_root_detail split: option.split)

subsection \<open>The dedup cache\<close>

text \<open>
  The cache never holds a uid twice and never more than its maximum.
\<close>

definition filter_ok :: "loop_filter \<Rightarrow> bool" where
  "filter_ok lf = (dict_ok (lf_dedup lf) \<and> length (lf_dedup lf) \<le> DEDUP_CACHE_MAX)"

lemma length_delete_le: "length (ddel k d) \<le> length d"
  by (simp add: AList.delete_eq)

lemma not_dhas_ddel: "k \<notin> fst ` set (ddel k d)"
  by (auto simp: AList.delete_eq)

lemma dict_ok_snoc: "dict_ok d \<Longrightarrow> dict_ok (ddel k d @ [(k, v)])"
  using dict_ok_ddel [of d k] not_dhas_ddel [of k d] by (auto simp: dict_ok_def)

lemma dict_ok_tl: "dict_ok d \<Longrightarrow> dict_ok (tl d)"
  by (cases d) (auto simp: dict_ok_def)

lemma dedup_step_ok: "filter_ok lf \<Longrightarrow> filter_ok (snd (dedup_step lf now u))"
  using length_delete_le [of u "lf_dedup lf"]
  by (auto simp: dedup_step_def filter_ok_def Let_def dict_ok_snoc intro!: dict_ok_tl dict_ok_snoc
      split: option.split)

lemma should_relay_state:
  "snd (should_relay_outbound L lf now cot_xml) =
     (case xml_fromstring L cot_xml of Inl _ \<Rightarrow> lf
      | Inr r \<Rightarrow> snd (dedup_step lf now (elem_get_or r ''uid'' [])))"
  by (auto simp: should_relay_outbound_def split: sum.split prod.split bool.split)

lemma dget_append: "dget (a @ b) k = (case dget a k of Some v \<Rightarrow> Some v | None \<Rightarrow> dget b k)"
  by (simp add: map_add_def split: option.split)

lemma dedup_step_remembers:
  assumes "dedup_step lf now u = (True, lf')" "0 < lf_window lf" "u \<noteq> []"
  shows "dget (lf_dedup lf') u = Some now"
proof -
  let ?d = "ddel u (lf_dedup lf)"
  have new: "dget (d @ [(u, now)]) u = Some now" if "u \<notin> fst ` set d" for d
    using that by (simp add: map_add_def not_dhas_None)
  have u: "u \<notin> fst ` set ?d" by (rule not_dhas_ddel)
  have eq: "lf_dedup lf' = (if DEDUP_CACHE_MAX < length (?d @ [(u, now)])
      then tl (?d @ [(u, now)]) else ?d @ [(u, now)])"
    using assms by (auto simp: dedup_step_def Let_def split: if_splits)
  show ?thesis
  proof (cases "?d = []")
    case True
    then show ?thesis by (simp add: eq DEDUP_CACHE_MAX_def)
  next
    case False
    moreover have "u \<notin> fst ` set (tl ?d)" using u by (cases ?d) auto
    ultimately show ?thesis using new [OF u] new [of "tl ?d"] by (simp only: eq tl_append2) simp
  qed
qed

lemma read_fedprov_ne [simp]: "read_fedprov e r \<noteq> empty_prov"
  by (cases r) (simp add: read_fedprov_def empty_prov_def Let_def)

lemma read_fedhops_keeps: "read_fedhops e (read_fedprov p r) \<noteq> empty_prov"
  by (cases r) (auto simp: read_fedhops_def read_fedprov_def empty_prov_def Let_def split: option.split)

lemma fresh_detail:
  assumes "\<forall>d. elem_find r ''detail'' = Some d \<longrightarrow> elem_find d s = None \<and> elem_find d t = None"
    and "elem_find (ensure_detail r) ''detail'' = Some d"
  shows "elem_find d s = None \<and> elem_find d t = None"
proof (cases "elem_find r ''detail''")
  case None
  then have "d = new_elem ''detail''"
    using assms(2) by (simp add: ensure_detail_def find_append_kid)
  then show ?thesis by (simp add: elem_find_def elem_findall_def)
next
  case (Some c)
  with assms show ?thesis by (simp add: ensure_detail_def)
qed

section \<open>A sample event\<close>

text \<open>Concrete values for the witnesses: a position report with a detail, and two servers.\<close>

definition sample_event :: elem where
  "sample_event = Elem ''event'' [(''uid'', ''u1'')] None [Elem ''detail'' [] None [] None] None"

definition sample_meta :: fed_meta where
  "sample_meta = \<lparr> fm_seen = [''a'', ''b''], fm_current_hops = 2, fm_max_hops = 0,
     fm_group_hop_limits = None \<rparr>"

definition sample_filter :: loop_filter where
  "sample_filter = new_loop_filter ''c'' 3 10"

lemma sample_parse: "xml_fromstring ref_xml (ser_elem sample_event) = Inr sample_event"
proof -
  have "ref_fromstring (ser_elem sample_event) = Inr sample_event"
    by (rule ref_roundtrip)
      (simp_all add: sample_event_def ref_name_ok_def opt_text_ok_def dict_ok_def xml_char_def)
  then show ?thesis by (simp add: ref_xml_def)
qed

lemma sample_find: "elem_find sample_event ''detail'' = Some (new_elem ''detail'')"
  by (simp add: sample_event_def elem_find_def elem_findall_def new_elem_def)

lemmas sample_defs = sample_filter_def sample_meta_def new_loop_filter_def stamp_ids_def

lemma sample_stamp:
  "stamp_inbound ref_xml sample_filter (ser_elem sample_event) (Some sample_meta) =
     Inr (xml_tostring ref_xml (stamped_root sample_filter (Some sample_meta) sample_event))"
  by (rule stamp_inbound_succeeds [OF sample_parse])
    (simp_all add: sample_defs xml_char_def)

section \<open>Properties\<close>

text \<open>
  Echo suppression: whatever this server stamps when it injects a federated event is
  dropped by every filter with the same server id, at any time and in any state of the
  dedup cache, provided the event parses. (An event that does not parse is passed on
  unstamped by both operations.)
\<close>

theorem echo_of_injected_event_dropped:
  assumes "xml_lib_ok L" "xml_fromstring L cot_xml = Inr r"
    and "stamp_inbound L lf cot_xml fm = Inr out"
    and "lf_server_id lf' = lf_server_id lf"
  shows "fst (should_relay_outbound L lf' now out) = False"
  by (rule relay_of_looped [OF stamp_inbound_parse [OF assms(1-3)]])
    (auto simp: assms(4) intro!: not_looped_stamped is_echo_own)

theorem echo_of_injected_event_dropped_witness:
  "fst (should_relay_outbound ref_xml sample_filter 5
     (xml_tostring ref_xml (stamped_root sample_filter (Some sample_meta) sample_event))) = False"
  by (rule echo_of_injected_event_dropped [OF ref_xml_ok sample_parse sample_stamp]) simp

text \<open>
  C16. A transitive loop is cut: when another server stamps an event whose provenance
  already holds our server id, we do not relay it (our id has no comma and no white
  space around it, as the chain is stored comma separated).
\<close>

theorem transitive_loop_dropped:
  assumes "xml_lib_ok L" "xml_fromstring L cot_xml = Inr r"
    and "stamp_inbound L other cot_xml (Some fm) = Inr out"
    and "lf_server_id us \<in> set (fm_seen fm)"
    and "CHR '','' \<notin> set (lf_server_id us)" "trimmed (lf_server_id us)" "lf_server_id us \<noteq> []"
  shows "fst (should_relay_outbound L us now out) = False"
  by (rule relay_of_looped [OF stamp_inbound_parse [OF assms(1-3)]])
    (auto simp: stamp_ids_def intro!: not_looped_stamped is_echo_chain assms)

theorem transitive_loop_dropped_witness:
  "fst (should_relay_outbound ref_xml (new_loop_filter ''b'' 3 0) 5
     (xml_tostring ref_xml (stamped_root sample_filter (Some sample_meta) sample_event))) = False"
  by (rule transitive_loop_dropped [OF ref_xml_ok sample_parse sample_stamp])
    (simp_all add: sample_defs trimmed_def py_ws_def)

text \<open>
  The stamp can be read back: on an event whose detail carries no stamp yet,
  \<open>parse_fedprov\<close> of the stamped event gives our id, the provenance chain in order, the
  hop limit (zero read as unlimited) and the hop count.
\<close>

theorem stamp_roundtrip:
  assumes "xml_lib_ok L" "xml_fromstring L cot_xml = Inr r"
    and "stamp_inbound L lf cot_xml (Some fm) = Inr out"
    and "\<forall>d. elem_find r ''detail'' = Some d \<longrightarrow>
      elem_find d FEDPROV_TAG = None \<and> elem_find d FEDHOPS_TAG = None"
    and "\<forall>i \<in> set (fm_seen fm). CHR '','' \<notin> set i \<and> trimmed i \<and> i \<noteq> []"
  shows "parse_fedprov L out = Some
    \<lparr> pi_server_id = Some (lf_server_id lf), pi_chain = Some (fm_seen fm),
      pi_max_hops = Some (if fm_max_hops fm = 0 then - 1 else fm_max_hops fm),
      pi_current_hops = Some (fm_current_hops fm) \<rparr>"
proof -
  let ?ids = "fm_seen fm"
  obtain d where d: "elem_find (ensure_detail r) ''detail'' = Some d"
    and out: "elem_find (stamped_root lf (Some fm) r) ''detail'' =
       Some (append_kid (hops_of (stamp_max (Some fm)) (stamp_current (Some fm)))
              (append_kid (prov_of (lf_server_id lf) ?ids) d))"
    using stamped_detail [of r lf "Some fm"] by (auto simp: stamp_ids_def)
  have none: "elem_find d FEDPROV_TAG = None" "elem_find d FEDHOPS_TAG = None"
    using fresh_detail [OF assms(4) d] by simp_all
  have chain: "filter (\<lambda>x. x \<noteq> []) (map py_strip (py_split (CHR '','') (py_join (CHR '','') ?ids))) = ?ids"
    if "?ids \<noteq> []"
  proof -
    have "map py_strip ?ids = ?ids" using assms(5) by (simp add: map_idI py_strip_trimmed)
    then show ?thesis using that assms(5) by (simp add: py_split_join)
  qed
  have nonempty: "py_join (CHR '','') ?ids = [] \<longleftrightarrow> ?ids = []"
    using assms(5) by (cases ?ids rule: remdups_adj.cases) auto
  show ?thesis
    using stamp_inbound_parse [OF assms(1-3)] chain
    by (simp add: parse_fedprov_def out find_append_kid none read_fedprov_def read_fedhops_def
        nonempty empty_prov_def stamp_max_def stamp_current_def Let_def)
qed

theorem stamp_roundtrip_witness:
  "parse_fedprov ref_xml
     (xml_tostring ref_xml (stamped_root sample_filter (Some sample_meta) sample_event)) =
   Some \<lparr> pi_server_id = Some ''c'', pi_chain = Some [''a'', ''b''],
     pi_max_hops = Some (- 1), pi_current_hops = Some 2 \<rparr>"
proof -
  have "\<forall>d. elem_find sample_event ''detail'' = Some d \<longrightarrow>
      elem_find d FEDPROV_TAG = None \<and> elem_find d FEDHOPS_TAG = None"
    by (simp add: sample_find)
  moreover have "\<forall>i \<in> set (fm_seen sample_meta). CHR '','' \<notin> set i \<and> trimmed i \<and> i \<noteq> []"
    by (simp add: sample_meta_def trimmed_def py_ws_def)
  ultimately show ?thesis
    using stamp_roundtrip [OF ref_xml_ok sample_parse sample_stamp]
    by (simp add: sample_defs)
qed

text \<open>
  Spoof defence: the cleaned event parses to the original without the two stamp
  elements in its detail; nothing of a stamp can be read from it, no filter sees a loop in
  it, and cleaning it again changes nothing.
\<close>

theorem clean_removes_foreign_stamps:
  assumes "xml_lib_ok L" "xml_fromstring L cot_xml = Inr r"
  shows "\<exists>c. xml_fromstring L (clean_for_relay L cot_xml) = Inr c \<and>
      elem_find c ''detail'' =
        map_option (remove_kids [FEDPROV_TAG, FEDHOPS_TAG]) (elem_find r ''detail'') \<and>
      e_attrs c = e_attrs r \<and> not_looped sid c \<and>
      parse_fedprov L (clean_for_relay L cot_xml) = None \<and>
      clean_for_relay L (clean_for_relay L cot_xml) = clean_for_relay L cot_xml"
proof (cases "elem_find r ''detail''")
  case None
  with assms show ?thesis
    by (simp add: clean_for_relay_def not_looped_def parse_fedprov_def)
next
  case (Some d)
  have p: "xml_fromstring L (clean_for_relay L cot_xml) = Inr (clean_root r)"
    using clean_inbound_parse [OF assms] Some by simp
  moreover have "parse_fedprov L (clean_for_relay L cot_xml) = None"
    by (simp add: parse_fedprov_def p clean_root_detail Some elem_find_removed)
  moreover have "clean_for_relay L (clean_for_relay L cot_xml) = clean_for_relay L cot_xml"
    using assms(2) Some p
    by (simp add: clean_for_relay_def [of L "clean_for_relay L cot_xml"] clean_root_detail clean_root_idem)
      (simp add: clean_for_relay_def)
  ultimately show ?thesis
    by (simp add: clean_root_detail not_looped_clean) (simp add: clean_root_def)
qed

theorem clean_removes_foreign_stamps_witness:
  "\<exists>c. xml_fromstring ref_xml (clean_for_relay ref_xml (ser_elem sample_event)) = Inr c \<and>
      e_attrs c = [(''uid'', ''u1'')] \<and> not_looped ''c'' c"
  using clean_removes_foreign_stamps [OF ref_xml_ok sample_parse, of "''c''"]
  by (auto simp: sample_event_def)

text \<open>The filter over a sequence of events.\<close>

fun relay_all :: "xml_lib \<Rightarrow> loop_filter \<Rightarrow> (rat \<times> string) list \<Rightarrow> loop_filter" where
  "relay_all L lf [] = lf"
| "relay_all L lf ((now, cot_xml) # es) = relay_all L (snd (should_relay_outbound L lf now cot_xml)) es"

text \<open>
  C30. The dedup cache keeps its bound of 2048 entries, one per uid, over any sequence of
  events.
\<close>

theorem dedup_cache_bounded:
  "length (lf_dedup (relay_all L (new_loop_filter sid mh w) es)) \<le> 2048 \<and>
   distinct (map fst (lf_dedup (relay_all L (new_loop_filter sid mh w) es)))"
proof -
  have "filter_ok lf \<Longrightarrow> filter_ok (relay_all L lf es)" for lf
    by (induction es arbitrary: lf)
      (auto simp: should_relay_state dedup_step_ok split: sum.split)
  from this [of "new_loop_filter sid mh w"] show ?thesis
    by (simp add: filter_ok_def new_loop_filter_def dict_ok_def DEDUP_CACHE_MAX_def)
qed

text \<open>
  Duplicate suppression: after an event was relayed, another one with the same uid
  within the window is dropped, whatever it holds.
\<close>

theorem duplicate_within_window_dropped:
  assumes "should_relay_outbound L lf now cot_xml = (True, lf')" "0 < lf_window lf"
    and "xml_fromstring L cot_xml = Inr r" "elem_get r ''uid'' = Some u" "u \<noteq> []"
    and "xml_fromstring L cot_xml' = Inr r'" "elem_get r' ''uid'' = Some u"
    and "now' - now < lf_window lf"
  shows "should_relay_outbound L lf' now' cot_xml' = (False, lf')"
proof -
  have s: "dedup_step lf now u = (True, lf')"
    using assms by (auto simp: should_relay_outbound_def elem_get_or_def split: prod.splits bool.splits)
  then have "lf_window lf' = lf_window lf"
    by (auto simp: dedup_step_def Let_def split: if_splits)
  with dedup_step_remembers [OF s assms(2,5)] assms(2,5,8)
  have "dedup_step lf' now' u = (False, lf')" by (simp add: dedup_step_def)
  with assms(6,7) show ?thesis by (simp add: should_relay_outbound_def elem_get_or_def)
qed

theorem duplicate_within_window_dropped_witness:
  "\<exists>lf'. should_relay_outbound ref_xml sample_filter 5 (ser_elem sample_event) = (True, lf') \<and>
     should_relay_outbound ref_xml lf' 9 (ser_elem sample_event) = (False, lf')"
proof -
  define lf' where "lf' = sample_filter\<lparr> lf_dedup := [(''u1'', 5)] \<rparr>"
  have u: "elem_get sample_event ''uid'' = Some ''u1''"
    by (simp add: sample_event_def elem_get_def)
  have "should_relay_outbound ref_xml sample_filter 5 (ser_elem sample_event) = (True, lf')"
    by (simp add: should_relay_outbound_def sample_parse elem_get_or_def u dedup_step_def
        sample_filter_def new_loop_filter_def not_looped_def sample_find elem_findall_def
        DEDUP_CACHE_MAX_def lf'_def)
  moreover from this have "should_relay_outbound ref_xml lf' 9 (ser_elem sample_event) = (False, lf')"
    by (rule duplicate_within_window_dropped [OF _ _ sample_parse u _ sample_parse u])
      (simp_all add: sample_filter_def new_loop_filter_def)
  ultimately show ?thesis by blast
qed

end
