(* ===== verification/Eud_Cache.thy ===== *)
theory Eud_Cache
  imports Prelude
begin

text \<open>
  eud_group_cache.py: the cache of the ACL groups of a device, with a lifetime per entry
  (its keys are whatever the callers pass as uid, of type \<open>'u\<close>),
  and group_resolver.py: the lookup of the groups in the database. The clock is the
  argument \<open>now\<close> (monotonic seconds); the driver of the database is a parameter, the
  outcome of each of the two attempts of a query. The lock makes each operation atomic.
\<close>

section \<open>The cache\<close>

record 'u eud_cache =
  ec_groups :: "('u, string set) dict"
  ec_last_seen :: "('u, rat) dict"
  ec_ttl :: int

definition new_eud_cache :: "int \<Rightarrow> 'u eud_cache" where
  "new_eud_cache ttl = \<lparr> ec_groups = [], ec_last_seen = [], ec_ttl = ttl \<rparr>"

definition cache_update :: "rat \<Rightarrow> 'u \<Rightarrow> string \<Rightarrow> 'u eud_cache \<Rightarrow> 'u eud_cache" where
  "cache_update now uid group_name c =
     c\<lparr> ec_groups := dset uid
          (insert group_name (case dget (ec_groups c) uid of None \<Rightarrow> {} | Some S \<Rightarrow> S)) (ec_groups c),
        ec_last_seen := dset uid now (ec_last_seen c) \<rparr>"

definition cache_set_groups :: "rat \<Rightarrow> 'u \<Rightarrow> string set \<Rightarrow> 'u eud_cache \<Rightarrow> 'u eud_cache" where
  "cache_set_groups now uid group_names c =
     c\<lparr> ec_groups := dset uid group_names (ec_groups c),
        ec_last_seen := dset uid now (ec_last_seen c) \<rparr>"

definition forget :: "'u \<Rightarrow> 'u eud_cache \<Rightarrow> py_error + 'u eud_cache" where
  "forget uid c =
     (if dget (ec_groups c) uid = None \<or> dget (ec_last_seen c) uid = None then Inl KeyError
      else Inr (c\<lparr> ec_groups := ddel uid (ec_groups c), ec_last_seen := ddel uid (ec_last_seen c) \<rparr>))"

definition cache_get_groups ::
    "rat \<Rightarrow> 'u \<Rightarrow> 'u eud_cache \<Rightarrow> py_error + string set option \<times> 'u eud_cache" where
  "cache_get_groups now uid c =
     (case dget (ec_groups c) uid of
        None \<Rightarrow> Inr (None, c)
      | Some S \<Rightarrow>
          (case dget (ec_last_seen c) uid of
             None \<Rightarrow> Inl KeyError
           | Some ts \<Rightarrow>
               if now - ts > of_int (ec_ttl c) then rbind (forget uid c) (\<lambda>c'. Inr (None, c'))
               else Inr (Some S, c)))"

fun forget_all :: "'u list \<Rightarrow> 'u eud_cache \<Rightarrow> py_error + 'u eud_cache" where
  "forget_all [] c = Inr c"
| "forget_all (u # us) c = rbind (forget u c) (forget_all us)"

definition expired_uids :: "rat \<Rightarrow> 'u eud_cache \<Rightarrow> 'u list" where
  "expired_uids now c =
     map fst (filter (\<lambda>(uid, ts). now - ts > of_int (ec_ttl c)) (ec_last_seen c))"

definition cache_evict_expired :: "rat \<Rightarrow> 'u eud_cache \<Rightarrow> py_error + nat \<times> 'u eud_cache" where
  "cache_evict_expired now c =
     rbind (forget_all (expired_uids now c) c) (\<lambda>c'. Inr (length (expired_uids now c), c'))"

section \<open>What a cache promises\<close>

text \<open>
  The contract of a cache with entry lifetimes, over the view a reader has of it: reading
  answers from the view and does not change what later readers see, writing makes the
  value visible for the lifetime and touches no other entry, and what has left the view
  does not come back by itself.
\<close>

locale acl_cache =
  fixes inv :: "'c \<Rightarrow> bool"
    and view :: "'c \<Rightarrow> rat \<Rightarrow> 'u \<Rightarrow> string set option"
    and lifetime :: "'c \<Rightarrow> rat"
    and get :: "rat \<Rightarrow> 'u \<Rightarrow> 'c \<Rightarrow> py_error + string set option \<times> 'c"
    and put :: "rat \<Rightarrow> 'u \<Rightarrow> string set \<Rightarrow> 'c \<Rightarrow> 'c"
  assumes get_total: "inv c \<Longrightarrow> \<exists>c'. get t u c = Inr (view c t u, c')"
    and get_inv: "inv c \<Longrightarrow> get t u c = Inr (x, c') \<Longrightarrow> inv c' \<and> lifetime c' = lifetime c"
    and get_keeps: "inv c \<Longrightarrow> get t u c = Inr (x, c') \<Longrightarrow> t \<le> t' \<Longrightarrow> view c' t' u' = view c t' u'"
    and put_inv: "inv c \<Longrightarrow> inv (put t u S c) \<and> lifetime (put t u S c) = lifetime c"
    and put_view: "inv c \<Longrightarrow> view (put t u S c) t' u' =
      (if u' = u then (if t' - t \<le> lifetime c then Some S else None) else view c t' u')"
    and expires: "inv c \<Longrightarrow> view c t u = None \<Longrightarrow> t \<le> t' \<Longrightarrow> view c t' u = None"
begin

text \<open>Reading through the cache: a miss is filled from a source.\<close>

definition read_through ::
    "('u \<Rightarrow> string set option) \<Rightarrow> rat \<Rightarrow> 'u \<Rightarrow> 'c \<Rightarrow> py_error + string set option \<times> 'c" where
  "read_through src t u c =
     rbind (get t u c) (\<lambda>(x, c1).
       case x of
         Some S \<Rightarrow> Inr (Some S, c1)
       | None \<Rightarrow> (case src u of None \<Rightarrow> Inr (None, c1) | Some S \<Rightarrow> Inr (Some S, put t u S c1)))"

lemma read_through_result:
  assumes "inv c"
  shows "\<exists>c'. read_through src t u c =
      Inr (case view c t u of Some S \<Rightarrow> Some S | None \<Rightarrow> src u, c') \<and> inv c'"
proof -
  obtain c1 where c1: "get t u c = Inr (view c t u, c1)" using get_total [OF assms] by blast
  with get_inv [OF assms] put_inv show ?thesis
    by (auto simp: read_through_def split: option.split)
qed

lemma read_through_others:
  assumes "inv c" "read_through src t u c = Inr (x, c')" "u' \<noteq> u" "t \<le> t'"
  shows "view c' t' u' = view c t' u'"
proof -
  obtain y c1 where c1: "get t u c = Inr (y, c1)" using get_total [OF assms(1)] by blast
  then have "inv c1" "view c1 t' u' = view c t' u'"
    using get_inv get_keeps assms(1,4) by blast+
  with c1 assms(2,3) show ?thesis
    by (auto simp: read_through_def put_view split: option.splits)
qed

lemma read_through_cached:
  assumes "inv c" "read_through src t u c = Inr (Some S, c')" "view c t u = None"
    and "t \<le> t'" "t' - t \<le> lifetime c"
  shows "\<exists>c''. get t' u c' = Inr (Some S, c'')"
proof -
  obtain c1 where c1: "get t u c = Inr (None, c1)" using get_total [OF assms(1), of t u] assms(3) by auto
  with get_inv [OF assms(1)] have i: "inv c1" "lifetime c1 = lifetime c" by blast+
  from c1 assms(2) have "c' = put t u S c1" by (auto simp: read_through_def split: option.splits)
  with i assms(5) have "view c' t' u = Some S" "inv c'" by (simp_all add: put_view put_inv)
  with get_total show ?thesis by metis
qed

end

section \<open>The cache keeps the contract\<close>

definition cache_inv :: "'u eud_cache \<Rightarrow> bool" where
  "cache_inv c = (dict_ok (ec_groups c) \<and> dict_ok (ec_last_seen c) \<and>
     fst ` set (ec_groups c) = fst ` set (ec_last_seen c))"

text \<open>What a reader sees at a time: the groups, unless the entry has outlived its time.\<close>

definition cache_view :: "'u eud_cache \<Rightarrow> rat \<Rightarrow> 'u \<Rightarrow> string set option" where
  "cache_view c t u =
     (case dget (ec_last_seen c) u of
        None \<Rightarrow> None
      | Some ts \<Rightarrow> if t - ts > of_int (ec_ttl c) then None else dget (ec_groups c) u)"

lemma cache_inv_same_keys:
  "cache_inv c \<Longrightarrow> dget (ec_groups c) u = None \<longleftrightarrow> dget (ec_last_seen c) u = None"
  by (simp add: cache_inv_def map_of_eq_None_iff)

lemma keys_dset [simp]: "fst ` set (dset k v d) = insert k (fst ` set d)"
  by (simp add: dom_update [unfolded dom_map_of_conv_image_fst])

lemma keys_ddel [simp]: "fst ` set (ddel k d) = fst ` set d - {k}"
  by (auto simp: AList.delete_eq)

lemma cache_inv_new: "cache_inv (new_eud_cache ttl)"
  by (simp add: cache_inv_def new_eud_cache_def)

lemma cache_inv_update: "cache_inv c \<Longrightarrow> cache_inv (cache_update t u g c)"
  by (simp add: cache_inv_def cache_update_def)

lemma cache_inv_set_groups: "cache_inv c \<Longrightarrow> cache_inv (cache_set_groups t u S c)"
  by (simp add: cache_inv_def cache_set_groups_def)

lemma forget_Inr:
  "forget u c = Inr c' \<Longrightarrow> cache_inv c \<Longrightarrow> cache_inv c' \<and> ec_ttl c' = ec_ttl c \<and>
     (\<forall>u'. dget (ec_groups c') u' = (if u' = u then None else dget (ec_groups c) u')) \<and>
     (\<forall>u'. dget (ec_last_seen c') u' = (if u' = u then None else dget (ec_last_seen c) u'))"
proof -
  assume "forget u c = Inr c'" "cache_inv c"
  then have "c' = c\<lparr> ec_groups := ddel u (ec_groups c), ec_last_seen := ddel u (ec_last_seen c) \<rparr>"
    by (auto simp: forget_def split: if_splits)
  with \<open>cache_inv c\<close> show ?thesis by (simp add: cache_inv_def)
qed

lemma forget_total: "cache_inv c \<Longrightarrow> dget (ec_last_seen c) u \<noteq> None \<Longrightarrow> \<exists>c'. forget u c = Inr c'"
  using cache_inv_same_keys [of c u] by (simp add: forget_def)

lemma cache_get_cases:
  assumes "cache_inv c"
  shows "\<exists>c'. cache_get_groups t u c = Inr (cache_view c t u, c') \<and> cache_inv c' \<and> ec_ttl c' = ec_ttl c \<and>
     (\<forall>t' u'. t \<le> t' \<longrightarrow> cache_view c' t' u' = cache_view c t' u')"
proof (cases "dget (ec_last_seen c) u")
  case None
  then show ?thesis
    using assms cache_inv_same_keys [OF assms, of u] by (simp add: cache_get_groups_def cache_view_def)
next
  case (Some ts)
  then obtain S where S: "dget (ec_groups c) u = Some S"
    using cache_inv_same_keys [OF assms, of u] by auto
  show ?thesis
  proof (cases "t - ts > of_int (ec_ttl c)")
    case False
    with Some S assms show ?thesis by (simp add: cache_get_groups_def cache_view_def)
  next
    case True
    obtain c' where c': "forget u c = Inr c'" using forget_total [OF assms, of u] Some by auto
    note f = forget_Inr [OF c' assms]
    have "cache_view c' t' u' = cache_view c t' u'" if "t \<le> t'" for t' u'
    proof (cases "u' = u")
      case True
      have "t' - ts > of_int (ec_ttl c)" using that \<open>t - ts > of_int (ec_ttl c)\<close> by linarith
      with True f Some show ?thesis by (simp add: cache_view_def)
    qed (use f in \<open>simp add: cache_view_def split: option.split\<close>)
    with True Some S c' f show ?thesis by (simp add: cache_get_groups_def cache_view_def)
  qed
qed

interpretation eud: acl_cache cache_inv cache_view "\<lambda>c. of_int (ec_ttl c)"
  cache_get_groups cache_set_groups
proof unfold_locales
  fix c t u x c' S t' u'
  assume inv: "cache_inv c"
  note g = cache_get_cases [OF inv, of t u]
  show "\<exists>c'. cache_get_groups t u c = Inr (cache_view c t u, c')" using g by blast
  show "cache_get_groups t u c = Inr (x, c') \<Longrightarrow> cache_inv c' \<and> rat_of_int (ec_ttl c') = rat_of_int (ec_ttl c)"
    using g by auto
  show "cache_get_groups t u c = Inr (x, c') \<Longrightarrow> t \<le> t' \<Longrightarrow> cache_view c' t' u' = cache_view c t' u'"
    using g by auto
  show "cache_inv (cache_set_groups t u S c) \<and>
      rat_of_int (ec_ttl (cache_set_groups t u S c)) = rat_of_int (ec_ttl c)"
    using cache_inv_set_groups [OF inv] by (simp add: cache_set_groups_def)
  show "cache_view (cache_set_groups t u S c) t' u' =
      (if u' = u then if t' - t \<le> rat_of_int (ec_ttl c) then Some S else None else cache_view c t' u')"
    by (simp add: cache_view_def cache_set_groups_def split: option.split)
  show "cache_view c t u = None \<Longrightarrow> t \<le> t' \<Longrightarrow> cache_view c t' u = None"
    using cache_inv_same_keys [OF inv, of u] by (auto simp: cache_view_def split: option.splits if_splits)
qed

lemma forget_all_result:
  assumes "cache_inv c" "distinct us" "set us \<subseteq> fst ` set (ec_last_seen c)"
  shows "\<exists>c'. forget_all us c = Inr c' \<and> cache_inv c' \<and> ec_ttl c' = ec_ttl c \<and>
     (\<forall>u. dget (ec_groups c') u = (if u \<in> set us then None else dget (ec_groups c) u)) \<and>
     (\<forall>u. dget (ec_last_seen c') u = (if u \<in> set us then None else dget (ec_last_seen c) u))"
  using assms
proof (induction us arbitrary: c)
  case Nil
  then show ?case by simp
next
  case (Cons u us)
  have "dget (ec_last_seen c) u \<noteq> None" using Cons.prems(3) by (simp add: map_of_eq_None_iff)
  with forget_total [OF Cons.prems(1)] obtain c1 where c1: "forget u c = Inr c1" by blast
  note f = forget_Inr [OF this Cons.prems(1)]
  have "v \<in> fst ` set (ec_last_seen c1)" if "v \<in> set us" for v
  proof -
    have "v \<noteq> u" "dget (ec_last_seen c) v \<noteq> None"
      using that Cons.prems by (auto simp: map_of_eq_None_iff)
    with f have "dget (ec_last_seen c1) v \<noteq> None" by simp
    then show ?thesis by (simp add: map_of_eq_None_iff)
  qed
  with Cons.IH [of c1] Cons.prems(2) f obtain c' where
    "forget_all us c1 = Inr c'" "cache_inv c'" "ec_ttl c' = ec_ttl c"
    "\<forall>v. dget (ec_groups c') v = (if v \<in> set us then None else dget (ec_groups c1) v)"
    "\<forall>v. dget (ec_last_seen c') v = (if v \<in> set us then None else dget (ec_last_seen c1) v)"
    by auto
  with c1 f show ?case by auto
qed

lemma expired_uids_iff:
  assumes "cache_inv c"
  shows "u \<in> set (expired_uids now c) \<longleftrightarrow> (\<exists>ts. dget (ec_last_seen c) u = Some ts \<and> now - ts > of_int (ec_ttl c))"
proof -
  have d: "distinct (map fst (ec_last_seen c))" using assms by (simp add: cache_inv_def dict_ok_def)
  show ?thesis
    by (auto simp: expired_uids_def map_of_eq_Some_iff [OF d] image_iff split: prod.splits)
qed

lemma distinct_expired_uids: "cache_inv c \<Longrightarrow> distinct (expired_uids now c)"
  by (auto simp: expired_uids_def cache_inv_def dict_ok_def intro: distinct_map_filter)

section \<open>The database lookup\<close>

text \<open>
  One attempt: whether connecting succeeds (needed when there is no open connection), what
  the query returns, and whether closing the handle after an error raises.
\<close>

record db_attempt =
  at_connect :: "py_error option"
  at_query :: "py_error + string list"
  at_close :: "py_error option"

record group_resolver =
  gr_dburi :: "string option"
  gr_conn :: "bool option" \<comment> \<open>the handle, with whether it is closed\<close>

definition new_group_resolver :: "string option \<Rightarrow> group_resolver" where
  "new_group_resolver dburi = \<lparr> gr_dburi = dburi, gr_conn = None \<rparr>"

definition resolver_connect :: "db_attempt \<Rightarrow> group_resolver \<Rightarrow> py_error option \<times> group_resolver" where
  "resolver_connect a r =
     (if gr_dburi r = None then (Some GroupResolveError, r)
      else (case at_connect a of
              Some e \<Rightarrow> (Some e, r)
            | None \<Rightarrow> (None, r\<lparr> gr_conn := Some False \<rparr>)))"

text \<open>Connecting where needed, then the query: the answer and the handle.\<close>

definition try_query :: "db_attempt \<Rightarrow> group_resolver \<Rightarrow> (py_error + string set) \<times> group_resolver" where
  "try_query a r =
     (case (if gr_conn r = None \<or> gr_conn r = Some True then resolver_connect a r else (None, r)) of
        (Some e, r') \<Rightarrow> (Inl e, r')
      | (None, r') \<Rightarrow> (case at_query a of Inl e \<Rightarrow> (Inl e, r') | Inr rows \<Rightarrow> (Inr (set rows), r')))"

text \<open>After an error: close a handle that is there (which may raise itself) and forget it.\<close>

definition drop_handle :: "db_attempt \<Rightarrow> group_resolver \<Rightarrow> py_error option \<times> group_resolver" where
  "drop_handle a r = (if gr_conn r = None then None else at_close a, r\<lparr> gr_conn := None \<rparr>)"

fun run_query :: "db_attempt list \<Rightarrow> group_resolver \<Rightarrow> (py_error + string set) \<times> group_resolver" where
  "run_query [] r = (Inl GroupResolveError, r)"
| "run_query (a # as) r =
     (case try_query a r of
        (Inr S, r') \<Rightarrow> (Inr S, r')
      | (Inl e, r') \<Rightarrow>
          if e = GroupResolveError then (Inl e, r')
          else (case drop_handle a r' of
                  (Some e', r'') \<Rightarrow> (Inl e', r'')
                | (None, r'') \<Rightarrow> if as = [] then (Inl GroupResolveError, r'') else run_query as r''))"

text \<open>Both lookups make at most two attempts.\<close>

definition resolve ::
    "db_attempt \<Rightarrow> db_attempt \<Rightarrow> group_resolver \<Rightarrow> (py_error + string set) \<times> group_resolver" where
  "resolve a1 a2 r = run_query [a1, a2] r"

definition resolve_by_callsign ::
    "db_attempt \<Rightarrow> db_attempt \<Rightarrow> group_resolver \<Rightarrow> (py_error + string set) \<times> group_resolver" where
  "resolve_by_callsign a1 a2 r = run_query [a1, a2] r"

definition resolver_close :: "py_error option \<Rightarrow> group_resolver \<Rightarrow> py_error option \<times> group_resolver" where
  "resolver_close close_error r =
     (if gr_conn r = None then (None, r) else (close_error, r\<lparr> gr_conn := None \<rparr>))"

section \<open>Properties\<close>

text \<open>The groups that are stored for a uid, whether or not their time is over.\<close>

definition held :: "'u eud_cache \<Rightarrow> 'u \<Rightarrow> string set" where
  "held c u = (case dget (ec_groups c) u of None \<Rightarrow> {} | Some S \<Rightarrow> S)"

lemma held_view: "cache_view c t u = Some S \<Longrightarrow> held c u = S"
  by (auto simp: cache_view_def held_def split: option.splits if_splits)

lemma cache_update_view: "cache_view (cache_update now u g c) t v =
    (if v = u then if t - now \<le> of_int (ec_ttl c) then Some (insert g (held c u)) else None else cache_view c t v)"
  by (simp add: cache_view_def cache_update_def held_def split: option.split)

text \<open>
  C29. The cache refines the map with lifetimes: on every cache the operations build, a
  read never raises and returns what was last written within the lifetime; replacing the
  groups of a uid is seen by exactly the reads of this uid within the lifetime; adding one
  is seen by the same reads, as that group together with those that were held, which are
  the visible ones when the entry was alive (and the expired ones when it was not, but not yet
  removed); and eviction removes exactly what no reader sees any more, so that no read
  notices it.
\<close>

theorem cache_refines_view:
  assumes "cache_inv c" "now \<le> t"
  shows "(\<exists>c'. cache_get_groups now u c = Inr (cache_view c now u, c') \<and> cache_inv c' \<and>
        cache_view c' t v = cache_view c t v) \<and>
    cache_inv (cache_set_groups now u S c) \<and>
    cache_view (cache_set_groups now u S c) t v =
      (if v = u then if t - now \<le> of_int (ec_ttl c) then Some S else None else cache_view c t v) \<and>
    cache_inv (cache_update now u g c) \<and>
    cache_view (cache_update now u g c) t v =
      (if v = u then if t - now \<le> of_int (ec_ttl c) then Some (insert g (held c u)) else None else cache_view c t v) \<and>
    (\<forall>X. cache_view c now u = Some X \<longrightarrow> held c u = X) \<and>
    (\<exists>n c'. cache_evict_expired now c = Inr (n, c') \<and> cache_inv c' \<and>
        cache_view c' t v = cache_view c t v \<and>
        (\<forall>w. dget (ec_groups c') w \<noteq> None \<longrightarrow> cache_view c now w \<noteq> None))"
proof -
  have sub: "set (expired_uids now c) \<subseteq> fst ` set (ec_last_seen c)"
    by (auto simp: expired_uids_def image_iff)
  obtain c' where c': "forget_all (expired_uids now c) c = Inr c'" "cache_inv c'" "ec_ttl c' = ec_ttl c"
    "\<And>w. dget (ec_groups c') w = (if w \<in> set (expired_uids now c) then None else dget (ec_groups c) w)"
    "\<And>w. dget (ec_last_seen c') w = (if w \<in> set (expired_uids now c) then None else dget (ec_last_seen c) w)"
    using forget_all_result [OF assms(1) distinct_expired_uids [OF assms(1)] sub] by blast
  have "cache_view c' t v = cache_view c t v"
    using assms(2) c'(3-5) expired_uids_iff [OF assms(1), of v now]
    by (auto simp: cache_view_def split: option.split)
  moreover have "cache_view c now w \<noteq> None" if "dget (ec_groups c') w \<noteq> None" for w
    using that c'(4) expired_uids_iff [OF assms(1), of w now] cache_inv_same_keys [OF assms(1), of w]
    by (auto simp: cache_view_def split: option.splits if_splits)
  ultimately have evict: "\<exists>n c'. cache_evict_expired now c = Inr (n, c') \<and> cache_inv c' \<and>
      cache_view c' t v = cache_view c t v \<and> (\<forall>w. dget (ec_groups c') w \<noteq> None \<longrightarrow> cache_view c now w \<noteq> None)"
    using c'(1,2) by (simp add: cache_evict_expired_def)
  have get: "\<exists>c'. cache_get_groups now u c = Inr (cache_view c now u, c') \<and> cache_inv c' \<and> cache_view c' t v = cache_view c t v"
    using eud.get_total [OF assms(1), of now u] eud.get_inv [OF assms(1)] eud.get_keeps [OF assms(1) _ assms(2)] by blast
  show ?thesis
    by (intro conjI allI impI get evict cache_update_view held_view cache_inv_update [OF assms(1)] cache_inv_set_groups [OF assms(1)])
      (simp add: eud.put_view [OF assms(1)])
qed

theorem cache_refines_view_witness:
  "\<exists>c'. cache_get_groups 7 ''u'' (cache_update 6 ''u'' ''h'' (cache_set_groups 5 ''u'' {''g''} (new_eud_cache 300))) =
     Inr (Some {''h'', ''g''}, c')"
proof -
  let ?c = "cache_set_groups 5 ''u'' {''g''} (new_eud_cache 300)"
  let ?d = "cache_update 6 ''u'' ''h'' ?c"
  have n: "(5 :: rat) \<le> 6" "(6 :: rat) \<le> 7" "(7 :: rat) \<le> 7" by simp_all
  note f = cache_refines_view [OF cache_inv_new [of 300] n(1), of "''u''" "''u''" "{''g''}" "''h''"]
  have c: "cache_inv ?c" using f by (elim conjE)
  have "ec_ttl ?c = 300" by (simp add: cache_set_groups_def new_eud_cache_def)
  moreover have "cache_view ?c 6 ''u'' = Some {''g''}" using f by (elim conjE) (simp add: new_eud_cache_def)
  moreover note g = cache_refines_view [OF c n(2), of "''u''" "''u''" "{''g''}" "''h''"]
  ultimately have "cache_view ?d 7 ''u'' = Some {''h'', ''g''}" "cache_inv ?d" by (elim conjE; simp)+
  then show ?thesis using cache_refines_view [OF _ n(3), of ?d "''u''" "''u''"] by metis
qed

text \<open>
  An expired membership can come back: when an entry has outlived its time but was not
  read since, adding one group to it puts all its old groups back for a full lifetime,
  although a reader at that moment would have been told that nothing is known.
\<close>

theorem update_revives_expired_groups:
  assumes "dget (ec_groups c) u = Some S" "dget (ec_last_seen c) u = Some ts"
    and "now - ts > of_int (ec_ttl c)" "0 \<le> ec_ttl c"
  shows "cache_view c now u = None \<and> cache_view (cache_update now u g c) now u = Some (insert g S)"
  using assms by (simp add: cache_view_def cache_update_def)

theorem update_revives_expired_groups_witness:
  "cache_view (cache_update 400 ''u'' ''b'' (cache_update 0 ''u'' ''a'' (new_eud_cache 300))) 400 ''u'' =
     Some {''b'', ''a''}"
  using update_revives_expired_groups
    [of "cache_update 0 ''u'' ''a'' (new_eud_cache 300)" "''u''" "{''a''}" 0 400 "''b''"]
  by (simp add: cache_update_def new_eud_cache_def)

text \<open>
  The database lookup fails closed and heals itself: without a database address it
  always raises \<open>GroupResolveError\<close>; it returns groups only when one of its two queries
  returned those rows; a first query that fails on a broken connection is repeated on a
  fresh one.
\<close>

theorem resolver_fails_closed:
  "(gr_dburi r = None \<and> gr_conn r = None \<longrightarrow> fst (resolve a1 a2 r) = Inl GroupResolveError) \<and>
   (\<forall>S. fst (resolve a1 a2 r) = Inr S \<longrightarrow>
      (\<exists>rows. S = set rows \<and> (at_query a1 = Inr rows \<or> at_query a2 = Inr rows))) \<and>
   (at_query a1 = Inl OSError \<and> gr_conn r = Some False \<and> at_close a1 = None \<and> gr_dburi r \<noteq> None \<and>
      at_connect a2 = None \<and> at_query a2 = Inr rows \<longrightarrow>
      resolve a1 a2 r = (Inr (set rows), r\<lparr> gr_conn := Some False \<rparr>))"
  by (auto simp: resolve_def try_query_def resolver_connect_def drop_handle_def
      split: option.splits sum.splits if_splits)

theorem resolver_fails_closed_witness:
  "fst (resolve \<lparr> at_connect = None, at_query = Inr [''g''], at_close = None \<rparr>
     \<lparr> at_connect = None, at_query = Inr [''g''], at_close = None \<rparr> (new_group_resolver None)) =
   Inl GroupResolveError"
  using resolver_fails_closed [of "new_group_resolver None"
      "\<lparr> at_connect = None, at_query = Inr [''g''], at_close = None \<rparr>"]
  by (simp add: new_group_resolver_def)

end
