(* ===== verification/Ots_Bus.thy ===== *)
theory Ots_Bus
  imports Bridge Loop_Filter Eud_Cache
begin

text \<open>
  ots_bus.py: the bus between the federation engine and the server's message broker.
  \<open>inject\<close> publishes what a peer sent, \<open>on_groups_message\<close> fills the cache of ACL groups,
  \<open>on_firehose_message\<close> decides whether a local event goes out to the peers. The broker is
  a parameter: what each publish call and a reconnect answer during one call, and the
  bodies it delivers, in decoded form. The database is one too: what the two attempts of a
  lookup answer for a uid or a callsign. \<open>bus_published\<close> records the messages the broker accepted.
\<close>

section \<open>State\<close>

text \<open>
  A value of a JSON text as Python reads it, up to its equality: true and false are the
  numbers 1 and 0, and of a list or an object only matters whether it is empty. (NaN and
  the infinities, which are no JSON, are left out.) A uid is one of them, and a key of the cache.
\<close>

datatype json = Text string | Number rat | Null | Container bool

definition truthy_json :: "json \<Rightarrow> bool" where
  "truthy_json v = (case v of Text s \<Rightarrow> s \<noteq> [] | Number n \<Rightarrow> n \<noteq> 0 | Null \<Rightarrow> False | Container full \<Rightarrow> full)"

definition hashable :: "json \<Rightarrow> bool" where
  "hashable v = (case v of Container _ \<Rightarrow> False | _ \<Rightarrow> True)"

datatype exchange = Dms | Groups | Cot_Parser

record publication =
  pub_exchange :: exchange
  pub_key :: string
  pub_uid :: "string option"
  pub_cot :: string

record rmq_bus =
  bus_filter :: loop_filter
  bus_cache :: "json eud_cache"
  bus_resolver :: "group_resolver option"
  bus_inject_cot :: bool
  bus_threshold :: int
  bus_pub_ch :: bool \<comment> \<open>the publish channel is open\<close>
  bus_fail_count :: int
  bus_has_stop :: bool \<comment> \<open>\<open>start_consuming\<close> has stored the stop event\<close>
  bus_stop :: bool \<comment> \<open>the stop event of the engine is set\<close>
  bus_published :: "publication list"

definition new_bus :: "loop_filter \<Rightarrow> json eud_cache \<Rightarrow> int \<Rightarrow> bool \<Rightarrow> group_resolver option \<Rightarrow> rmq_bus" where
  "new_bus lf cache threshold inject_cot resolver =
     \<lparr> bus_filter = lf, bus_cache = cache, bus_resolver = resolver, bus_inject_cot = inject_cot,
       bus_threshold = threshold, bus_pub_ch = False, bus_fail_count = 0, bus_has_stop = False,
       bus_stop = False, bus_published = [] \<rparr>"

text \<open>\<open>connect\<close> once its connections are up; \<open>close\<close>; the start of \<open>start_consuming\<close>.\<close>

definition bus_connect :: "rmq_bus \<Rightarrow> rmq_bus" where
  "bus_connect b = b\<lparr> bus_pub_ch := True \<rparr>"

definition bus_close :: "rmq_bus \<Rightarrow> rmq_bus" where
  "bus_close b = b\<lparr> bus_pub_ch := False \<rparr>"

definition begin_consuming :: "rmq_bus \<Rightarrow> rmq_bus" where
  "begin_consuming b = b\<lparr> bus_has_stop := True \<rparr>"

text \<open>
  What the outside answers during one call of \<open>inject\<close>: the error of the \<open>i\<close>-th publish,
  the two database attempts of the \<open>j\<close>-th lookup, for its callsign, whether reconnecting succeeds.
\<close>

record rmq_env =
  re_publish :: "nat \<Rightarrow> py_error option"
  re_db :: "nat \<Rightarrow> string \<Rightarrow> db_attempt \<times> db_attempt"
  re_reconnect :: bool

section \<open>XML\<close>

definition evt_to_xml :: "py_env \<Rightarrow> event \<Rightarrow> py_error + string" where
  "evt_to_xml E evt = rbind (event_as_element evt) (\<lambda>x. Inr (xml_tostring (env_xml E) x))"

definition parse_cot_xml :: "py_env \<Rightarrow> string \<Rightarrow> event option" where
  "parse_cot_xml E cot_xml =
     (if cot_xml = [] then None
      else (case rbind (xml_fromstring (env_xml E) cot_xml) (event_from_elm E) of
              Inl _ \<Rightarrow> None | Inr evt \<Rightarrow> Some evt))"

section \<open>Inject\<close>

definition dm_reachable ::
    "db_attempt \<times> db_attempt \<Rightarrow> string list \<Rightarrow> group_resolver option \<Rightarrow> bool \<times> group_resolver option" where
  "dm_reachable db local_groups resolver =
     (case resolver of
        None \<Rightarrow> (False, None)
      | Some r \<Rightarrow>
          (case resolve_by_callsign (fst db) (snd db) r of
             (Inl _, r') \<Rightarrow> (False, Some r')
           | (Inr dest_groups, r') \<Rightarrow> (dest_groups \<inter> set local_groups \<noteq> {}, Some r')))"

text \<open>
  The callsigns of a directed event, after \<open>i\<close> publish calls and \<open>j\<close> lookups: the error
  that ended the loop, the accepted messages, and the resolver. The message to a callsign
  is \<open>mk callsign\<close>.
\<close>

fun dm_loop ::
    "rmq_env \<Rightarrow> (string \<Rightarrow> publication) \<Rightarrow> string list \<Rightarrow> nat \<Rightarrow> nat \<Rightarrow> string option list \<Rightarrow>
     group_resolver option \<Rightarrow> py_error option \<times> publication list \<times> group_resolver option" where
  "dm_loop R mk local_groups i j [] r = (None, [], r)"
| "dm_loop R mk local_groups i j (c # cs) r =
     (case c of
        None \<Rightarrow> dm_loop R mk local_groups i j cs r
      | Some callsign \<Rightarrow>
          if callsign = [] then dm_loop R mk local_groups i j cs r
          else
            (case dm_reachable (re_db R j callsign) local_groups r of
               (False, r') \<Rightarrow> dm_loop R mk local_groups i (j + 1) cs r'
             | (True, r') \<Rightarrow>
                 (case re_publish R i of
                    Some e \<Rightarrow> (Some e, [], r')
                  | None \<Rightarrow>
                      (case dm_loop R mk local_groups (i + 1) (j + 1) cs r' of
                         (err, ps, r'') \<Rightarrow> (err, mk callsign # ps, r'')))))"

fun publish_all :: "rmq_env \<Rightarrow> nat \<Rightarrow> publication list \<Rightarrow> py_error option \<times> publication list" where
  "publish_all R i [] = (None, [])"
| "publish_all R i (p # ps) =
     (case re_publish R i of
        Some e \<Rightarrow> (Some e, [])
      | None \<Rightarrow> (case publish_all R (i + 1) ps of (err, qs) \<Rightarrow> (err, p # qs)))"

definition message :: "event \<Rightarrow> string \<Rightarrow> exchange \<Rightarrow> string \<Rightarrow> publication" where
  "message evt cot_xml ex key =
     \<lparr> pub_exchange = ex, pub_key = key, pub_uid = ev_uid evt, pub_cot = cot_xml \<rparr>"

definition is_directed :: "event \<Rightarrow> bool" where
  "is_directed evt = (case ev_detail evt of None \<Rightarrow> False | Some d \<Rightarrow> has_marti d)"

definition cot_parser_message :: "event \<Rightarrow> string \<Rightarrow> publication" where
  "cot_parser_message evt cot_xml = message evt cot_xml Cot_Parser ''cot_parser''"

text \<open>The publishing block: directed events by callsign, others by group, or the fallback.\<close>

definition inject_publish ::
    "rmq_env \<Rightarrow> rmq_bus \<Rightarrow> event \<Rightarrow> string \<Rightarrow> string list option \<Rightarrow>
     py_error option \<times> publication list \<times> group_resolver option" where
  "inject_publish R b evt cot_xml local_groups =
     (if local_groups = None \<or> local_groups = Some [] then
        (case publish_all R 0 [cot_parser_message evt cot_xml] of (err, ps) \<Rightarrow> (err, ps, bus_resolver b))
      else
        (let gs = the local_groups;
             (err, ps, r) =
               (if is_directed evt
                then dm_loop R (message evt cot_xml Dms) gs 0 0 (marti_cs (the (ev_detail evt))) (bus_resolver b)
                else (case publish_all R 0 (map (\<lambda>g. message evt cot_xml Groups (g @ ''.OUT'')) gs) of
                        (err, ps) \<Rightarrow> (err, ps, bus_resolver b)))
         in
           if err = None \<and> bus_inject_cot b
           then (case publish_all R (length ps) [cot_parser_message evt cot_xml] of (e, qs) \<Rightarrow> (e, ps @ qs, r))
           else (err, ps, r)))"

text \<open>After a failed publish: count it, and at the threshold reconnect or end the engine.\<close>

definition publish_failed :: "bool \<Rightarrow> rmq_bus \<Rightarrow> rmq_bus" where
  "publish_failed reconnect b =
     (let b1 = b\<lparr> bus_fail_count := bus_fail_count b + 1 \<rparr> in
      if bus_fail_count b1 \<ge> bus_threshold b1
      then (if reconnect then b1\<lparr> bus_pub_ch := True, bus_fail_count := 0 \<rparr>
            else b1\<lparr> bus_pub_ch := False, bus_stop := bus_stop b1 \<or> bus_has_stop b1 \<rparr>)
      else b1)"

definition stamped_xml :: "py_env \<Rightarrow> rmq_bus \<Rightarrow> event \<Rightarrow> string \<Rightarrow> py_error + string" where
  "stamped_xml E b evt cot_xml =
     (case ev_fed_meta evt of
        None \<Rightarrow> Inr cot_xml
      | Some m \<Rightarrow> stamp_inbound (env_xml E) (bus_filter b) cot_xml (Some m))"

definition inject ::
    "py_env \<Rightarrow> rmq_env \<Rightarrow> 'src \<Rightarrow> event \<Rightarrow> string list option \<Rightarrow> rmq_bus \<Rightarrow> py_error option \<times> rmq_bus" where
  "inject E R src evt local_groups b =
     (case evt_to_xml E evt of
        Inl e \<Rightarrow> (Some e, b)
      | Inr xml \<Rightarrow>
          if \<not> should_inject_inbound xml (ev_fed_meta evt) then (None, b)
          else
            (case stamped_xml E b evt xml of
               Inl e \<Rightarrow> (Some e, b)
             | Inr cot_xml \<Rightarrow>
                 if \<not> bus_pub_ch b then (None, b)
                 else
                   (case inject_publish R b evt cot_xml local_groups of
                      (err, ps, r) \<Rightarrow>
                        (let b1 = b\<lparr> bus_published := bus_published b @ ps, bus_resolver := r \<rparr> in
                         (None, case err of
                            None \<Rightarrow> b1\<lparr> bus_fail_count := 0 \<rparr>
                          | Some _ \<Rightarrow> publish_failed (re_reconnect R) b1)))))"

section \<open>The groups exchange\<close>

text \<open>
  A body: no JSON (a \<open>ValueError\<close>), nested too deep for the reader (a \<open>RecursionError\<close>), JSON
  that is no object, or the members \<open>uid\<close> and \<open>cot\<close> of one.
\<close>

datatype body = Bad_Json | Too_Deep | Not_Object | Message "json option" "json option"

definition on_groups_message :: "rat \<Rightarrow> string \<Rightarrow> body \<Rightarrow> rmq_bus \<Rightarrow> py_error option \<times> rmq_bus" where
  "on_groups_message now routing_key body b =
     (if \<not> py_endswith routing_key ''.OUT'' then (None, b)
      else
        (let group_name = take (length routing_key - 4) routing_key in
         if group_name = [] then (None, b)
         else
           (case body of
              Bad_Json \<Rightarrow> (None, b)
            | Too_Deep \<Rightarrow> (Some RecursionError, b)
            | Not_Object \<Rightarrow> (Some AttributeError, b)
            | Message None _ \<Rightarrow> (None, b)
            | Message (Some uid) _ \<Rightarrow>
                if \<not> truthy_json uid then (None, b)
                else if \<not> hashable uid then (Some TypeError, b)
                else (None, b\<lparr> bus_cache := cache_update now uid group_name (bus_cache b) \<rparr>))))"

text \<open>The subscriber's loop ends the engine when the callback raises.\<close>

definition groups_delivery :: "rat \<Rightarrow> string \<Rightarrow> body \<Rightarrow> rmq_bus \<Rightarrow> rmq_bus" where
  "groups_delivery now routing_key body b =
     (case on_groups_message now routing_key body b of
        (None, b') \<Rightarrow> b'
      | (Some _, b') \<Rightarrow> b'\<lparr> bus_stop := True \<rparr>)"

section \<open>The firehose\<close>

text \<open>
  The ACL groups of the sender: from the cache, else from the database (and then cached),
  which answers \<open>db uid\<close> to the two attempts of the lookup of \<open>uid\<close>. A uid that cannot be a key
  of a dictionary raises.
\<close>

definition acl_groups_of ::
    "rat \<Rightarrow> (json \<Rightarrow> db_attempt \<times> db_attempt) \<Rightarrow> json \<Rightarrow> rmq_bus \<Rightarrow> py_error + string set option \<times> rmq_bus" where
  "acl_groups_of now db uid b =
     (if \<not> hashable uid then Inl TypeError
      else rbind (cache_get_groups now uid (bus_cache b)) (\<lambda>(cached, c).
       let b1 = b\<lparr> bus_cache := c \<rparr> in
       case cached of
         Some gs \<Rightarrow> Inr (Some gs, b1)
       | None \<Rightarrow>
           (case bus_resolver b1 of
              None \<Rightarrow> Inr (None, b1)
            | Some r \<Rightarrow>
                (case resolve (fst (db uid)) (snd (db uid)) r of
                   (Inl _, r') \<Rightarrow> Inr (None, b1\<lparr> bus_resolver := Some r' \<rparr>)
                 | (Inr gs, r') \<Rightarrow>
                     (let b2 = b1\<lparr> bus_resolver := Some r' \<rparr> in
                      if gs = {} then Inr (None, b2)
                      else Inr (Some gs, b2\<lparr> bus_cache := cache_set_groups now uid gs (bus_cache b2) \<rparr>))))))"

text \<open>
  The event handed to the manager, if any. A \<open>cot\<close> that is no string is dropped: if it is
  true, the loop filter cannot encode it and lets it pass unread, and the parser fails on it.
\<close>

definition message_uid :: "json option \<Rightarrow> json" where
  "message_uid member = (case member of None \<Rightarrow> Text ''?'' | Some u \<Rightarrow> u)"

definition on_firehose_message ::
    "py_env \<Rightarrow> rat \<Rightarrow> (json \<Rightarrow> db_attempt \<times> db_attempt) \<Rightarrow> body \<Rightarrow> rmq_bus \<Rightarrow> py_error + event option \<times> rmq_bus" where
  "on_firehose_message E now db body b =
     (case body of
        Bad_Json \<Rightarrow> Inr (None, b)
      | Too_Deep \<Rightarrow> Inl RecursionError
      | Not_Object \<Rightarrow> Inl AttributeError
      | Message uid_member (Some (Text cot_xml)) \<Rightarrow>
          (if cot_xml = [] then Inr (None, b)
           else
             (case should_relay_outbound (env_xml E) (bus_filter b) now cot_xml of
                (False, lf) \<Rightarrow> Inr (None, b\<lparr> bus_filter := lf \<rparr>)
              | (True, lf) \<Rightarrow>
                  (let b1 = b\<lparr> bus_filter := lf \<rparr> in
                   case parse_cot_xml E (clean_for_relay (env_xml E) cot_xml) of
                     None \<Rightarrow> Inr (None, b1)
                   | Some evt \<Rightarrow>
                       rbind (acl_groups_of now db (message_uid uid_member) b1) (\<lambda>(acl_groups, b2).
                         case acl_groups of
                           None \<Rightarrow> Inr (None, b2)
                         | Some gs \<Rightarrow>
                             Inr (Some (evt\<lparr> ev_local_acl_groups := Some (env_it E gs) \<rparr>), b2)))))
      | Message _ _ \<Rightarrow> Inr (None, b))"

section \<open>What is published\<close>

text \<open>
  The callsigns that are looked up for a directed event, in order; and whether the \<open>j\<close>-th lookup
  of an injection, for this callsign, found one of the groups.
\<close>

definition named :: "string option list \<Rightarrow> string list" where
  "named cs = map the (filter (\<lambda>c. c \<noteq> None \<and> c \<noteq> Some []) cs)"

definition reachable :: "rmq_env \<Rightarrow> string list \<Rightarrow> nat \<Rightarrow> string \<Rightarrow> bool" where
  "reachable R gs j callsign =
     (\<exists>rows. (at_query (fst (re_db R j callsign)) = Inr rows \<or> at_query (snd (re_db R j callsign)) = Inr rows) \<and>
        set rows \<inter> set gs \<noteq> {})"

text \<open>
  The messages an event with its mapped groups may give rise to: to the groups themselves
  when it is not directed, else to callsigns it names that are in one of the groups; to
  the parser when that is configured, or without groups.
\<close>

definition publication_allowed ::
    "rmq_env \<Rightarrow> bool \<Rightarrow> event \<Rightarrow> string list option \<Rightarrow> publication \<Rightarrow> bool" where
  "publication_allowed R cot_too evt local_groups p =
     (pub_uid p = ev_uid evt \<and>
      (case pub_exchange p of
         Groups \<Rightarrow> \<not> is_directed evt \<and> (\<exists>gs. local_groups = Some gs \<and> (\<exists>g \<in> set gs. pub_key p = g @ ''.OUT''))
       | Dms \<Rightarrow> \<exists>gs d. local_groups = Some gs \<and> ev_detail evt = Some d \<and>
           (\<exists>j < length (named (marti_cs d)). pub_key p = named (marti_cs d) ! j \<and> reachable R gs j (pub_key p))
       | Cot_Parser \<Rightarrow> cot_too \<or> local_groups = None \<or> local_groups = Some []))"

lemma run_query_rows:
  "fst (run_query as r) = Inr S \<Longrightarrow> \<exists>a \<in> set as. \<exists>rows. at_query a = Inr rows \<and> S = set rows"
  by (induction as r rule: run_query.induct)
    (auto simp: try_query_def split: prod.splits sum.splits if_splits option.splits)

lemma dm_reachable_rows:
  assumes "dm_reachable (re_db R j callsign) gs r = (True, r')"
  shows "reachable R gs j callsign"
proof -
  obtain q where q: "r = Some q" using assms by (cases r) (auto simp: dm_reachable_def)
  let ?as = "[fst (re_db R j callsign), snd (re_db R j callsign)]"
  obtain S where "fst (run_query ?as q) = Inr S" "S \<inter> set gs \<noteq> {}"
    using assms q by (auto simp: dm_reachable_def resolve_by_callsign_def split: prod.splits sum.splits)
  with run_query_rows [of ?as q S] show ?thesis by (auto simp: reachable_def)
qed

lemma named_simps [simp]:
  "named [] = []" "named (None # cs) = named cs" "named (Some c # cs) = (if c = [] then named cs else c # named cs)"
  by (simp_all add: named_def)

lemma dm_loop_messages:
  "dm_loop R mk gs i j cs r = (err, ps, r') \<Longrightarrow> p \<in> set ps \<Longrightarrow>
   \<exists>k < length (named cs). p = mk (named cs ! k) \<and> reachable R gs (j + k) (named cs ! k)"
proof (induction cs arbitrary: i j r ps err r')
  case Nil
  then show ?case by simp
next
  case (Cons c cs)
  show ?case
  proof (cases "c = None \<or> c = Some []")
    case True
    with Cons.prems(1) have "dm_loop R mk gs i j cs r = (err, ps, r')" by auto
    from Cons.IH [OF this Cons.prems(2)] True show ?thesis by auto
  next
    case False
    then obtain d where d: "c = Some d" "d \<noteq> []" by auto
    obtain ok q where q: "dm_reachable (re_db R j d) gs r = (ok, q)" by fastforce
    have later: ?thesis if "dm_loop R mk gs i' (j + 1) cs q = (e, qs, r')" "p \<in> set qs" for i' e qs
    proof -
      from Cons.IH [OF that] obtain k where "k < length (named cs)" "p = mk (named cs ! k)"
        "reachable R gs (j + 1 + k) (named cs ! k)" by blast
      with d show ?thesis by (intro exI [of _ "Suc k"]) simp
    qed
    show ?thesis
    proof (cases "ok \<and> p = mk d")
      case True
      with dm_reachable_rows [of R j d gs r q] q d show ?thesis by (intro exI [of _ 0]) simp
    next
      case False
      with Cons.prems d q obtain i' e qs where "dm_loop R mk gs i' (j + 1) cs q = (e, qs, r')" "p \<in> set qs"
        by (auto split: option.splits prod.splits bool.splits)
      then show ?thesis by (rule later)
    qed
  qed
qed

lemma publish_all_prefix: "publish_all R i ps = (err, qs) \<Longrightarrow> \<exists>rest. ps = qs @ rest \<and> (err = None \<longrightarrow> rest = [])"
proof (induction ps arbitrary: i err qs)
  case (Cons p ps)
  obtain e rs where r: "publish_all R (i + 1) ps = (e, rs)" by fastforce
  show ?case
  proof (cases "re_publish R i")
    case None
    with Cons.prems r have "qs = p # rs" "err = e" by auto
    with Cons.IH [OF r] show ?thesis by auto
  next
    case (Some x)
    then have "qs = [] \<and> err = Some x" using Cons.prems by simp
    then show ?thesis by simp
  qed
qed simp

lemma publish_all_mem: "publish_all R i ps = (err, qs) \<Longrightarrow> p \<in> set qs \<Longrightarrow> p \<in> set ps"
  using publish_all_prefix by fastforce

lemma publish_all_ok: "(\<And>k. re_publish R k = None) \<Longrightarrow> publish_all R i ps = (None, ps)"
  by (induction ps arbitrary: i) auto

lemma message_sel [simp]:
  "pub_exchange (message evt x ex k) = ex" "pub_key (message evt x ex k) = k"
  "pub_uid (message evt x ex k) = ev_uid evt" "pub_cot (message evt x ex k) = x"
  "pub_exchange (cot_parser_message evt x) = Cot_Parser" "pub_uid (cot_parser_message evt x) = ev_uid evt"
  "pub_cot (cot_parser_message evt x) = x"
  by (simp_all add: message_def cot_parser_message_def)

lemma publish_all_one: "publish_all R i [q] = (err, ps) \<Longrightarrow> p \<in> set ps \<Longrightarrow> p = q"
  using publish_all_mem by fastforce

lemma inject_publish_allowed:
  assumes "inject_publish R b evt xml gs = (err, ps, r)" "p \<in> set ps"
  shows "publication_allowed R (bus_inject_cot b) evt gs p \<and> pub_cot p = xml"
proof (cases "gs = None \<or> gs = Some []")
  case True
  with assms show ?thesis
    by (auto simp: inject_publish_def publication_allowed_def simp del: publish_all.simps
        dest!: publish_all_one split: prod.splits)
next
  case False
  then obtain hs where hs: "gs = Some hs" "hs \<noteq> []" by auto
  define direct where "direct = (if is_directed evt
      then dm_loop R (message evt xml Dms) hs 0 0 (marti_cs (the (ev_detail evt))) (bus_resolver b)
      else (case publish_all R 0 (map (\<lambda>g. message evt xml Groups (g @ ''.OUT'')) hs) of
              (err, ps) \<Rightarrow> (err, ps, bus_resolver b)))"
  obtain e1 ps1 r1 where d: "direct = (e1, ps1, r1)" by (cases direct)
  have one: "publication_allowed R (bus_inject_cot b) evt gs q \<and> pub_cot q = xml" if q: "q \<in> set ps1" for q
  proof (cases "is_directed evt")
    case True
    then obtain det where det: "ev_detail evt = Some det" by (auto simp: is_directed_def split: option.splits)
    with d True have "dm_loop R (message evt xml Dms) hs 0 0 (marti_cs det) (bus_resolver b) = (e1, ps1, r1)"
      by (simp add: direct_def)
    from dm_loop_messages [OF this q] det hs show ?thesis
      by (auto simp: publication_allowed_def)
  next
    case False
    with d q hs show ?thesis
      by (auto simp: direct_def publication_allowed_def dest!: publish_all_mem split: prod.splits)
  qed
  have "q \<in> set ps1 \<or> (bus_inject_cot b \<and> q = cot_parser_message evt xml)" if "q \<in> set ps" for q
    using assms(1) hs that d
    by (auto simp: inject_publish_def direct_def [symmetric] Let_def simp del: publish_all.simps
        dest!: publish_all_one
        split: if_splits prod.splits)
  from this [OF assms(2)] show ?thesis
  proof
    assume "p \<in> set ps1"
    with one show ?thesis by blast
  next
    assume "bus_inject_cot b \<and> p = cot_parser_message evt xml"
    then show ?thesis by (simp add: publication_allowed_def)
  qed
qed

section \<open>What an injection changes\<close>

lemma publish_failed_sel [simp]:
  "bus_published (publish_failed ok b) = bus_published b" "bus_filter (publish_failed ok b) = bus_filter b"
  "bus_cache (publish_failed ok b) = bus_cache b" "bus_inject_cot (publish_failed ok b) = bus_inject_cot b"
  "bus_threshold (publish_failed ok b) = bus_threshold b" "bus_has_stop (publish_failed ok b) = bus_has_stop b"
  by (simp_all add: publish_failed_def Let_def)

lemma inject_cases:
  assumes "inject E R src evt gs b = (err, b')"
  obtains "b' = b"
    | xml cot_xml e ps r where "evt_to_xml E evt = Inr xml" "stamped_xml E b evt xml = Inr cot_xml" "bus_pub_ch b"
        "inject_publish R b evt cot_xml gs = (e, ps, r)" "err = None"
        "b' = (case e of
             None \<Rightarrow> b\<lparr> bus_published := bus_published b @ ps, bus_resolver := r, bus_fail_count := 0 \<rparr>
           | Some _ \<Rightarrow> publish_failed (re_reconnect R)
               (b\<lparr> bus_published := bus_published b @ ps, bus_resolver := r \<rparr>))"
  using assms by (auto simp: inject_def Let_def split: sum.splits if_splits prod.splits option.splits)

lemma inject_frame:
  assumes "inject E R src evt gs b = (err, b')"
  shows "bus_filter b' = bus_filter b" "bus_cache b' = bus_cache b" "bus_inject_cot b' = bus_inject_cot b"
    "bus_threshold b' = bus_threshold b" "bus_has_stop b' = bus_has_stop b"
  using assms by (auto elim!: inject_cases split: option.splits)

lemma inject_published:
  assumes "inject E R src evt gs b = (err, b')"
  obtains ps where "bus_published b' = bus_published b @ ps"
    "\<And>p. p \<in> set ps \<Longrightarrow> publication_allowed R (bus_inject_cot b) evt gs p \<and>
       (\<exists>xml. evt_to_xml E evt = Inr xml \<and> stamped_xml E b evt xml = Inr (pub_cot p))"
proof (rule inject_cases [OF assms])
  assume "b' = b"
  then show thesis using that [of "[]"] by simp
next
  fix xml cot_xml e ps r
  assume x: "evt_to_xml E evt = Inr xml" "stamped_xml E b evt xml = Inr cot_xml"
    and p: "inject_publish R b evt cot_xml gs = (e, ps, r)"
    and b: "b' = (case e of
             None \<Rightarrow> b\<lparr> bus_published := bus_published b @ ps, bus_resolver := r, bus_fail_count := 0 \<rparr>
           | Some _ \<Rightarrow> publish_failed (re_reconnect R)
               (b\<lparr> bus_published := bus_published b @ ps, bus_resolver := r \<rparr>))"
  show thesis
    using that [of ps] inject_publish_allowed [OF p] x b by (auto split: option.splits)
qed

text \<open>The failure counter stays below the threshold, or the publish channel is closed.\<close>

definition bus_ok :: "rmq_bus \<Rightarrow> bool" where
  "bus_ok b = (0 < bus_threshold b \<and> 0 \<le> bus_fail_count b \<and>
     (bus_fail_count b < bus_threshold b \<or> \<not> bus_pub_ch b))"

lemma publish_failed_ok: "bus_ok b \<Longrightarrow> bus_ok (publish_failed ok b)"
  by (auto simp: publish_failed_def bus_ok_def Let_def)

lemma bus_ok_updates [simp]:
  "bus_ok (b\<lparr> bus_published := ps \<rparr>) = bus_ok b" "bus_ok (b\<lparr> bus_resolver := r \<rparr>) = bus_ok b"
  "bus_ok (b\<lparr> bus_cache := c \<rparr>) = bus_ok b" "bus_ok (b\<lparr> bus_filter := lf \<rparr>) = bus_ok b"
  by (simp_all add: bus_ok_def)

lemma inject_bus_ok: "bus_ok b \<Longrightarrow> inject E R src evt gs b = (err, b') \<Longrightarrow> bus_ok b'"
  by (erule inject_cases) (auto split: option.splits intro: publish_failed_ok, simp_all add: bus_ok_def)

text \<open>The bus as the sink of \<open>drain\<close>: the \<open>n\<close>-th call sees the answers \<open>Rs n\<close>.\<close>

definition inject_next ::
    "py_env \<Rightarrow> (nat \<Rightarrow> rmq_env) \<Rightarrow> 'src \<Rightarrow> event \<Rightarrow> string list option \<Rightarrow> nat \<times> rmq_bus \<Rightarrow>
     py_error option \<times> nat \<times> rmq_bus" where
  "inject_next E Rs src evt gs s =
     (case inject E (Rs (fst s)) src evt gs (snd s) of (err, b) \<Rightarrow> (err, fst s + 1, b))"

interpretation ots: event_sink "inject_next E Rs" "\<lambda>s. bus_ok (snd s) \<and> bus_inject_cot (snd s) = cot_too"
  "\<lambda>s. bus_published (snd s)" "\<lambda>e gs p. \<exists>n. publication_allowed (Rs n) cot_too e gs p"
  for E Rs cot_too
proof unfold_locales
  fix s :: "nat \<times> rmq_bus" and src :: 'a and e gs err s'
  assume i: "bus_ok (snd s) \<and> bus_inject_cot (snd s) = cot_too" "inject_next E Rs src e gs s = (err, s')"
  then have j: "inject E (Rs (fst s)) src e gs (snd s) = (err, snd s')"
    by (auto simp: inject_next_def split: prod.splits)
  show "bus_ok (snd s') \<and> bus_inject_cot (snd s') = cot_too"
    using i(1) inject_bus_ok [OF _ j] inject_frame(3) [OF j] by simp
  obtain ps where "bus_published (snd s') = bus_published (snd s) @ ps"
    "\<And>p. p \<in> set ps \<Longrightarrow> publication_allowed (Rs (fst s)) (bus_inject_cot (snd s)) e gs p"
    using inject_published [OF j] by metis
  with i(1) show "\<exists>ps. bus_published (snd s') = bus_published (snd s) @ ps \<and>
      (\<forall>p\<in>set ps. \<exists>n. publication_allowed (Rs n) cot_too e gs p)"
    by blast
qed

section \<open>Properties\<close>

text \<open>
  C6. Delivery stays within the mapped groups: injecting an event with local groups \<open>gs\<close>
  publishes to the routing keys of these groups if it is not directed, to callsigns it names
  that the database puts into one of them if it is, and, only where \<open>inject_cot_parser\<close> is
  configured, also to the parser, which shares it with everybody; nothing else, and every
  message carries the event's uid and its stamped text. When every publish call succeeds,
  an event that is not directed reaches every group of \<open>gs\<close> once, in order.
\<close>

theorem inject_stays_within_groups:
  assumes "inject E R src evt (Some gs) b = (err, b')" "gs \<noteq> []"
  shows "\<exists>ps. bus_published b' = bus_published b @ ps \<and>
    (\<forall>p \<in> set ps. publication_allowed R (bus_inject_cot b) evt (Some gs) p \<and>
       (\<exists>xml. evt_to_xml E evt = Inr xml \<and> stamped_xml E b evt xml = Inr (pub_cot p))) \<and>
    (err = None \<and> bus_pub_ch b \<and> (\<forall>i. re_publish R i = None) \<and> \<not> is_directed evt \<longrightarrow>
       map pub_key (filter (\<lambda>p. pub_exchange p = Groups) ps) = map (\<lambda>g. g @ ''.OUT'') gs)"
proof -
  obtain ps where ps: "bus_published b' = bus_published b @ ps"
    "\<And>p. p \<in> set ps \<Longrightarrow> publication_allowed R (bus_inject_cot b) evt (Some gs) p \<and>
       (\<exists>xml. evt_to_xml E evt = Inr xml \<and> stamped_xml E b evt xml = Inr (pub_cot p))"
    using inject_published [OF assms(1)] by metis
  have "map pub_key (filter (\<lambda>p. pub_exchange p = Groups) ps) = map (\<lambda>g. g @ ''.OUT'') gs"
    if h: "err = None" "bus_pub_ch b" "\<forall>i. re_publish R i = None" "\<not> is_directed evt"
  proof -
    obtain xml cot_xml where x: "evt_to_xml E evt = Inr xml" "stamped_xml E b evt xml = Inr cot_xml"
      using assms(1) h(1) by (auto simp: inject_def should_inject_inbound_def split: sum.splits)
    let ?g = "map (\<lambda>g. message evt cot_xml Groups (g @ ''.OUT'')) gs"
    let ?c = "if bus_inject_cot b then [cot_parser_message evt cot_xml] else []"
    have "inject_publish R b evt cot_xml (Some gs) = (None, ?g @ ?c, bus_resolver b)"
      using h assms(2) publish_all_ok [of R] by (simp add: inject_publish_def Let_def del: publish_all.simps)
    then have "bus_published b' = bus_published b @ ?g @ ?c"
      using assms(1) h(2) x by (auto simp: inject_def should_inject_inbound_def Let_def)
    with ps(1) have "ps = ?g @ ?c" by simp
    moreover have "filter (\<lambda>p. pub_exchange p = Groups) ?g = ?g" by (simp add: filter_id_conv)
    ultimately show ?thesis by (simp add: comp_def)
  qed
  with ps show ?thesis by blast
qed

definition quiet_env :: rmq_env where
  "quiet_env = \<lparr> re_publish = (\<lambda>_. None),
     re_db = (\<lambda>_ _. (\<lparr> at_connect = None, at_query = Inr [], at_close = None \<rparr>,
                     \<lparr> at_connect = None, at_query = Inr [], at_close = None \<rparr>)), re_reconnect = True \<rparr>"

definition no_rows :: "json \<Rightarrow> db_attempt \<times> db_attempt" where
  "no_rows _ = re_db quiet_env 0 []"

definition sample_bus :: rmq_bus where
  "sample_bus = bus_connect (new_bus sample_filter (new_eud_cache 300) 5 False None)"

lemma epoch_injected:
  "\<exists>ps. inject epoch_env quiet_env () epoch_event (Some [''a'', ''b'']) sample_bus = (None, sample_bus\<lparr> bus_published := ps \<rparr>)"
proof -
  obtain x where x: "event_as_element epoch_event = Inr x" using epoch_event_prints by blast
  have n: "ev_fed_meta epoch_event = None" "\<not> is_directed epoch_event"
    by (simp_all add: epoch_event_def new_event_def is_directed_def has_marti_def marti_cs_def detail_elm_def)
  show ?thesis
    by (simp add: inject_def evt_to_xml_def x should_inject_inbound_def stamped_xml_def n sample_bus_def
        bus_connect_def new_bus_def inject_publish_def quiet_env_def Let_def)
qed

theorem inject_stays_within_groups_witness:
  "map pub_key (filter (\<lambda>p. pub_exchange p = Groups) (bus_published
     (snd (inject epoch_env quiet_env () epoch_event (Some [''a'', ''b'']) sample_bus)))) = [''a.OUT'', ''b.OUT'']"
proof -
  obtain qs where i: "inject epoch_env quiet_env () epoch_event (Some [''a'', ''b'']) sample_bus =
      (None, sample_bus\<lparr> bus_published := qs \<rparr>)"
    using epoch_injected by blast
  have s: "bus_published sample_bus = []" "bus_pub_ch sample_bus" "\<not> is_directed epoch_event"
    "\<And>i. re_publish quiet_env i = None"
    by (simp_all add: sample_bus_def bus_connect_def new_bus_def quiet_env_def epoch_event_def new_event_def
        is_directed_def has_marti_def marti_cs_def detail_elm_def)
  from inject_stays_within_groups [OF i] s i show ?thesis by auto
qed

text \<open>What this server stamped, it never relays: it is an echo, or it does not parse.\<close>

lemma stamped_not_forwarded:
  assumes "xml_lib_ok (env_xml E)" "stamp_inbound (env_xml E) lf xml fm = Inr out"
    and "lf_server_id (bus_filter c) = lf_server_id lf"
  shows "\<exists>c'. on_firehose_message E now db (Message uid (Some (Text out))) c = Inr (None, c')"
proof (cases "xml_fromstring (env_xml E) xml")
  case (Inl e)
  with assms(2) have "out = xml" by (auto simp: stamp_inbound_def split: if_splits)
  with Inl show ?thesis
    by (auto simp: on_firehose_message_def should_relay_outbound_def clean_for_relay_def parse_cot_xml_def Let_def)
next
  case (Inr r)
  have "\<not> not_looped (lf_server_id lf) (stamped_root lf fm r)"
    by (rule not_looped_stamped) (simp add: is_echo_own)
  then have "fst (should_relay_outbound (env_xml E) (bus_filter c) now out) = False"
    using relay_of_looped [OF stamp_inbound_parse [OF assms(1) Inr assms(2)]] assms(3) by simp
  then show ?thesis
    by (cases "should_relay_outbound (env_xml E) (bus_filter c) now out")
      (auto simp: on_firehose_message_def Let_def)
qed

text \<open>
  C18. No bounce through the broker: whatever \<open>inject\<close> published for an event with federation
  provenance, when it comes back on the firehose (any number of times, under any uid, to
  any instance of this server) it is not handed to the manager, so it never reaches a peer.
\<close>

theorem injected_events_never_return:
  assumes "xml_lib_ok (env_xml E)" "inject E R src evt gs b = (err, b')"
    and "bus_published b' = bus_published b @ ps" "p \<in> set ps" "ev_fed_meta evt \<noteq> None"
    and "lf_server_id (bus_filter c) = lf_server_id (bus_filter b)"
  shows "\<exists>c'. on_firehose_message E now db (Message uid (Some (Text (pub_cot p)))) c = Inr (None, c')"
proof -
  obtain xml where "stamped_xml E b evt xml = Inr (pub_cot p)"
    using inject_published [OF assms(2)] assms(3,4) by (metis same_append_eq)
  then obtain m where "stamp_inbound (env_xml E) (bus_filter b) xml (Some m) = Inr (pub_cot p)"
    using assms(5) by (auto simp: stamped_xml_def)
  from stamped_not_forwarded [OF assms(1) this assms(6)] show ?thesis .
qed

text \<open>A federated event of the sample: what is published for it is a stamped text.\<close>

definition federated_event :: event where
  "federated_event = epoch_event\<lparr> ev_fed_meta := Some sample_meta \<rparr>"

lemma event_as_element_sidecars [simp]:
  "event_as_element (evt\<lparr> ev_fed_meta := m \<rparr>) = event_as_element evt"
  by (simp add: event_as_element_def)

lemma federated_injected:
  "\<exists>p. inject epoch_env quiet_env () federated_event (Some [''a'']) sample_bus = (None, sample_bus\<lparr> bus_published := [p] \<rparr>) \<and>
     pub_exchange p = Groups \<and> pub_uid p = Some ''u1''"
proof -
  obtain x where x: "event_as_element epoch_event = Inr x" using epoch_event_prints by blast
  have n: "\<not> is_directed federated_event"
    by (simp add: epoch_event_def federated_event_def new_event_def is_directed_def has_marti_def marti_cs_def detail_elm_def)
  have m: "ev_fed_meta federated_event = Some sample_meta" "event_as_element federated_event = Inr x"
    "ev_uid federated_event = Some ''u1''"
    by (simp_all add: federated_event_def x) (simp add: epoch_event_def new_event_def)
  have "list_all xml_text_ok (stamp_ids (Some sample_meta))" "xml_text_ok (lf_server_id sample_filter)"
    by (simp_all add: sample_meta_def stamp_ids_def sample_filter_def new_loop_filter_def xml_text_ok_def xml_char_def)
  then have "\<exists>out. stamp_inbound ref_xml sample_filter (xml_tostring ref_xml x) (Some sample_meta) = Inr out"
    using stamp_inbound_succeeds [of ref_xml "xml_tostring ref_xml x"]
    by (cases "xml_fromstring ref_xml (xml_tostring ref_xml x)") (auto simp: stamp_inbound_def ref_xml_def ref_fromstring_def split: option.splits prod.splits if_splits)
  then obtain out where "stamp_inbound ref_xml sample_filter (xml_tostring ref_xml x) (Some sample_meta) = Inr out" ..
  then show ?thesis
    by (simp add: inject_def evt_to_xml_def should_inject_inbound_def stamped_xml_def n m sample_bus_def epoch_env_def
        bus_connect_def new_bus_def inject_publish_def quiet_env_def Let_def)
qed

theorem injected_events_never_return_witness:
  "\<exists>p c'. bus_published (snd (inject epoch_env quiet_env () federated_event (Some [''a'']) sample_bus)) = [p] \<and>
     on_firehose_message epoch_env 9 no_rows (Message (Some (Text ''u1'')) (Some (Text (pub_cot p)))) sample_bus = Inr (None, c')"
proof -
  obtain p where i: "inject epoch_env quiet_env () federated_event (Some [''a'']) sample_bus =
      (None, sample_bus\<lparr> bus_published := [p] \<rparr>)"
    using federated_injected by blast
  have "bus_published sample_bus = []" by (simp add: sample_bus_def bus_connect_def new_bus_def)
  with injected_events_never_return [OF _ i, of "[p]" p sample_bus 9 no_rows "Some (Text ''u1'')"] i
  show ?thesis by (auto simp: epoch_env_def ref_xml_ok federated_event_def)
qed

text \<open>The groups of a uid, from the view or the database.\<close>

definition acl_answer ::
    "rat \<Rightarrow> (json \<Rightarrow> db_attempt \<times> db_attempt) \<Rightarrow> json \<Rightarrow> json eud_cache \<Rightarrow> group_resolver option \<Rightarrow> string set option" where
  "acl_answer now db uid c resolver =
     (case cache_view c now uid of
        Some gs \<Rightarrow> Some gs
      | None \<Rightarrow> (case resolver of None \<Rightarrow> None
               | Some r \<Rightarrow> (case fst (resolve (fst (db uid)) (snd (db uid)) r) of
                             Inl _ \<Rightarrow> None | Inr gs \<Rightarrow> if gs = {} then None else Some gs)))"

lemma acl_groups_of_result:
  assumes "cache_inv (bus_cache b)" "hashable uid"
  shows "\<exists>b'. acl_groups_of now db uid b = Inr (acl_answer now db uid (bus_cache b) (bus_resolver b), b') \<and>
      cache_inv (bus_cache b')"
proof -
  obtain c where c: "cache_get_groups now uid (bus_cache b) = Inr (cache_view (bus_cache b) now uid, c)" "cache_inv c"
    using cache_get_cases [OF assms(1)] by blast
  then show ?thesis
    by (auto simp: acl_groups_of_def assms(2) acl_answer_def Let_def cache_inv_set_groups
        split: option.split prod.split sum.split)
qed

text \<open>The groups are known: from the cache, or (not empty) from one of the attempts of the lookup of this uid.\<close>

definition acl_known ::
    "rat \<Rightarrow> (json \<Rightarrow> db_attempt \<times> db_attempt) \<Rightarrow> json eud_cache \<Rightarrow> json \<Rightarrow> string set \<Rightarrow> bool" where
  "acl_known now db c uid gs =
     (cache_view c now uid = Some gs \<or>
      gs \<noteq> {} \<and> (\<exists>rows. gs = set rows \<and> (at_query (fst (db uid)) = Inr rows \<or> at_query (snd (db uid)) = Inr rows)))"

lemma acl_answer_Some: "acl_answer now db uid c resolver = Some gs \<Longrightarrow> acl_known now db c uid gs"
  using run_query_rows [of "[fst (db uid), snd (db uid)]"]
  by (fastforce simp: acl_answer_def acl_known_def resolve_def split: option.splits sum.splits if_splits)

text \<open>The bodies whose text passes the filter and the parser, with their event; and those the callback raises for.\<close>

definition relayed_event :: "py_env \<Rightarrow> rat \<Rightarrow> loop_filter \<Rightarrow> body \<Rightarrow> event option" where
  "relayed_event E now lf body =
     (case body of
        Message _ (Some (Text cot_xml)) \<Rightarrow>
          if cot_xml \<noteq> [] \<and> fst (should_relay_outbound (env_xml E) lf now cot_xml)
          then parse_cot_xml E (clean_for_relay (env_xml E) cot_xml) else None
      | _ \<Rightarrow> None)"

definition body_uid :: "body \<Rightarrow> json" where
  "body_uid body = (case body of Message u _ \<Rightarrow> message_uid u | _ \<Rightarrow> Text ''?'')"

definition body_error :: "py_env \<Rightarrow> rat \<Rightarrow> loop_filter \<Rightarrow> body \<Rightarrow> py_error option" where
  "body_error E now lf body =
     (if body = Not_Object then Some AttributeError
      else if body = Too_Deep then Some RecursionError
      else if relayed_event E now lf body \<noteq> None \<and> \<not> hashable (body_uid body) then Some TypeError
      else None)"

lemma firehose_unrelayed:
  assumes "relayed_event E now (bus_filter b) body = None"
  shows "on_firehose_message E now db body b =
    (case body_error E now (bus_filter b) body of Some e \<Rightarrow> Inl e
     | None \<Rightarrow> (case body of
         Message _ (Some (Text cot_xml)) \<Rightarrow>
           Inr (None, if cot_xml = [] then b
                      else b\<lparr> bus_filter := snd (should_relay_outbound (env_xml E) (bus_filter b) now cot_xml) \<rparr>)
       | _ \<Rightarrow> Inr (None, b)))"
  using assms
  by (auto simp: on_firehose_message_def relayed_event_def body_error_def Let_def
      split: body.splits option.splits json.splits prod.splits bool.splits if_splits)

lemma firehose_relayed:
  assumes "relayed_event E now (bus_filter b) body = Some evt"
  shows "\<exists>lf. on_firehose_message E now db body b =
    rbind (acl_groups_of now db (body_uid body) (b\<lparr> bus_filter := lf \<rparr>)) (\<lambda>(acl_groups, b2).
      Inr (map_option (\<lambda>gs. evt\<lparr> ev_local_acl_groups := Some (env_it E gs) \<rparr>) acl_groups, b2))"
proof -
  obtain u cot_xml where m: "body = Message u (Some (Text cot_xml))" "cot_xml \<noteq> []"
    "fst (should_relay_outbound (env_xml E) (bus_filter b) now cot_xml)"
    "parse_cot_xml E (clean_for_relay (env_xml E) cot_xml) = Some evt"
    using assms by (auto simp: relayed_event_def split: body.splits option.splits json.splits if_splits)
  then obtain lf where "should_relay_outbound (env_xml E) (bus_filter b) now cot_xml = (True, lf)"
    by (cases "should_relay_outbound (env_xml E) (bus_filter b) now cot_xml") auto
  with m show ?thesis
    by (intro exI [of _ lf], cases "acl_groups_of now db (message_uid u) (b\<lparr> bus_filter := lf \<rparr>)")
      (auto simp: on_firehose_message_def body_uid_def Let_def split: option.split)
qed

text \<open>What the callback answers, for every body.\<close>

lemma firehose_answer:
  assumes "cache_inv (bus_cache b)"
  shows "case body_error E now (bus_filter b) body of
      Some e \<Rightarrow> on_firehose_message E now db body b = Inl e
    | None \<Rightarrow> \<exists>r b'. on_firehose_message E now db body b = Inr (r, b') \<and> cache_inv (bus_cache b') \<and>
        (case r of None \<Rightarrow> True
         | Some evt \<Rightarrow> \<exists>evt0 gs. relayed_event E now (bus_filter b) body = Some evt0 \<and>
             evt = evt0\<lparr> ev_local_acl_groups := Some (env_it E gs) \<rparr> \<and>
             acl_known now db (bus_cache b) (body_uid body) gs)"
proof (cases "relayed_event E now (bus_filter b) body")
  case None
  then show ?thesis
    using assms by (auto simp: firehose_unrelayed split: option.split body.split json.split)
next
  case (Some evt0)
  from firehose_relayed [OF this, of db] obtain lf where f: "on_firehose_message E now db body b =
    rbind (acl_groups_of now db (body_uid body) (b\<lparr> bus_filter := lf \<rparr>)) (\<lambda>(acl_groups, b2).
      Inr (map_option (\<lambda>gs. evt0\<lparr> ev_local_acl_groups := Some (env_it E gs) \<rparr>) acl_groups, b2))" by blast
  have o: "body \<noteq> Not_Object" "body \<noteq> Too_Deep" using Some by (auto simp: relayed_event_def)
  show ?thesis
  proof (cases "hashable (body_uid body)")
    case True
    then obtain b' where "acl_groups_of now db (body_uid body) (b\<lparr> bus_filter := lf \<rparr>) =
        Inr (acl_answer now db (body_uid body) (bus_cache b) (bus_resolver b), b')" "cache_inv (bus_cache b')"
      using acl_groups_of_result [of "b\<lparr> bus_filter := lf \<rparr>" "body_uid body" now db] assms by auto
    with True f o Some acl_answer_Some [of now db "body_uid body" "bus_cache b" "bus_resolver b"] show ?thesis
      by (cases "acl_answer now db (body_uid body) (bus_cache b) (bus_resolver b)") (auto simp: body_error_def)
  qed (use f o Some in \<open>simp add: body_error_def acl_groups_of_def\<close>)
qed

text \<open>
  C8. The outbound path fails closed: a firehose message is handed to the manager only when
  its text passes the loop filter and parses after foreign stamps are removed, and the ACL
  groups of the message's uid are known, from the cache or, not empty, from the rows the database
  has for this uid: then exactly these groups are attached. The callback raises exactly for JSON that
  is no object or nested too deep, and for a uid that is a list or an object when the text
  is relayed; otherwise the cache of groups stays consistent.
\<close>

theorem firehose_fails_closed:
  assumes "cache_inv (bus_cache b)"
  shows "case on_firehose_message E now db body b of
      Inl e \<Rightarrow> body_error E now (bus_filter b) body = Some e
    | Inr (r, b') \<Rightarrow> body_error E now (bus_filter b) body = None \<and> cache_inv (bus_cache b') \<and>
        (case r of None \<Rightarrow> True
         | Some evt \<Rightarrow>
             \<exists>uid cot_xml evt0 gs. body = Message uid (Some (Text cot_xml)) \<and>
               fst (should_relay_outbound (env_xml E) (bus_filter b) now cot_xml) \<and>
               parse_cot_xml E (clean_for_relay (env_xml E) cot_xml) = Some evt0 \<and>
               evt = evt0\<lparr> ev_local_acl_groups := Some (env_it E gs) \<rparr> \<and>
               acl_known now db (bus_cache b) (message_uid uid) gs)"
proof (cases "on_firehose_message E now db body b")
  case (Inl e)
  then show ?thesis using firehose_answer [OF assms, of E now db body] by (auto split: option.splits)
next
  case (Inr x)
  obtain r b' where x: "x = (r, b')" by (cases x)
  from Inr x firehose_answer [OF assms, of E now db body] have k: "body_error E now (bus_filter b) body = None"
    "cache_inv (bus_cache b')" by (auto split: option.splits)
  show ?thesis
  proof (cases r)
    case (Some evt)
    with Inr x k firehose_answer [OF assms, of E now db body] obtain evt0 gs where
      "relayed_event E now (bus_filter b) body = Some evt0" "evt = evt0\<lparr> ev_local_acl_groups := Some (env_it E gs) \<rparr>"
      "acl_known now db (bus_cache b) (body_uid body) gs" by auto
    with Inr x k Some show ?thesis
      by (auto simp: relayed_event_def body_uid_def split: body.splits option.splits json.splits if_splits)
  qed (use Inr x k in simp)
qed

text \<open>A minimal local event on the firehose, from a client in group \<open>g\<close>.\<close>

definition lax_env :: py_env where
  "lax_env = \<lparr> env_xml = ref_xml, env_isoparse = (\<lambda>_. Inr 0), env_it = py_sorted \<rparr>"

definition local_elem :: elem where
  "local_elem = Elem ''event'' [(''uid'', ''u1''), (''type'', ''a''), (''time'', ''t''), (''start'', ''t''), (''stale'', ''t'')]
     None [] None"

definition local_text :: string where
  "local_text = xml_tostring ref_xml local_elem"

lemma local_text_parses: "xml_fromstring (env_xml lax_env) local_text = Inr local_elem"
proof -
  have "xml_normal (xml_name_ok ref_xml) local_elem" "e_tail local_elem = None"
    by (simp_all add: local_elem_def ref_xml_def ref_name_ok_def xml_text_ok_def xml_char_def opt_text_ok_def dict_ok_def)
  then show ?thesis using ref_xml_ok by (simp add: xml_lib_ok_def local_text_def lax_env_def)
qed

definition firehose_bus :: rmq_bus where
  "firehose_bus = sample_bus\<lparr> bus_cache := cache_update 5 (Text ''u1'') ''g'' (new_eud_cache 300) \<rparr>"

lemma local_event_reads: "\<exists>evt0. parse_cot_xml lax_env local_text = Some evt0"
proof -
  have "local_text \<noteq> []"
  proof
    assume "local_text = []"
    with local_text_parses ref_xml_ok show False by (simp add: xml_lib_ok_def lax_env_def)
  qed
  then show ?thesis
    by (simp add: parse_cot_xml_def local_text_parses)
      (simp add: event_from_elm_def local_elem_def time_attr_def elem_get_def unmarshal_def lax_env_def)
qed


lemma local_elem_bare: "elem_find local_elem ''detail'' = None"
  by (simp add: local_elem_def elem_find_def elem_findall_def)

lemma local_event_forwarded:
  "\<exists>evt b'. on_firehose_message lax_env 7 db (Message (Some (Text ''u1'')) (Some (Text local_text))) firehose_bus = Inr (Some evt, b')"
proof -
  obtain evt0 where p: "parse_cot_xml lax_env local_text = Some evt0" using local_event_reads by blast
  then have ne: "local_text \<noteq> []" by (auto simp: parse_cot_xml_def)
  have clean: "clean_for_relay (env_xml lax_env) local_text = local_text"
    by (simp add: clean_for_relay_def local_text_parses local_elem_bare)
  have e: "lf_dedup (bus_filter firehose_bus) = []"
    by (simp add: firehose_bus_def sample_bus_def bus_connect_def new_bus_def sample_filter_def new_loop_filter_def)
  obtain lf0 where d: "dedup_step (bus_filter firehose_bus) 7 (elem_get_or local_elem ''uid'' []) = (True, lf0)"
    by (cases "0 < lf_window (bus_filter firehose_bus) \<and> elem_get_or local_elem ''uid'' [] \<noteq> []")
      (simp_all only: dedup_step_def e map_of.simps option.case if_True if_False Let_def prod.inject simp_thms)
  have n: "not_looped sid local_elem" for sid
    by (simp add: not_looped_def local_elem_bare)
  obtain lf where r: "should_relay_outbound (env_xml lax_env) (bus_filter firehose_bus) 7 local_text = (True, lf)"
    by (simp add: should_relay_outbound_def local_text_parses d n)
  have v: "cache_get_groups 7 (Text ''u1'') (bus_cache firehose_bus) = Inr (Some {''g''}, bus_cache firehose_bus)"
    by (simp add: firehose_bus_def cache_update_def new_eud_cache_def cache_get_groups_def)
  show ?thesis
    by (simp add: on_firehose_message_def message_uid_def hashable_def ne r clean p acl_groups_of_def v Let_def)
qed

lemma firehose_bus_view:
  "cache_inv (bus_cache firehose_bus)" "cache_view (bus_cache firehose_bus) 7 (Text ''u1'') = Some {''g''}"
  by (simp_all add: firehose_bus_def cache_inv_update cache_inv_new)
    (simp add: cache_update_def new_eud_cache_def cache_view_def)

theorem firehose_fails_closed_witness:
  "\<exists>evt b'. on_firehose_message lax_env 7 no_rows (Message (Some (Text ''u1'')) (Some (Text local_text))) firehose_bus =
     Inr (Some evt, b') \<and> ev_local_acl_groups evt = Some [''g'']"
proof -
  let ?m = "Message (Some (Text ''u1'')) (Some (Text local_text))"
  obtain evt b' where f: "on_firehose_message lax_env 7 no_rows ?m firehose_bus = Inr (Some evt, b')"
    using local_event_forwarded by blast
  have "ev_local_acl_groups evt = Some [''g'']"
    using firehose_fails_closed [OF firehose_bus_view(1), of lax_env 7 ?m no_rows] f firehose_bus_view(2)
    by (auto simp: lax_env_def py_sorted_def no_rows_def quiet_env_def acl_known_def message_uid_def)
  with f show ?thesis by blast
qed

text \<open>An injection whose first publish call fails and whose reconnect fails.\<close>

definition failing_injection :: "py_env \<Rightarrow> loop_filter \<Rightarrow> rmq_env \<times> event \<times> string list \<Rightarrow> bool" where
  "failing_injection E lf x =
     (case x of (R, evt, gs) \<Rightarrow>
        re_publish R 0 \<noteq> None \<and> \<not> re_reconnect R \<and> gs \<noteq> [] \<and> \<not> is_directed evt \<and>
        (\<exists>xml. evt_to_xml E evt = Inr xml \<and>
           (case ev_fed_meta evt of None \<Rightarrow> True
            | Some m \<Rightarrow> \<exists>out. stamp_inbound (env_xml E) lf xml (Some m) = Inr out)))"

definition inject_each :: "py_env \<Rightarrow> (rmq_env \<times> event \<times> string list) list \<Rightarrow> rmq_bus \<Rightarrow> rmq_bus" where
  "inject_each E xs b = fold (\<lambda>(R, evt, gs) b. snd (inject E R () evt (Some gs) b)) xs b"

lemma failing_injection_step:
  assumes "failing_injection E (bus_filter b) (R, evt, gs)" "bus_pub_ch b"
  shows "snd (inject E R () evt (Some gs) b) = publish_failed False b"
proof -
  obtain xml e g gs' where x: "evt_to_xml E evt = Inr xml" "re_publish R 0 = Some e" "gs = g # gs'"
    using assms(1) by (cases gs) (auto simp: failing_injection_def)
  obtain cot_xml where y: "stamped_xml E b evt xml = Inr cot_xml"
    using assms(1) x(1) by (auto simp: failing_injection_def stamped_xml_def split: option.splits)
  have "inject_publish R b evt cot_xml (Some gs) = (Some e, [], bus_resolver b)"
    using assms(1) x by (simp add: inject_publish_def failing_injection_def Let_def)
  then show ?thesis
    using assms x(1) y by (simp add: inject_def should_inject_inbound_def failing_injection_def Let_def)
qed

lemma failures_counted:
  "\<forall>x \<in> set xs. failing_injection E (bus_filter b) x \<Longrightarrow> bus_pub_ch b \<Longrightarrow>
   bus_fail_count b + int (length xs) < bus_threshold b \<Longrightarrow>
   inject_each E xs b = b\<lparr> bus_fail_count := bus_fail_count b + int (length xs) \<rparr>"
proof (induction xs arbitrary: b)
  case Nil
  then show ?case by (simp add: inject_each_def)
next
  case (Cons x xs)
  obtain R evt gs where x: "x = (R, evt, gs)" by (cases x)
  let ?b = "b\<lparr> bus_fail_count := bus_fail_count b + 1 \<rparr>"
  have "snd (inject E R () evt (Some gs) b) = ?b"
    using failing_injection_step [of E b R evt gs] Cons.prems x by (simp add: publish_failed_def Let_def)
  moreover have "inject_each E xs ?b = ?b\<lparr> bus_fail_count := bus_fail_count ?b + int (length xs) \<rparr>"
    using Cons.prems by (intro Cons.IH) simp_all
  ultimately show ?case by (simp add: inject_each_def x algebra_simps)
qed

text \<open>
  C35. A dead broker ends the engine instead of losing events for ever: counting from a
  fresh counter, the first \<open>threshold - 1\<close> consecutive failing injections change nothing
  but the counter, and with the next one, its reconnect failing too, the channel is closed
  and the stop event is set, so that the process is restarted.
\<close>

theorem repeated_failures_end_engine:
  assumes "bus_pub_ch b" "bus_has_stop b" "bus_fail_count b = 0" "0 < bus_threshold b"
    and "int (length xs) = bus_threshold b" "\<forall>x \<in> set xs. failing_injection E (bus_filter b) x"
  shows "inject_each E (butlast xs) b = b\<lparr> bus_fail_count := bus_threshold b - 1 \<rparr> \<and>
    inject_each E xs b = b\<lparr> bus_fail_count := bus_threshold b, bus_pub_ch := False, bus_stop := True \<rparr>"
proof -
  obtain ys R evt gs where xs: "xs = ys @ [(R, evt, gs)]" using assms(4,5) by (cases xs rule: rev_cases) auto
  let ?b = "b\<lparr> bus_fail_count := bus_threshold b - 1 \<rparr>"
  have n: "int (length ys) = bus_threshold b - 1" using assms(5) xs by simp
  have ys: "inject_each E ys b = ?b"
    using failures_counted [of ys E b] assms n xs by simp
  have "snd (inject E R () evt (Some gs) ?b) = publish_failed False ?b"
    using failing_injection_step [of E ?b R evt gs] assms xs by simp
  also have "\<dots> = b\<lparr> bus_fail_count := bus_threshold b, bus_pub_ch := False, bus_stop := True \<rparr>"
    using assms(2) by (simp add: publish_failed_def Let_def)
  finally show ?thesis using ys xs by (simp add: inject_each_def)
qed

definition dead_env :: rmq_env where
  "dead_env = quiet_env\<lparr> re_publish := (\<lambda>_. Some OSError), re_reconnect := False \<rparr>"

theorem repeated_failures_end_engine_witness:
  "bus_stop (inject_each epoch_env (replicate 5 (dead_env, epoch_event, [''a''])) (begin_consuming sample_bus))"
proof -
  obtain x where x: "event_as_element epoch_event = Inr x" using epoch_event_prints by blast
  have n: "ev_fed_meta epoch_event = None" "\<not> is_directed epoch_event"
    by (simp_all add: epoch_event_def new_event_def is_directed_def has_marti_def marti_cs_def detail_elm_def)
  have "failing_injection epoch_env lf (dead_env, epoch_event, [''a''])" for lf
    by (simp add: failing_injection_def dead_env_def evt_to_xml_def x n)
  moreover have "bus_pub_ch (begin_consuming sample_bus)" "bus_has_stop (begin_consuming sample_bus)"
    "bus_fail_count (begin_consuming sample_bus) = 0" "bus_threshold (begin_consuming sample_bus) = 5"
    by (simp_all add: begin_consuming_def sample_bus_def bus_connect_def new_bus_def)
  ultimately show ?thesis
    using repeated_failures_end_engine [of "begin_consuming sample_bus" "replicate 5 (dead_env, epoch_event, [''a''])" epoch_env]
    by simp
qed

text \<open>
  The engine's own deliveries fill its cache of ACL groups: a message published to a
  group's routing key, when the groups subscriber of this engine (bound to every key)
  receives it, adds that group to the cached groups of the event's uid. So the uid of a
  federated event, which the peer chose, is from then on a member of the group it was
  delivered to, and local events with that uid are relayed under it.
\<close>

theorem delivery_fills_the_group_cache:
  assumes "inject E R src evt (Some gs) b = (err, b')" "bus_published b' = bus_published b @ ps"
    and "p \<in> set ps" "pub_exchange p = Groups" "pub_uid p = Some u" "u \<noteq> []" "[] \<notin> set gs"
    and "0 \<le> ec_ttl (bus_cache c)"
  shows "\<exists>g \<in> set gs. \<exists>S. cache_view (bus_cache (groups_delivery now (pub_key p) (Message (Some (Text u)) (Some (Text (pub_cot p)))) c)) now (Text u) = Some S \<and> g \<in> S"
proof -
  obtain qs where "bus_published b' = bus_published b @ qs"
    "\<And>q. q \<in> set qs \<Longrightarrow> publication_allowed R (bus_inject_cot b) evt (Some gs) q"
    using inject_published [OF assms(1)] by metis
  with assms(2,3) have "publication_allowed R (bus_inject_cot b) evt (Some gs) p" by simp
  with assms(4) obtain g where g: "g \<in> set gs" "pub_key p = g @ ''.OUT''"
    by (auto simp: publication_allowed_def)
  with assms(5-7) have "groups_delivery now (pub_key p) (Message (Some (Text u)) (Some (Text (pub_cot p)))) c =
      c\<lparr> bus_cache := cache_update now (Text u) g (bus_cache c) \<rparr>"
    by (auto simp: groups_delivery_def on_groups_message_def truthy_json_def hashable_def suffix_def)
  moreover have "cache_view (cache_update now (Text u) g (bus_cache c)) now (Text u) =
      Some (insert g (case dget (ec_groups (bus_cache c)) (Text u) of None \<Rightarrow> {} | Some S \<Rightarrow> S))"
    using assms(8) by (simp add: cache_view_def cache_update_def)
  ultimately show ?thesis using g(1) by auto
qed

theorem delivery_fills_the_group_cache_witness:
  "\<exists>p S. inject epoch_env quiet_env () federated_event (Some [''a'']) sample_bus = (None, sample_bus\<lparr> bus_published := [p] \<rparr>) \<and>
     cache_view (bus_cache (groups_delivery 9 (pub_key p) (Message (Some (Text ''u1'')) (Some (Text (pub_cot p)))) sample_bus)) 9 (Text ''u1'') = Some S \<and>
     ''a'' \<in> S"
proof -
  obtain p where i: "inject epoch_env quiet_env () federated_event (Some [''a'']) sample_bus =
      (None, sample_bus\<lparr> bus_published := [p] \<rparr>)" "pub_exchange p = Groups" "pub_uid p = Some ''u1''"
    using federated_injected by blast
  have "bus_published (sample_bus\<lparr> bus_published := [p] \<rparr>) = bus_published sample_bus @ [p]"
    "0 \<le> ec_ttl (bus_cache sample_bus)"
    by (simp_all add: sample_bus_def bus_connect_def new_bus_def new_eud_cache_def)
  then have "\<exists>g \<in> set [''a'']. \<exists>S. cache_view (bus_cache (groups_delivery 9 (pub_key p)
      (Message (Some (Text ''u1'')) (Some (Text (pub_cot p)))) sample_bus)) 9 (Text ''u1'') = Some S \<and> g \<in> S"
    using i(2,3) by (intro delivery_fills_the_group_cache [OF i(1), where ps = "[p]"]) simp_all
  then show ?thesis using i(1) by (intro exI [of _ p]) auto
qed

end
