(* ===== verification/Group_Registry.thy ===== *)
theory Group_Registry
  imports Prelude
begin

text \<open>
  The group registry of \<open>ots_federation/groups.py\<close>: the per-peer tables that translate
  group names in each direction, the default tables of the \<open>[federation]\<close> section,
  the certificate fingerprint table, and the parser of the mapping strings of the
  configuration file. Log output is left out. \<open>models/teams.py\<close> is here too, because
  only this module still reads it.
\<close>

section \<open>State\<close>

datatype direction = DIn | DOut | DBoth

record group_map_entry =
  ge_peer_id :: string
  ge_direction :: direction
  ge_remote_group :: string
  ge_local_group :: "string option"

record registry =
  r_inbound :: "(string, (string, string option) dict) dict"
  r_outbound :: "(string, (string, string) dict) dict"
  r_announced :: "(string, string list) dict"
  r_fallback_allow :: "(string, bool) dict"
  r_default_inbound :: "(string, string option) dict option"
  r_default_outbound :: "(string, string) dict option"
  r_fingerprint_to_peer :: "(string, string) dict"

definition empty_registry :: registry where
  "empty_registry = \<lparr> r_inbound = [], r_outbound = [], r_announced = [],
     r_fallback_allow = [], r_default_inbound = None, r_default_outbound = None,
     r_fingerprint_to_peer = [] \<rparr>"

section \<open>Operations\<close>

definition dict_of :: "(string, (string, 'v) dict) dict \<Rightarrow> string \<Rightarrow> (string, 'v) dict" where
  \<comment> \<open>the value of \<open>d.setdefault(k, {})\<close>\<close>
  "dict_of d k = (case dget d k of None \<Rightarrow> [] | Some t \<Rightarrow> t)"

definition add_peer_map :: "group_map_entry \<Rightarrow> registry \<Rightarrow> registry" where
  "add_peer_map e r =
     (let pid = ge_peer_id e;
          r1 = (if ge_direction e \<in> {DIn, DBoth}
                then r\<lparr> r_inbound := dset pid
                       (dset (ge_remote_group e) (ge_local_group e) (dict_of (r_inbound r) pid))
                       (r_inbound r) \<rparr>
                else r)
      in if ge_direction e \<in> {DOut, DBoth}
         then (case ge_local_group e of
                 None \<Rightarrow> r1
               | Some out_key \<Rightarrow>
                   r1\<lparr> r_outbound := dset pid
                         (dset out_key (ge_remote_group e) (dict_of (r_outbound r1) pid))
                         (r_outbound r1) \<rparr>)
         else r1)"

definition set_fallback_allow :: "string \<Rightarrow> bool \<Rightarrow> registry \<Rightarrow> registry" where
  "set_fallback_allow pid enabled r =
     r\<lparr> r_fallback_allow := dset pid enabled (r_fallback_allow r) \<rparr>"

definition set_default_in_map :: "group_map_entry list \<Rightarrow> registry \<Rightarrow> registry" where
  "set_default_in_map es r = r\<lparr> r_default_inbound := Some
     (fold (\<lambda>e t. if ge_direction e \<in> {DIn, DBoth}
                  then dset (ge_remote_group e) (ge_local_group e) t else t) es []) \<rparr>"

definition set_default_out_map :: "group_map_entry list \<Rightarrow> registry \<Rightarrow> registry" where
  "set_default_out_map es r = r\<lparr> r_default_outbound := Some
     (fold (\<lambda>e t. if ge_direction e \<in> {DOut, DBoth}
                  then (case ge_local_group e of
                          None \<Rightarrow> t | Some out_key \<Rightarrow> dset out_key (ge_remote_group e) t)
                  else t) es []) \<rparr>"

definition register_fingerprint :: "string \<Rightarrow> string \<Rightarrow> registry \<Rightarrow> registry" where
  "register_fingerprint fp pid r =
     (if fp = [] then r
      else r\<lparr> r_fingerprint_to_peer := dset fp pid (r_fingerprint_to_peer r) \<rparr>)"

definition resolve_peer_id_by_fingerprint :: "registry \<Rightarrow> string \<Rightarrow> string option" where
  "resolve_peer_id_by_fingerprint r fp = dget (r_fingerprint_to_peer r) fp"

definition known_fingerprints :: "registry \<Rightarrow> string list" where
  "known_fingerprints r = py_sorted (fst ` set (r_fingerprint_to_peer r))"

text \<open>\<open>d[new] = d.pop(old)\<close>, guarded by \<open>old in d\<close>.\<close>

definition move_key :: "string \<Rightarrow> string \<Rightarrow> (string, 'v) dict \<Rightarrow> (string, 'v) dict" where
  "move_key old new d = (case dget d old of None \<Rightarrow> d | Some v \<Rightarrow> dset new v (ddel old d))"

definition rekey_collision :: "registry \<Rightarrow> string \<Rightarrow> bool" where
  "rekey_collision r new \<longleftrightarrow>
     dhas (r_inbound r) new \<or> dhas (r_outbound r) new \<or> dhas (r_fallback_allow r) new"

definition rekey_peer :: "string \<Rightarrow> string \<Rightarrow> registry \<Rightarrow> registry" where
  "rekey_peer old new r =
     (if old = new \<or> old = [] then r
      else if rekey_collision r new then r
      else r\<lparr> r_inbound := move_key old new (r_inbound r),
              r_outbound := move_key old new (r_outbound r),
              r_fallback_allow := move_key old new (r_fallback_allow r) \<rparr>)"

text \<open>
  The two nested lookups of \<open>map_inbound\<close>: an exact entry, else the wildcard entry.
  \<open>None\<close> is "no entry", \<open>Some None\<close> an entry that blocks.
\<close>

definition lookup_in_table :: "(string, string option) dict \<Rightarrow> string \<Rightarrow> string option option" where
  "lookup_in_table t g =
     (case dget t g of Some l \<Rightarrow> Some l | None \<Rightarrow> dget t ''*'')"

definition fallback_for :: "registry \<Rightarrow> string \<Rightarrow> string \<Rightarrow> string option" where
  "fallback_for r pid g =
     (if (case dget (r_fallback_allow r) pid of Some b \<Rightarrow> b | None \<Rightarrow> False)
      then Some g else None)"

definition map_inbound :: "registry \<Rightarrow> string \<Rightarrow> string \<Rightarrow> string option" where
  "map_inbound r pid remote_group =
     (case dget (r_inbound r) pid of
        Some peer_map \<Rightarrow>
          (case lookup_in_table peer_map remote_group of
             Some l \<Rightarrow> l
           | None \<Rightarrow> fallback_for r pid remote_group)
      | None \<Rightarrow>
          (case r_default_inbound r of
             Some t \<Rightarrow>
               (case lookup_in_table t remote_group of
                  Some l \<Rightarrow> l
                | None \<Rightarrow> fallback_for r pid remote_group)
           | None \<Rightarrow> fallback_for r pid remote_group))"

fun collect_inbound :: "registry \<Rightarrow> string \<Rightarrow> string list \<Rightarrow> string set \<Rightarrow> string set" where
  "collect_inbound r pid [] result = result"
| "collect_inbound r pid (rg # rgs) result =
     collect_inbound r pid rgs
       (case map_inbound r pid rg of Some l \<Rightarrow> insert l result | None \<Rightarrow> result)"

definition map_inbound_groups :: "registry \<Rightarrow> string \<Rightarrow> string list \<Rightarrow> string set option" where
  "map_inbound_groups r pid remote_groups =
     (if remote_groups = [] then
        (let local0 = map_inbound r pid ''*'';
             local1 = (if local0 = Some ''*'' then None else local0)
         in case local1 of Some l \<Rightarrow> Some {l} | None \<Rightarrow> None)
      else
        (let result = collect_inbound r pid remote_groups {}
         in if result = {} then None else Some result))"

definition map_outbound :: "registry \<Rightarrow> string \<Rightarrow> string \<Rightarrow> string option" where
  "map_outbound r pid local_group =
     (case dget (r_outbound r) pid of
        None \<Rightarrow> (case r_default_outbound r of
                   Some t \<Rightarrow> dget t local_group | None \<Rightarrow> None)
      | Some peer_map \<Rightarrow> dget peer_map local_group)"

fun map_outbound_groups :: "registry \<Rightarrow> string \<Rightarrow> string list \<Rightarrow> string list" where
  "map_outbound_groups r pid [] = []"
| "map_outbound_groups r pid (lg # lgs) =
     (case map_outbound r pid lg of
        Some remote \<Rightarrow> remote # map_outbound_groups r pid lgs
      | None \<Rightarrow> map_outbound_groups r pid lgs)"

definition update_from_federate_groups :: "string \<Rightarrow> string list \<Rightarrow> registry \<Rightarrow> registry" where
  "update_from_federate_groups pid gs r =
     r\<lparr> r_announced := dset pid gs (r_announced r) \<rparr>"

definition get_announced_groups :: "registry \<Rightarrow> string \<Rightarrow> string list" where
  "get_announced_groups r pid = (case dget (r_announced r) pid of Some gs \<Rightarrow> gs | None \<Rightarrow> [])"

definition known_peers :: "registry \<Rightarrow> string list" where
  "known_peers r = py_sorted (fst ` set (r_inbound r) \<union> fst ` set (r_outbound r))"

section \<open>The mapping strings\<close>

text \<open>One token of \<open>parse_group_map\<close>: no entry, one entry, or the \<open>ValueError\<close>.\<close>

definition parse_group_token :: "direction \<Rightarrow> string \<Rightarrow> py_error + group_map_entry list" where
  "parse_group_token dir raw_token =
     (let token = py_strip raw_token in
      if token = [] then Inr []
      else if CHR '':'' \<notin> set token then Inl ValueError
      else
        (let lhs = py_strip (py_before CHR '':'' token);
             rhs = py_strip (py_after CHR '':'' token)
         in if dir \<in> {DIn, DBoth} then
              Inr [\<lparr> ge_peer_id = [], ge_direction = dir, ge_remote_group = lhs,
                     ge_local_group = (if rhs = [] then None
                                       else if rhs = ''*'' then None else Some rhs) \<rparr>]
            else if lhs = ''*'' then Inr []
            else
              (let remote_name = (if rhs \<noteq> [] then Some rhs else None)
               in Inr [\<lparr> ge_peer_id = [], ge_direction = DOut,
                         ge_remote_group = (case remote_name of Some n \<Rightarrow> n | None \<Rightarrow> []),
                         ge_local_group = (if lhs \<noteq> [] then Some lhs else None) \<rparr>])))"

fun parse_group_tokens :: "direction \<Rightarrow> string list \<Rightarrow> py_error + group_map_entry list" where
  "parse_group_tokens dir [] = Inr []"
| "parse_group_tokens dir (t # ts) =
     (case parse_group_token dir t of
        Inl e \<Rightarrow> Inl e
      | Inr es \<Rightarrow> (case parse_group_tokens dir ts of
                     Inl e \<Rightarrow> Inl e | Inr es' \<Rightarrow> Inr (es @ es')))"

definition parse_group_map :: "string \<Rightarrow> direction \<Rightarrow> py_error + group_map_entry list" where
  "parse_group_map raw dir = parse_group_tokens dir (py_split CHR '','' raw)"

section \<open>Team colours\<close>

text \<open>
  \<open>UNKNOWN = "Cyan"\<close> has the value of \<open>CYAN\<close>, so Python makes it an alias: iterating
  over the enum visits fourteen members.
\<close>

datatype teams = WHITE | YELLOW | ORANGE | MAGENTA | RED | MAROON | PURPLE | DARK_BLUE
  | BLUE | CYAN | TEAL | GREEN | DARK_GREEN | BROWN

definition team_members :: "(teams \<times> string) list" where
  "team_members =
     [(WHITE, ''White''), (YELLOW, ''Yellow''), (ORANGE, ''Orange''), (MAGENTA, ''Magenta''),
      (RED, ''Red''), (MAROON, ''Maroon''), (PURPLE, ''Purple''), (DARK_BLUE, ''Dark Blue''),
      (BLUE, ''Blue''), (CYAN, ''Cyan''), (TEAL, ''Teal''), (GREEN, ''Green''),
      (DARK_GREEN, ''Dark Green''), (BROWN, ''Brown'')]"

fun find_team :: "(teams \<times> string) list \<Rightarrow> string \<Rightarrow> teams option" where
  "find_team [] name = None"
| "find_team ((m, v) # rest) name = (if v = name then Some m else find_team rest name)"

definition resolve_by_value :: "string \<Rightarrow> teams option" where
  "resolve_by_value name = find_team team_members name"


section \<open>Facts about single operations\<close>

lemma move_key_get:
  "new \<noteq> old \<Longrightarrow> \<not> dhas d new \<Longrightarrow>
   dget (move_key old new d) j = (if j = new then dget d old else if j = old then None else dget d j)"
  by (auto simp: move_key_def dhas_iff split: option.split)

lemma dict_ok_move_key [simp, intro]: "dict_ok d \<Longrightarrow> dict_ok (move_key old new d)"
  by (auto simp: move_key_def split: option.split)

lemma add_peer_map_simps [simp]:
  "dget (r_inbound (add_peer_map e r)) p =
     (if ge_direction e \<in> {DIn, DBoth} \<and> p = ge_peer_id e
      then Some (dset (ge_remote_group e) (ge_local_group e) (dict_of (r_inbound r) p))
      else dget (r_inbound r) p)"
  "dget (r_outbound (add_peer_map e r)) p =
     (case ge_local_group e of
        None \<Rightarrow> dget (r_outbound r) p
      | Some k \<Rightarrow>
          (if ge_direction e \<in> {DOut, DBoth} \<and> p = ge_peer_id e
           then Some (dset k (ge_remote_group e) (dict_of (r_outbound r) p))
           else dget (r_outbound r) p))"
  "r_fallback_allow (add_peer_map e r) = r_fallback_allow r"
  "r_default_inbound (add_peer_map e r) = r_default_inbound r"
  "r_default_outbound (add_peer_map e r) = r_default_outbound r"
  "r_fingerprint_to_peer (add_peer_map e r) = r_fingerprint_to_peer r"
  "r_announced (add_peer_map e r) = r_announced r"
  by (auto simp: add_peer_map_def Let_def split: option.split)

lemma collect_inbound_eq:
  "collect_inbound r pid gs acc = acc \<union> {l. \<exists>g \<in> set gs. map_inbound r pid g = Some l}"
  by (induction r pid gs acc rule: collect_inbound.induct) (auto split: option.splits)

lemma finite_collect_inbound [simp, intro]:
  "finite acc \<Longrightarrow> finite (collect_inbound r pid gs acc)"
  by (induction r pid gs acc rule: collect_inbound.induct) (auto split: option.splits)

lemma map_inbound_groups_Nil:
  "map_inbound_groups r pid [] =
     (case map_inbound r pid ''*'' of
        Some l \<Rightarrow> (if l = ''*'' then None else Some {l}) | None \<Rightarrow> None)"
  by (auto simp: map_inbound_groups_def Let_def split: option.split)

lemma map_inbound_groups_Cons:
  "gs \<noteq> [] \<Longrightarrow> map_inbound_groups r pid gs =
     (if \<forall>g \<in> set gs. map_inbound r pid g = None then None
      else Some {l. \<exists>g \<in> set gs. map_inbound r pid g = Some l})"
  by (auto simp: map_inbound_groups_def collect_inbound_eq Let_def)

lemma map_outbound_groups_set:
  "g \<in> set (map_outbound_groups r pid ls) \<longleftrightarrow> (\<exists>l \<in> set ls. map_outbound r pid l = Some g)"
  by (induction r pid ls rule: map_outbound_groups.induct) (auto split: option.splits)

lemma map_outbound_groups_map_filter:
  "map_outbound_groups r pid ls = List.map_filter (map_outbound r pid) ls"
  by (induction r pid ls rule: map_outbound_groups.induct)
    (auto simp: List.map_filter_simps split: option.splits)

section \<open>The policy interface\<close>

text \<open>
  What the transport (\<open>client.py\<close>, \<open>fed_server.py\<close>) and the codec rely on when they hold
  a registry: an admitted event has at least one local group, and the group names an
  outbound event is tagged with are those the peer's policy permits for one of the
  event's local groups. The lemmas of the clients follow from these laws alone.
\<close>

locale group_policy =
  fixes map_in :: "'r \<Rightarrow> string \<Rightarrow> string list \<Rightarrow> string set option"
    and map_out :: "'r \<Rightarrow> string \<Rightarrow> string list \<Rightarrow> string list"
    and permits_out :: "'r \<Rightarrow> string \<Rightarrow> string \<Rightarrow> string \<Rightarrow> bool"
  assumes in_nonempty: "map_in r p gs = Some S \<Longrightarrow> S \<noteq> {}"
    and in_finite: "map_in r p gs = Some S \<Longrightarrow> finite S"
    and out_permitted: "g \<in> set (map_out r p ls) \<longleftrightarrow> (\<exists>l \<in> set ls. permits_out r p l g)"
begin

lemma out_Nil [simp]: "map_out r p [] = []"
  using out_permitted [of _ r p "[]"] by (cases "map_out r p []") auto

lemma out_mono: "set ls \<subseteq> set ls' \<Longrightarrow> set (map_out r p ls) \<subseteq> set (map_out r p ls')"
  using out_permitted by blast

lemma out_order: "set ls = set ls' \<Longrightarrow> set (map_out r p ls) = set (map_out r p ls')"
  by (simp add: equalityI out_mono)

lemma out_blocked_iff: "map_out r p ls = [] \<longleftrightarrow> (\<forall>l \<in> set ls. \<forall>g. \<not> permits_out r p l g)"
  using out_permitted [of _ r p ls] by (metis empty_iff empty_set last_in_set)

lemma out_blocked_order: "set ls = set ls' \<Longrightarrow> (map_out r p ls = []) = (map_out r p ls' = [])"
  by (simp add: out_blocked_iff)

end

interpretation reg_policy: group_policy map_inbound_groups map_outbound_groups
  "\<lambda>r p l g. map_outbound r p l = Some g"
proof unfold_locales
  fix r p gs S
  assume "map_inbound_groups r p gs = Some S"
  then show "S \<noteq> {}" and "finite S"
    by (auto simp: map_inbound_groups_def Let_def split: if_splits option.splits)
qed (rule map_outbound_groups_set)

section \<open>Well-formed registries\<close>

text \<open>Every dictionary of the registry has one value per key, as a Python dict has.\<close>

definition dicts_ok :: "(string, (string, 'v) dict) dict \<Rightarrow> bool" where
  "dicts_ok d \<longleftrightarrow> dict_ok d \<and> (\<forall>t \<in> snd ` set d. dict_ok t)"

definition registry_ok :: "registry \<Rightarrow> bool" where
  "registry_ok r \<longleftrightarrow>
     dicts_ok (r_inbound r) \<and> dicts_ok (r_outbound r) \<and>
     dict_ok (r_announced r) \<and> dict_ok (r_fallback_allow r) \<and>
     pred_option dict_ok (r_default_inbound r) \<and>
     pred_option dict_ok (r_default_outbound r) \<and>
     dict_ok (r_fingerprint_to_peer r)"

lemma dset_values: "snd ` set (dset k v d) \<subseteq> insert v (snd ` set d)"
  by (induction d) auto

lemma ddel_values: "snd ` set (ddel k d) \<subseteq> snd ` set d"
  by (induction d) auto

lemma dicts_ok_Nil [simp, intro]: "dicts_ok []"
  by (simp add: dicts_ok_def)

lemma dicts_ok_get: "dicts_ok d \<Longrightarrow> dget d k = Some t \<Longrightarrow> dict_ok t"
  unfolding dicts_ok_def by (force dest: map_of_SomeD)

lemma dicts_ok_dict_of [simp, intro]: "dicts_ok d \<Longrightarrow> dict_ok (dict_of d k)"
  by (auto simp: dict_of_def dest: dicts_ok_get split: option.split)

lemma dicts_ok_dset [simp, intro]: "dicts_ok d \<Longrightarrow> dict_ok v \<Longrightarrow> dicts_ok (dset k v d)"
  using dset_values [of k v d] unfolding dicts_ok_def by blast

lemma dicts_ok_ddel [simp, intro]: "dicts_ok d \<Longrightarrow> dicts_ok (ddel k d)"
  using ddel_values [of k d] unfolding dicts_ok_def by blast

lemma dicts_ok_move_key [simp, intro]: "dicts_ok d \<Longrightarrow> dicts_ok (move_key old new d)"
  by (auto simp: move_key_def dest: dicts_ok_get split: option.split)

lemma fold_dict_ok:
  "(\<And>e t. dict_ok t \<Longrightarrow> dict_ok (f e t)) \<Longrightarrow> dict_ok t \<Longrightarrow> dict_ok (fold f es t)"
  by (induction es arbitrary: t) auto

lemma registry_ok_empty: "registry_ok empty_registry"
  by (simp add: registry_ok_def empty_registry_def)

lemma registry_ok_add_peer_map: "registry_ok r \<Longrightarrow> registry_ok (add_peer_map e r)"
  by (simp add: registry_ok_def add_peer_map_def Let_def split: option.split)

lemma registry_ok_set_fallback_allow: "registry_ok r \<Longrightarrow> registry_ok (set_fallback_allow p b r)"
  by (simp add: registry_ok_def set_fallback_allow_def)

lemma registry_ok_set_default_in_map: "registry_ok r \<Longrightarrow> registry_ok (set_default_in_map es r)"
  unfolding registry_ok_def set_default_in_map_def by (simp add: fold_dict_ok)

lemma registry_ok_set_default_out_map: "registry_ok r \<Longrightarrow> registry_ok (set_default_out_map es r)"
  unfolding registry_ok_def set_default_out_map_def
  by (simp add: fold_dict_ok split: option.split)

lemma registry_ok_register_fingerprint: "registry_ok r \<Longrightarrow> registry_ok (register_fingerprint f p r)"
  by (simp add: registry_ok_def register_fingerprint_def)

lemma registry_ok_rekey_peer: "registry_ok r \<Longrightarrow> registry_ok (rekey_peer a b r)"
  by (simp add: registry_ok_def rekey_peer_def)

lemma registry_ok_update_from_federate_groups:
  "registry_ok r \<Longrightarrow> registry_ok (update_from_federate_groups p gs r)"
  by (simp add: registry_ok_def update_from_federate_groups_def)

lemmas registry_ok_ops =
  registry_ok_empty registry_ok_add_peer_map registry_ok_set_fallback_allow
  registry_ok_set_default_in_map registry_ok_set_default_out_map
  registry_ok_register_fingerprint registry_ok_rekey_peer
  registry_ok_update_from_federate_groups


section \<open>What a configuration string means\<close>

text \<open>
  The policy an operator writes is a list of pairs. The last pair for a name counts, a
  name without a pair falls to the last pair for the wildcard, and a name with neither
  has no decision.
\<close>

definition policy_decision :: "(string \<times> string option) list \<Rightarrow> string \<Rightarrow> string option option" where
  "policy_decision ps g =
     (case map_of (rev ps) g of Some l \<Rightarrow> Some l | None \<Rightarrow> map_of (rev ps) ''*'')"

definition entry_pair :: "group_map_entry \<Rightarrow> string \<times> string option" where
  "entry_pair e = (ge_remote_group e, ge_local_group e)"

lemma fold_dset_get:
  "dget (fold (\<lambda>e. dset (k e) (v e)) es t) g =
     (case map_of (rev (map (\<lambda>e. (k e, v e)) es)) g of Some l \<Rightarrow> Some l | None \<Rightarrow> dget t g)"
  by (induction es arbitrary: t) (auto simp: map_add_def split: option.split)

lemma dict_of_add_peer_map:
  "ge_peer_id e = pid \<Longrightarrow> ge_direction e = DIn \<Longrightarrow>
   dict_of (r_inbound (add_peer_map e r)) pid =
     dset (ge_remote_group e) (ge_local_group e) (dict_of (r_inbound r) pid)"
  by (simp add: dict_of_def)

lemma dict_of_after_entries:
  "\<forall>e \<in> set es. ge_peer_id e = pid \<and> ge_direction e = DIn \<Longrightarrow>
   dict_of (r_inbound (fold add_peer_map es r)) pid =
     fold (\<lambda>e. dset (ge_remote_group e) (ge_local_group e)) es (dict_of (r_inbound r) pid)"
proof (induction es arbitrary: r)
  case (Cons e es)
  from Cons.prems have "ge_peer_id e = pid" and "ge_direction e = DIn" by simp_all
  then have "dict_of (r_inbound (add_peer_map e r)) pid =
      dset (ge_remote_group e) (ge_local_group e) (dict_of (r_inbound r) pid)"
    by (rule dict_of_add_peer_map)
  moreover have "\<forall>e \<in> set es. ge_peer_id e = pid \<and> ge_direction e = DIn"
    using Cons.prems by simp
  ultimately show ?case
    using Cons.IH [of "add_peer_map e r"] by simp
qed simp

lemma inbound_stays_configured:
  "dget (r_inbound r) pid \<noteq> None \<Longrightarrow> dget (r_inbound (fold add_peer_map es r)) pid \<noteq> None"
proof (induction es arbitrary: r)
  case (Cons e es)
  then have "dget (r_inbound (add_peer_map e r)) pid \<noteq> None" by simp
  then show ?case unfolding fold_simps by (rule Cons.IH)
qed simp

lemma inbound_after_entries:
  assumes "\<forall>e \<in> set es. ge_peer_id e = pid \<and> ge_direction e = DIn" and "es \<noteq> []"
  shows "dget (r_inbound (fold add_peer_map es r)) pid =
     Some (fold (\<lambda>e. dset (ge_remote_group e) (ge_local_group e)) es (dict_of (r_inbound r) pid))"
proof -
  obtain e es' where es: "es = e # es'" using assms(2) by (cases es) auto
  have "dget (r_inbound (add_peer_map e r)) pid \<noteq> None" using assms(1) es by simp
  then have "dget (r_inbound (fold add_peer_map es r)) pid \<noteq> None"
    unfolding es fold_simps by (rule inbound_stays_configured)
  with dict_of_after_entries [OF assms(1), of r] show ?thesis
    by (auto simp: dict_of_def)
qed

lemma add_entries_frame [simp]:
  "r_fallback_allow (fold add_peer_map es r) = r_fallback_allow r"
  "r_default_inbound (fold add_peer_map es r) = r_default_inbound r"
  "r_default_outbound (fold add_peer_map es r) = r_default_outbound r"
  "r_fingerprint_to_peer (fold add_peer_map es r) = r_fingerprint_to_peer r"
  by (induction es arbitrary: r) auto

lemma fallback_for_cong:
  "r_fallback_allow r = r_fallback_allow r' \<Longrightarrow> fallback_for r = fallback_for r'"
  by (simp add: fallback_for_def fun_eq_iff)

lemma lookup_in_table_fold:
  "lookup_in_table (fold (\<lambda>e. dset (ge_remote_group e) (ge_local_group e)) es []) g =
     policy_decision (map entry_pair es) g"
  by (simp add: lookup_in_table_def policy_decision_def fold_dset_get entry_pair_def [abs_def]
      split: option.split)

lemma map_inbound_after_entries:
  assumes "\<forall>e \<in> set es. ge_peer_id e = pid \<and> ge_direction e = DIn" and "es \<noteq> []"
    and "dget (r_inbound r) pid = None"
  shows "map_inbound (fold add_peer_map es r) pid g =
     (case policy_decision (map entry_pair es) g of Some l \<Rightarrow> l | None \<Rightarrow> fallback_for r pid g)"
proof -
  have "dget (r_inbound (fold add_peer_map es r)) pid =
      Some (fold (\<lambda>e. dset (ge_remote_group e) (ge_local_group e)) es [])"
    using inbound_after_entries [OF assms(1,2), of r] assms(3) by (simp add: dict_of_def)
  moreover have "fallback_for (fold add_peer_map es r) = fallback_for r"
    by (rule fallback_for_cong) simp
  ultimately show ?thesis
    by (simp add: map_inbound_def lookup_in_table_fold split: option.split)
qed

section \<open>Parsing and printing\<close>

text \<open>
  A name a mapping string can carry: trimmed, without the separators. The right side of
  an inbound pair is a name or, to block, nothing; a right side of \<open>*\<close> also blocks.
\<close>

definition clean_name :: "string \<Rightarrow> bool" where
  "clean_name s \<longleftrightarrow> trimmed s \<and> CHR '','' \<notin> set s \<and> CHR '':'' \<notin> set s"

definition clean_in_pair :: "string \<times> string option \<Rightarrow> bool" where
  "clean_in_pair p \<longleftrightarrow> clean_name (fst p) \<and>
     (case snd p of None \<Rightarrow> True | Some l \<Rightarrow> clean_name l \<and> l \<noteq> [] \<and> l \<noteq> ''*'')"

definition print_pair :: "string \<times> string option \<Rightarrow> string" where
  "print_pair p = fst p @ '':'' @ (case snd p of None \<Rightarrow> [] | Some l \<Rightarrow> l)"

definition print_group_map :: "(string \<times> string option) list \<Rightarrow> string" where
  "print_group_map ps = py_join CHR '','' (map print_pair ps)"

definition in_entry :: "string \<times> string option \<Rightarrow> group_map_entry" where
  "in_entry p = \<lparr> ge_peer_id = [], ge_direction = DIn,
     ge_remote_group = fst p, ge_local_group = snd p \<rparr>"

lemma colon_not_ws: "\<not> py_ws CHR '':''"
  by (simp add: py_ws_def)

lemma trimmed_around_colon: "trimmed a \<Longrightarrow> trimmed b \<Longrightarrow> trimmed (a @ '':'' @ b)"
  by (cases a; cases b rule: rev_cases) (auto simp: trimmed_def colon_not_ws)

lemma parse_group_token_print:
  assumes "clean_in_pair p"
  shows "parse_group_token DIn (print_pair p) = Inr [in_entry p]"
proof -
  obtain a l where p: "p = (a, l)" by (cases p)
  define b where "b = (case l of None \<Rightarrow> [] | Some x \<Rightarrow> x)"
  have a: "trimmed a" "CHR '':'' \<notin> set a" and b: "trimmed b"
    using assms by (auto simp: p clean_in_pair_def clean_name_def b_def split: option.splits)
  have tok: "py_strip (a @ CHR '':'' # b) = a @ CHR '':'' # b"
    using trimmed_around_colon [OF a(1) b] by (simp add: py_strip_trimmed)
  have l: "(if b = [] then None else if b = ''*'' then None else Some b) = l"
    using assms by (auto simp: p clean_in_pair_def b_def split: option.splits)
  show ?thesis
    using a b l tok unfolding parse_group_token_def print_pair_def p in_entry_def
    by (auto simp: b_def [symmetric] Let_def py_before_no_sep py_after_no_sep py_strip_trimmed)
qed

lemma parse_group_tokens_print:
  "\<forall>p \<in> set ps. clean_in_pair p \<Longrightarrow>
   parse_group_tokens DIn (map print_pair ps) = Inr (map in_entry ps)"
  by (induction ps) (auto simp: parse_group_token_print)

lemma comma_not_in_print: "clean_in_pair p \<Longrightarrow> CHR '','' \<notin> set (print_pair p)"
  by (auto simp: clean_in_pair_def clean_name_def print_pair_def split: option.splits)

lemma parse_print_group_map:
  assumes "\<forall>p \<in> set ps. clean_in_pair p"
  shows "parse_group_map (print_group_map ps) DIn = Inr (map in_entry ps)"
proof (cases ps)
  case Nil
  then show ?thesis
    by (simp add: parse_group_map_def print_group_map_def parse_group_token_def)
next
  case (Cons q qs)
  then have "py_split CHR '','' (print_group_map ps) = map print_pair ps"
    unfolding print_group_map_def
    using assms by (intro py_split_join) (auto simp: comma_not_in_print)
  with assms show ?thesis
    by (simp add: parse_group_map_def parse_group_tokens_print)
qed

lemma parse_group_token_in:
  "parse_group_token dir t = Inr es \<Longrightarrow> e \<in> set es \<Longrightarrow>
   ge_peer_id e = [] \<and> ge_direction e = dir"
  by (cases dir) (auto simp: parse_group_token_def Let_def split: if_splits)

lemma parse_group_tokens_in:
  "parse_group_tokens dir ts = Inr es \<Longrightarrow> e \<in> set es \<Longrightarrow>
   ge_peer_id e = [] \<and> ge_direction e = dir"
  by (induction ts arbitrary: es)
    (auto dest: parse_group_token_in split: sum.splits)

lemma parse_group_token_error_iff:
  "(\<exists>e. parse_group_token dir t = Inl e) \<longleftrightarrow> py_strip t \<noteq> [] \<and> CHR '':'' \<notin> set (py_strip t)"
  by (simp add: parse_group_token_def Let_def)

lemma parse_group_tokens_error_iff:
  "(\<exists>e. parse_group_tokens dir ts = Inl e) \<longleftrightarrow> (\<exists>t \<in> set ts. \<exists>e. parse_group_token dir t = Inl e)"
  by (induction ts) (auto split: sum.splits)


lemma rekey_peer_other:
  "p \<noteq> old \<Longrightarrow> p \<noteq> new \<Longrightarrow>
   dget (r_inbound (rekey_peer old new r)) p = dget (r_inbound r) p \<and>
   dget (r_outbound (rekey_peer old new r)) p = dget (r_outbound r) p \<and>
   dget (r_fallback_allow (rekey_peer old new r)) p = dget (r_fallback_allow r) p"
  by (auto simp: rekey_peer_def move_key_def split: option.split)

lemma rekey_peer_new:
  assumes "old \<noteq> new" and "old \<noteq> []" and "\<not> rekey_collision r new"
  shows "dget (r_inbound (rekey_peer old new r)) new = dget (r_inbound r) old"
    and "dget (r_outbound (rekey_peer old new r)) new = dget (r_outbound r) old"
    and "dget (r_fallback_allow (rekey_peer old new r)) new = dget (r_fallback_allow r) old"
    and "r_default_inbound (rekey_peer old new r) = r_default_inbound r"
    and "r_default_outbound (rekey_peer old new r) = r_default_outbound r"
  using assms by (auto simp: rekey_peer_def rekey_collision_def move_key_get)

lemma map_inbound_cong:
  "dget (r_inbound r) p = dget (r_inbound r') p' \<Longrightarrow>
   dget (r_fallback_allow r) p = dget (r_fallback_allow r') p' \<Longrightarrow>
   r_default_inbound r = r_default_inbound r' \<Longrightarrow>
   map_inbound r p g = map_inbound r' p' g"
  by (simp add: map_inbound_def fallback_for_def cong: option.case_cong)

lemma map_outbound_cong:
  "dget (r_outbound r) p = dget (r_outbound r') p' \<Longrightarrow>
   r_default_outbound r = r_default_outbound r' \<Longrightarrow>
   map_outbound r p g = map_outbound r' p' g"
  by (simp add: map_outbound_def cong: option.case_cong)

lemma rekey_peer_defaults [simp]:
  "r_default_inbound (rekey_peer old new r) = r_default_inbound r"
  "r_default_outbound (rekey_peer old new r) = r_default_outbound r"
  by (simp_all add: rekey_peer_def)

text \<open>The registries that the code can build: from the empty one, by the operations.\<close>

inductive built_registry :: "registry \<Rightarrow> bool" where
  built_empty: "built_registry empty_registry"
| built_add: "built_registry r \<Longrightarrow> built_registry (add_peer_map e r)"
| built_fallback: "built_registry r \<Longrightarrow> built_registry (set_fallback_allow p b r)"
| built_default_in: "built_registry r \<Longrightarrow> built_registry (set_default_in_map es r)"
| built_default_out: "built_registry r \<Longrightarrow> built_registry (set_default_out_map es r)"
| built_fingerprint: "built_registry r \<Longrightarrow> built_registry (register_fingerprint f p r)"
| built_rekey: "built_registry r \<Longrightarrow> built_registry (rekey_peer a b r)"
| built_announce: "built_registry r \<Longrightarrow> built_registry (update_from_federate_groups p gs r)"

section \<open>Properties\<close>

text \<open>
  C14. From configuration text to policy: the text of a list of inbound pairs parses, and
  once its entries are registered for a peer that had no table, every remote group gets
  the decision of the last pair for that group, else of the last wildcard pair, else the
  peer's fallback setting.
\<close>

theorem configured_inbound_policy:
  assumes "\<forall>p \<in> set ps. clean_in_pair p" and "ps \<noteq> []" and "dget (r_inbound r) pid = None"
  shows "\<exists>es. parse_group_map (print_group_map ps) DIn = Inr es \<and>
     map_inbound (fold add_peer_map (map (\<lambda>e. e\<lparr> ge_peer_id := pid \<rparr>) es) r) pid g =
       (case policy_decision ps g of Some l \<Rightarrow> l | None \<Rightarrow> fallback_for r pid g)"
proof -
  define es where "es = map in_entry ps"
  let ?own = "map (\<lambda>e. e\<lparr> ge_peer_id := pid \<rparr>) es"
  have "map entry_pair ?own = ps"
    by (simp add: es_def comp_def entry_pair_def in_entry_def)
  moreover have "\<forall>e \<in> set ?own. ge_peer_id e = pid \<and> ge_direction e = DIn"
    by (simp add: es_def in_entry_def)
  ultimately have "map_inbound (fold add_peer_map ?own r) pid g =
      (case policy_decision ps g of Some l \<Rightarrow> l | None \<Rightarrow> fallback_for r pid g)"
    using map_inbound_after_entries [of ?own pid r g] assms(2,3) by (simp add: es_def)
  with parse_print_group_map [OF assms(1)] show ?thesis by (simp add: es_def)
qed

theorem configured_inbound_policy_witness:
  "\<exists>es. parse_group_map ''FIRE:Red,*:'' DIn = Inr es \<and>
     map_inbound (fold add_peer_map (map (\<lambda>e. e\<lparr> ge_peer_id := ''p'' \<rparr>) es) empty_registry)
       ''p'' ''EMS'' = None"
proof -
  have "\<exists>es. parse_group_map (print_group_map [(''FIRE'', Some ''Red''), (''*'', None)]) DIn = Inr es \<and>
     map_inbound (fold add_peer_map (map (\<lambda>e. e\<lparr> ge_peer_id := ''p'' \<rparr>) es) empty_registry)
       ''p'' ''EMS'' =
     (case policy_decision [(''FIRE'', Some ''Red''), (''*'', None)] ''EMS'' of
        Some l \<Rightarrow> l | None \<Rightarrow> fallback_for empty_registry ''p'' ''EMS'')"
    by (rule configured_inbound_policy)
      (simp_all add: clean_in_pair_def clean_name_def trimmed_def py_ws_def empty_registry_def)
  then show ?thesis
    by (simp add: print_group_map_def print_pair_def policy_decision_def)
qed

text \<open>
  An inbound event is admitted with exactly the local groups its remote groups map
  to, and with none of them mapped it is dropped; an event without groups is admitted
  only through an explicit wildcard entry, never through the fallback that echoes the
  probe string.
\<close>

theorem inbound_groups_fail_closed:
  "map_inbound_groups r pid gs =
     (if gs = [] then
        (case map_inbound r pid ''*'' of
           Some l \<Rightarrow> (if l = ''*'' then None else Some {l}) | None \<Rightarrow> None)
      else if \<forall>g \<in> set gs. map_inbound r pid g = None then None
      else Some {l. \<exists>g \<in> set gs. map_inbound r pid g = Some l})"
  by (simp add: map_inbound_groups_Nil map_inbound_groups_Cons)

theorem inbound_groups_fail_closed_witness:
  "map_inbound_groups (empty_registry\<lparr> r_inbound := [(''p'', [(''A'', Some ''X''), (''B'', None)])] \<rparr>)
     ''p'' [''A'', ''B'', ''C''] = Some {''X''}"
  by (subst inbound_groups_fail_closed)
    (auto simp: map_inbound_def lookup_in_table_def fallback_for_def empty_registry_def)

text \<open>
  Rekeying is safe: no other peer's decision changes, a collision changes nothing at
  all, and without one the new key takes over both directions of the old key's policy.
\<close>

theorem rekey_peer_safe:
  "(p \<noteq> old \<and> p \<noteq> new \<longrightarrow>
      map_inbound (rekey_peer old new r) p g = map_inbound r p g \<and>
      map_outbound (rekey_peer old new r) p g = map_outbound r p g) \<and>
   (rekey_collision r new \<longrightarrow> rekey_peer old new r = r) \<and>
   (old \<noteq> new \<and> old \<noteq> [] \<and> \<not> rekey_collision r new \<longrightarrow>
      map_inbound (rekey_peer old new r) new g = map_inbound r old g \<and>
      map_outbound (rekey_peer old new r) new g = map_outbound r old g)"
proof (intro conjI impI)
  assume p: "p \<noteq> old \<and> p \<noteq> new"
  show "map_inbound (rekey_peer old new r) p g = map_inbound r p g"
    using p rekey_peer_other [of p old new r] by (intro map_inbound_cong) auto
  show "map_outbound (rekey_peer old new r) p g = map_outbound r p g"
    using p rekey_peer_other [of p old new r] by (intro map_outbound_cong) auto
next
  assume "rekey_collision r new"
  then show "rekey_peer old new r = r" by (simp add: rekey_peer_def)
next
  assume n: "old \<noteq> new \<and> old \<noteq> [] \<and> \<not> rekey_collision r new"
  show "map_inbound (rekey_peer old new r) new g = map_inbound r old g"
    using n by (intro map_inbound_cong) (auto simp: rekey_peer_new)
  show "map_outbound (rekey_peer old new r) new g = map_outbound r old g"
    using n by (intro map_outbound_cong) (auto simp: rekey_peer_new)
qed

theorem rekey_peer_safe_witness:
  "map_outbound (rekey_peer ''a'' ''b'' (empty_registry\<lparr> r_outbound := [(''a'', [(''L'', ''R'')])] \<rparr>))
     ''b'' ''L'' = Some ''R''"
proof -
  let ?r = "empty_registry\<lparr> r_outbound := [(''a'', [(''L'', ''R'')])] \<rparr>"
  have "\<not> rekey_collision ?r ''b''" by (simp add: rekey_collision_def empty_registry_def)
  then have "map_outbound (rekey_peer ''a'' ''b'' ?r) ''b'' ''L'' = map_outbound ?r ''a'' ''L''"
    using rekey_peer_safe [of "''c''" "''a''" "''b''" ?r "''L''"] by simp
  then show ?thesis by (simp add: map_outbound_def)
qed

text \<open>
  An empty right side of an outbound pair does not block: the entry maps the group to
  the empty name, so an event of that group is still sent, tagged with the empty group.
\<close>

theorem outbound_empty_rhs_is_sent:
  assumes "clean_name l" and "l \<noteq> []" and "l \<noteq> ''*''"
  shows "\<exists>e. parse_group_map (l @ '':'') DOut = Inr [e] \<and>
     map_outbound_groups (add_peer_map (e\<lparr> ge_peer_id := pid \<rparr>) r) pid [l] = [[]]"
proof -
  let ?e = "\<lparr> ge_peer_id = [], ge_direction = DOut, ge_remote_group = [], ge_local_group = Some l \<rparr>"
  have "trimmed l" "CHR '':'' \<notin> set l" "CHR '','' \<notin> set l"
    using assms(1) by (simp_all add: clean_name_def)
  then have "parse_group_token DOut (l @ '':'') = Inr [?e]"
    using assms(2,3) trimmed_around_colon [of l "[]"]
    by (simp add: parse_group_token_def py_strip_trimmed py_before_no_sep py_after_no_sep Let_def)
  moreover have "py_split CHR '','' (l @ '':'') = [l @ '':'']"
    using assms(1) by (simp add: clean_name_def py_split_no_sep)
  ultimately show ?thesis
    by (simp add: parse_group_map_def map_outbound_def)
qed

theorem outbound_empty_rhs_is_sent_witness:
  "\<exists>e. parse_group_map (''Blue'' @ '':'') DOut = Inr [e] \<and>
     map_outbound_groups (add_peer_map (e\<lparr> ge_peer_id := ''p'' \<rparr>) empty_registry) ''p'' [''Blue''] = [[]]"
  by (rule outbound_empty_rhs_is_sent) (simp_all add: clean_name_def trimmed_def py_ws_def)

text \<open>
  Whatever operations built it, a registry has one value per key in every one of its
  dictionaries, so each peer has one inbound and one outbound table.
\<close>

theorem built_registry_ok: "built_registry r \<Longrightarrow> registry_ok r"
  by (induction rule: built_registry.induct) (simp_all add: registry_ok_ops)

theorem built_registry_ok_witness:
  "registry_ok (rekey_peer ''a'' ''b'' (add_peer_map
     \<lparr> ge_peer_id = ''a'', ge_direction = DBoth, ge_remote_group = ''R'', ge_local_group = Some ''L'' \<rparr>
     empty_registry))"
  by (rule built_registry_ok) (intro built_registry.intros)

end
