(* ===== verification/Codec.thy ===== *)
theory Codec
  imports Cot_Models Group_Registry
begin

text \<open>
  codec.py: the translation between CoT events and the messages of the protocol, the
  resolution of hop limits, and \<open>prepare_outbound_event\<close>, the gate that every outbound
  event of either link direction passes (loop, hops, group policy, stamping). The clock is
  the argument \<open>now\<close>.
\<close>

section \<open>Timestamps\<close>

definition dt_to_ms :: "datetime option \<Rightarrow> int" where
  "dt_to_ms t = (case t of None \<Rightarrow> 0 | Some t \<Rightarrow> trunc (rnd_rat (total_seconds t * 1000)))"

definition ms_to_dt :: "int \<Rightarrow> py_error + datetime" where
  "ms_to_dt ms = utcfromtimestamp (rnd_rat (rnd_rat (of_int ms) / 1000))"

text \<open>\<open>t + timedelta\<close>\<close>

definition dt_plus :: "datetime \<Rightarrow> int \<Rightarrow> py_error + datetime" where
  "dt_plus t d = (if dt_in_range (t + d) then Inr (t + d) else Inl OverflowError)"

section \<open>Detail text\<close>

definition detail_to_xml_string :: "py_env \<Rightarrow> detail option \<Rightarrow> py_error + string" where
  "detail_to_xml_string E detail =
     (case detail of
        None \<Rightarrow> Inr []
      | Some d \<Rightarrow>
          rbind (detail_as_element d) (\<lambda>x.
            case x of None \<Rightarrow> Inr [] | Some e \<Rightarrow> Inr (xml_tostring (env_xml E) e)))"

definition parse_other :: "py_env \<Rightarrow> string \<Rightarrow> detail option" where
  "parse_other E other =
     (if other = [] then None
      else
        (case xml_fromstring (env_xml E) other of
           Inl _ \<Rightarrow> None
         | Inr e \<Rightarrow>
             if e_tag e \<noteq> ''detail'' then None
             else (case detail_from_elm E e [] of Inl _ \<Rightarrow> None | Inr d \<Rightarrow> Some d)))"

section \<open>Encoding\<close>

text \<open>The named fields of a TAK user, each set when the value is truthy.\<close>

definition set_user_fields :: "tak_user \<Rightarrow> geo_event \<Rightarrow> geo_event" where
  "set_user_fields u g =
     g\<lparr> ge_screenName := or_empty (tu_callsign u), ge_groupName := or_empty (tu_group u),
        ge_groupRole := or_empty (tu_role u), ge_phone := or_empty (tu_phone u),
        ge_course := (case tu_course u of Some c \<Rightarrow> c | None \<Rightarrow> Fin 0),
        ge_speed := (case tu_speed u of Some v \<Rightarrow> v | None \<Rightarrow> Fin 0),
        ge_battery := (case tu_battery u of
            None \<Rightarrow> 0
          | Some b \<Rightarrow> (case py_int b of Some i \<Rightarrow> if int32_ok i then i else 0 | None \<Rightarrow> 0)) \<rparr>"

definition base_geo :: "event \<Rightarrow> geo_event" where
  "base_geo evt =
     \<lparr> ge_uid = or_empty (ev_uid evt), ge_type = or_empty (ev_etype evt),
       ge_coordSource = or_empty (ev_how evt),
       ge_sendTime = dt_to_ms (ev_time evt), ge_startTime = dt_to_ms (ev_start evt),
       ge_staleTime = dt_to_ms (ev_stale evt),
       ge_lat = pt_lat (ev_point evt), ge_lon = pt_lon (ev_point evt), ge_hae = pt_hae (ev_point evt),
       ge_ce = pt_ce (ev_point evt), ge_le = pt_le (ev_point evt),
       ge_other = [], ge_battery = 0, ge_screenName = [], ge_groupName = [], ge_groupRole = [],
       ge_phone = [], ge_speed = Fin 0, ge_course = Fin 0 \<rparr>"

definition encode_federated_event ::
    "py_env \<Rightarrow> event \<Rightarrow> fed_meta option \<Rightarrow> py_error + fed_event" where
  "encode_federated_event E evt fed_meta =
     (let geo = (case ev_detail evt of
                   Some (Tak_User u) \<Rightarrow> set_user_fields u (base_geo evt) | _ \<Rightarrow> base_geo evt) in
      if \<not> (int64_ok (ge_sendTime geo) \<and> int64_ok (ge_startTime geo) \<and> int64_ok (ge_staleTime geo))
      then Inl ValueError
      else
        rbind (detail_to_xml_string E (ev_detail evt)) (\<lambda>xml_str.
          let fed_evt = empty_fed_event\<lparr> fe_event := Some (geo\<lparr> ge_other := xml_str \<rparr>) \<rparr> in
          (case fed_meta of
             None \<Rightarrow> Inr fed_evt
           | Some m \<Rightarrow>
               if \<not> (int64_ok (fm_max_hops m) \<and> int64_ok (fm_current_hops m)) then Inl ValueError
               else Inr (fed_evt\<lparr> fe_provenance := fm_seen m,
                 fe_hops := Some \<lparr> fh_maxHops = fm_max_hops m, fh_currentHops = fm_current_hops m \<rparr>,
                 fe_group_hop_limits := fm_group_hop_limits m \<rparr>))))"

section \<open>Decoding\<close>

definition resolve_max_hops :: "int \<Rightarrow> int \<Rightarrow> int" where
  "resolve_max_hops wire_max_hops local_max_hops =
     (if wire_max_hops \<le> 0 then local_max_hops
      else if local_max_hops \<le> 0 then wire_max_hops
      else min wire_max_hops local_max_hops)"

definition meta_of :: "fed_event \<Rightarrow> int \<Rightarrow> fed_meta" where
  "meta_of proto local_max_hops =
     \<lparr> fm_seen = fe_provenance proto,
       fm_current_hops = fh_currentHops (wire_hops proto),
       fm_max_hops = resolve_max_hops (fh_maxHops (wire_hops proto)) local_max_hops,
       fm_group_hop_limits =
         (case fe_group_hop_limits proto of
            Some l \<Rightarrow> if hl_use l \<and> hl_limits l \<noteq> [] then Some l else None
          | None \<Rightarrow> None) \<rparr>"

text \<open>A minimal detail element with the tags of a TAK user, built from the named fields.\<close>

definition takuser_detail_elm :: "geo_event \<Rightarrow> py_error + elem" where
  "takuser_detail_elm geo =
     rbind (xml_set_all [(''os'', Some []), (''version'', Some []), (''device'', Some []),
         (''platform'', Some [])] (new_elem ''takv'')) (\<lambda>takv.
     rbind (xml_set_all ([(''callsign'', Some (ge_screenName geo)),
         (''endpoint'', Some ''*:-1:stcp'')] @
         (if ge_phone geo \<noteq> [] then [(''phone'', Some (ge_phone geo))] else []))
         (new_elem ''contact'')) (\<lambda>contact.
     rbind (xml_set_all [(''Droid'', Some (ge_screenName geo))] (new_elem ''uid'')) (\<lambda>uid.
     rbind (xml_set_all [(''name'', Some (ge_groupName geo)), (''role'', Some (ge_groupRole geo))]
         (new_elem ''__group'')) (\<lambda>group.
       Inr (with_kids [takv, contact, uid, group] (new_elem ''detail''))))))"

definition synthesize_takuser_from_geo :: "geo_event \<Rightarrow> string \<Rightarrow> py_error + tak_user" where
  "synthesize_takuser_from_geo geo uid =
     rbind (takuser_detail_elm geo) (\<lambda>detail_elm.
     rbind (tak_user_from_elm detail_elm uid) (\<lambda>user.
       Inr (user\<lparr>
         tu_speed := (if ge_speed geo \<noteq> Fin 0 then Some (ge_speed geo) else tu_speed user),
         tu_course := (if ge_course geo \<noteq> Fin 0 then Some (ge_course geo) else tu_course user),
         tu_battery := (if ge_battery geo \<noteq> 0 then Some (py_str (ge_battery geo))
                        else tu_battery user) \<rparr>)))"

definition patch_uid :: "string \<Rightarrow> detail \<Rightarrow> detail" where
  "patch_uid uid d = (case d of Tak_User u \<Rightarrow> Tak_User (u\<lparr> tu_uid := Some uid \<rparr>) | _ \<Rightarrow> d)"

definition or_default_error :: "pyfloat \<Rightarrow> pyfloat" where
  "or_default_error x = (if x \<noteq> Fin 0 then x else Fin 9999999)"

text \<open>\<open>None\<close> in the first component is a dropped event.\<close>

definition decode_federated_event ::
    "py_env \<Rightarrow> fed_event \<Rightarrow> int \<Rightarrow> py_error + event option \<times> fed_meta" where
  "decode_federated_event E proto local_max_hops =
     (let fed_meta = meta_of proto local_max_hops in
      (case fe_event proto of
         None \<Rightarrow> Inr (None, fed_meta)
       | Some geo \<Rightarrow>
           if ge_uid geo = [] then Inr (None, fed_meta)
           else if ge_type geo = [] then Inr (None, fed_meta)
           else
             rbind (ms_to_dt (ge_sendTime geo)) (\<lambda>time.
             rbind (ms_to_dt (ge_startTime geo)) (\<lambda>start.
             rbind (ms_to_dt (ge_staleTime geo)) (\<lambda>stale.
               let evt = (new_event (Some ''2.0'') (Some (ge_uid geo)) (Some (ge_type geo))
                     (Some (if ge_coordSource geo \<noteq> [] then ge_coordSource geo else ''m-g''))
                     time start stale)
                   \<lparr> ev_point := \<lparr> pt_lat = ge_lat geo, pt_lon = ge_lon geo, pt_hae = ge_hae geo,
                       pt_ce = or_default_error (ge_ce geo), pt_le = or_default_error (ge_le geo) \<rparr> \<rparr> in
               if ge_other geo \<noteq> [] then
                 (case parse_other E (ge_other geo) of
                    None \<Rightarrow> Inr (None, fed_meta)
                  | Some d \<Rightarrow> Inr (Some (evt\<lparr> ev_detail := Some (patch_uid (ge_uid geo) d) \<rparr>), fed_meta))
               else if ge_screenName geo \<noteq> [] \<or> ge_groupName geo \<noteq> [] \<or> ge_groupRole geo \<noteq> [] then
                 (case synthesize_takuser_from_geo geo (ge_uid geo) of
                    Inl _ \<Rightarrow> Inr (Some evt, fed_meta)
                  | Inr u \<Rightarrow> Inr (Some (evt\<lparr> ev_detail := Some (Tak_User u) \<rparr>), fed_meta))
               else Inr (Some evt, fed_meta))))))"

section \<open>The outbound gate\<close>

definition loop_drop :: "string \<Rightarrow> fed_meta option \<Rightarrow> bool" where
  "loop_drop node_id fed_meta = (case fed_meta of None \<Rightarrow> False | Some m \<Rightarrow> node_id \<in> set (fm_seen m))"

definition hop_drop :: "fed_meta option \<Rightarrow> bool" where
  "hop_drop fed_meta =
     (case fed_meta of None \<Rightarrow> False
      | Some m \<Rightarrow> fm_max_hops m \<noteq> - 1 \<and> fm_current_hops m \<ge> fm_max_hops m)"

text \<open>The first limit with the name of the group decides; a group without one is free.\<close>

fun group_limit_drop :: "string \<Rightarrow> group_hop_limit list \<Rightarrow> bool" where
  "group_limit_drop g [] = False"
| "group_limit_drop g (lm # lms) =
     (if hl_groupName lm = g
      then hl_maxHops lm \<noteq> - 1 \<and> hl_currentHops lm \<ge> hl_maxHops lm
      else group_limit_drop g lms)"

definition group_hop_drop :: "string list option \<Rightarrow> fed_meta option \<Rightarrow> bool" where
  "group_hop_drop local_acl fed_meta =
     (case fed_meta of None \<Rightarrow> False
      | Some m \<Rightarrow>
          (case fm_group_hop_limits m of None \<Rightarrow> False
           | Some limits \<Rightarrow>
               hl_use limits \<and>
               (case local_acl of Some (g # _) \<Rightarrow> group_limit_drop g (hl_limits limits) | _ \<Rightarrow> False)))"

text \<open>
  The group policy: \<open>None\<close> blocks, \<open>Some None\<close> is no tagging, \<open>Some (Some gs)\<close> the groups
  to tag the event with.
\<close>

definition outbound_groups ::
    "registry option \<Rightarrow> string \<Rightarrow> string list option \<Rightarrow> string list option option" where
  "outbound_groups reg peer_id local_acl =
     (case reg of
        None \<Rightarrow> Some None
      | Some r \<Rightarrow>
          if peer_id = [] then Some None
          else (case local_acl of
                  None \<Rightarrow> None
                | Some ls \<Rightarrow>
                    if ls = [] then None
                    else (let remote = map_outbound_groups r peer_id ls in
                          if remote = [] then None else Some (Some remote))))"

definition relay_meta :: "string \<Rightarrow> int \<Rightarrow> fed_meta option \<Rightarrow> fed_meta" where
  "relay_meta node_id default_max_hops fed_meta =
     (case fed_meta of
        None \<Rightarrow> \<lparr> fm_seen = [node_id], fm_current_hops = 1, fm_max_hops = default_max_hops,
          fm_group_hop_limits = None \<rparr>
      | Some m \<Rightarrow> \<lparr> fm_seen = fm_seen m @ [node_id], fm_current_hops = fm_current_hops m + 1,
          fm_max_hops = fm_max_hops m, fm_group_hop_limits = None \<rparr>)"

definition prepare_outbound_event ::
    "py_env \<Rightarrow> event \<Rightarrow> string \<Rightarrow> int \<Rightarrow> registry option \<Rightarrow> string \<Rightarrow>
     py_error + fed_event option" where
  "prepare_outbound_event E evt node_id default_max_hops reg peer_id =
     (let fed_meta = ev_fed_meta evt in
      if loop_drop node_id fed_meta then Inr None
      else if hop_drop fed_meta then Inr None
      else if group_hop_drop (ev_local_acl_groups evt) fed_meta then Inr None
      else
        (case outbound_groups reg peer_id (ev_local_acl_groups evt) of
           None \<Rightarrow> Inr None
         | Some remote_groups \<Rightarrow>
             rbind (encode_federated_event E evt (Some (relay_meta node_id default_max_hops fed_meta)))
               (\<lambda>proto.
                 (case remote_groups of
                    None \<Rightarrow> Inr (Some proto)
                  | Some gs \<Rightarrow> Inr (Some (proto\<lparr> fe_groups := gs \<rparr>))))))"

section \<open>Contacts\<close>

definition decode_contact_entry :: "fed_event \<Rightarrow> contact_entry option" where
  "decode_contact_entry proto = fe_contact proto"

definition contact_detail :: "contact_entry \<Rightarrow> py_error + elem" where
  "contact_detail c =
     (let callsign = (if ct_callsign c \<noteq> [] then ct_callsign c else ct_uid c) in
      rbind (xml_set_all ([(''callsign'', Some callsign)] @
          (if ct_phone c \<noteq> [] then [(''phone'', Some (ct_phone c))] else []) @
          (if ct_sip c \<noteq> [] then [(''xmppUsername'', Some (ct_sip c))] else []) @
          (if ct_directConnect c \<noteq> [] then [(''endpoint'', Some (ct_directConnect c))] else []))
          (new_elem ''contact'')) (\<lambda>contact_elm.
      rbind (xml_set_all [(''Droid'', Some callsign)] (new_elem ''uid'')) (\<lambda>uid_elm.
        Inr (with_kids [contact_elm, uid_elm] (new_elem ''detail'')))))"

definition contact_stale :: "datetime \<Rightarrow> crud \<Rightarrow> py_error + datetime option" where
  "contact_stale now op =
     (if op = CRUD_CREATE \<or> op = CRUD_UPDATE then rbind (dt_plus now 1800000000) (\<lambda>t. Inr (Some t))
      else if op = CRUD_DELETE then rbind (dt_plus now (- 1000000)) (\<lambda>t. Inr (Some t))
      else Inr None)"

definition synthesize_contact_event :: "datetime \<Rightarrow> contact_entry \<Rightarrow> py_error + event option" where
  "synthesize_contact_event now c =
     (if ct_operation c = CRUD_READ \<or> ct_operation c = CRUD_INVALID then Inr None
      else if ct_uid c = [] then Inr None
      else
        rbind (contact_stale now (ct_operation c)) (\<lambda>st.
          (case st of
             None \<Rightarrow> Inr None
           | Some stale \<Rightarrow>
               rbind (contact_detail c) (\<lambda>detail_elm.
                 Inr (Some ((new_event (Some ''2.0'') (Some (ct_uid c)) (Some ''a-f-G-U-C'')
                     (Some ''h-g-i-g-o'') now now stale)
                   \<lparr> ev_point := default_point,
                     ev_detail := Some (Generic (Some detail_elm)) \<rparr>))))))"

section \<open>Lemmas on timestamps\<close>

lemma rnd_rat_near:
  assumes "\<bar>x\<bar> \<le> 2 ^ k" "k \<le> 53"
  shows "\<bar>rnd_rat x - x\<bar> \<le> 1 / 2 ^ (53 - k) + 1 / 2 ^ 1075"
proof -
  have "\<bar>x\<bar> / 2 ^ 53 \<le> 2 ^ k / 2 ^ 53" using assms(1) by (simp add: divide_right_mono)
  also have "(2 :: rat) ^ k / 2 ^ 53 = 1 / 2 ^ (53 - k)"
    using assms(2) by (simp add: power_diff)
  finally show ?thesis using rnd_rat_error [of x] by linarith
qed

lemma rnd_rat_nonneg:
  assumes "0 \<le> x" shows "0 \<le> rnd_rat x"
proof -
  have "0 \<le> \<lfloor>x / ulp x\<rfloor>" using assms ulp_pos [of x] by (simp add: divide_nonneg_pos)
  moreover have "\<lfloor>y\<rfloor> \<le> round_even y" for y by (simp add: round_even_def Let_def)
  ultimately have "0 \<le> round_even (x / ulp x)" using order_trans by blast
  then show ?thesis using ulp_pos [of x] by (simp add: rnd_rat_def less_imp_le)
qed

lemma abs_diff_chain:
  fixes a b c :: rat
  shows "\<bar>a - b\<bar> \<le> u \<Longrightarrow> \<bar>b - c\<bar> \<le> v \<Longrightarrow> u + v < w \<Longrightarrow> \<bar>a - c\<bar> < w"
  by linarith

lemma tiny: "1 / 2 ^ 1075 \<le> (1 / 2 ^ 53 :: rat)"
  by (rule divide_left_mono) (simp_all add: power_increasing)

text \<open>Seconds of this and the next decades, to the year 2106.\<close>

lemma seconds_near:
  assumes "0 \<le> t" "t < 2 ^ 32 * 1000000"
  shows "\<bar>total_seconds t - of_int t / 1000000\<bar> \<le> 1 / 2 ^ 21 + 1 / 2 ^ 53" "0 \<le> total_seconds t"
proof -
  have "of_int t \<le> (of_int (2 ^ 32 * 1000000) :: rat)" using assms(2) by (simp only: of_int_le_iff)
  then have "\<bar>of_int t / 1000000\<bar> \<le> (2 :: rat) ^ 32" using assms(1) by simp
  from rnd_rat_near [OF this] show "\<bar>total_seconds t - of_int t / 1000000\<bar> \<le> 1 / 2 ^ 21 + 1 / 2 ^ 53"
    using tiny by (simp add: total_seconds_def)
  show "0 \<le> total_seconds t" using assms(1) by (simp add: total_seconds_def rnd_rat_nonneg)
qed

text \<open>Reading a time in milliseconds is exact.\<close>

lemma ms_to_dt_exact:
  assumes "0 \<le> ms" "ms < 2 ^ 32 * 1000"
  shows "ms_to_dt ms = Inr (ms * 1000)"
proof -
  define x where "x = rnd_rat (of_int ms / 1000)"
  have r: "0 \<le> ms * 1000" "ms * 1000 < 2 ^ 32 * 1000000" using assms by simp_all
  have ts: "total_seconds (ms * 1000) = x" by (simp add: total_seconds_def x_def)
  have near: "\<bar>x - of_int ms / 1000\<bar> \<le> 1 / 2 ^ 21 + 1 / 2 ^ 53"
    using seconds_near(1) [OF r] by (simp add: ts)
  have x0: "0 \<le> x" using seconds_near(2) [OF r] ts by simp
  define s where "s = \<lfloor>x\<rfloor>"
  have tr: "trunc x = s" using x0 by (simp add: trunc_def s_def)
  define f where "f = (x - of_int s) * 1000000"
  have "0 \<le> x - of_int s" "x - of_int s \<le> 1" unfolding s_def by linarith+
  then have f: "0 \<le> f" "f \<le> 2 ^ 20" by (simp_all add: f_def)
  have ferr: "\<bar>rnd_rat f - f\<bar> \<le> 1 / 2 ^ 33 + 1 / 2 ^ 53"
    using rnd_rat_near [of f 20] f tiny by simp
  have fN: "f - of_int (ms * 1000 - s * 1000000) = (x - of_int ms / 1000) * 1000000"
    by (simp add: f_def algebra_simps)
  have "\<bar>f - of_int (ms * 1000 - s * 1000000)\<bar> \<le> (1 / 2 ^ 21 + 1 / 2 ^ 53) * 1000000"
    using near unfolding fN abs_mult by simp
  with ferr have "\<bar>rnd_rat f - of_int (ms * 1000 - s * 1000000)\<bar> < 1 / 2"
    by (rule abs_diff_chain) simp
  then have us: "round_even (rnd_rat f) = ms * 1000 - s * 1000000" by (rule round_even_near)
  have ms: "rnd_rat (of_int ms) = of_int ms" using assms by (intro rnd_rat_int) simp
  have "dt_in_range (ms * 1000)" using r by (simp add: dt_in_range_def dt_min_def dt_max_def)
  then have "utcfromtimestamp x = Inr (ms * 1000)"
    unfolding utcfromtimestamp_def Let_def tr f_def [symmetric] us by simp
  then show ?thesis by (simp add: ms_to_dt_def ms x_def)
qed

text \<open>Writing one rounds down to the millisecond, sometimes one too many.\<close>

lemma dt_to_ms_bounds:
  assumes "0 \<le> t" "t < 2 ^ 32 * 1000000"
  shows "t div 1000 - 1 \<le> dt_to_ms (Some t)" "dt_to_ms (Some t) \<le> t div 1000"
proof -
  define x where "x = total_seconds t"
  define y where "y = rnd_rat (x * 1000)"
  have near: "\<bar>x * 1000 - of_int t / 1000\<bar> \<le> (1 / 2 ^ 21 + 1 / 2 ^ 53) * 1000"
  proof -
    have "\<bar>x * 1000 - of_int t / 1000\<bar> = \<bar>x - of_int t / 1000000\<bar> * 1000"
      using abs_mult [of "x - of_int t / 1000000" 1000] by (simp add: left_diff_distrib)
    then show ?thesis using seconds_near(1) [OF assms] by (simp add: x_def)
  qed
  have x0: "0 \<le> x" using seconds_near(2) [OF assms] by (simp add: x_def)
  have t: "of_int t / 1000 \<le> (2 ^ 32 * 1000 :: rat)"
  proof -
    have "of_int t \<le> (of_int (2 ^ 32 * 1000000) :: rat)" using assms(2) by (simp only: of_int_le_iff)
    then show ?thesis by simp
  qed
  have xle: "x * 1000 \<le> 2 ^ 32 * 1000 + 1"
  proof -
    have "x * 1000 - of_int t / 1000 \<le> (1 / 2 ^ 21 + 1 / 2 ^ 53) * 1000"
      using near by (rule abs_le_D1)
    moreover have "(1 / 2 ^ 21 + 1 / 2 ^ 53) * 1000 \<le> (1 :: rat)" by simp
    ultimately show ?thesis using t by linarith
  qed
  have "\<bar>y - x * 1000\<bar> \<le> x * 1000 / 2 ^ 53 + 1 / 2 ^ 1075"
    using rnd_rat_error [of "x * 1000"] x0 by (simp add: y_def)
  also have "x * 1000 / 2 ^ 53 \<le> (2 ^ 32 * 1000 + 1) / 2 ^ 53"
    using xle by (rule divide_right_mono) simp
  finally have "\<bar>y - x * 1000\<bar> \<le> (2 ^ 32 * 1000 + 1) / 2 ^ 53 + 1 / 2 ^ 53" using tiny by simp
  then have d: "\<bar>y - of_int t / 1000\<bar> < 1 / 1000"
    using near by (rule abs_diff_chain) simp
  have y0: "0 \<le> y" using x0 by (simp add: y_def rnd_rat_nonneg)
  have ms: "dt_to_ms (Some t) = \<lfloor>y\<rfloor>" using y0 by (simp add: dt_to_ms_def x_def y_def trunc_def)
  define k m where "k = t div 1000" and "m = t mod 1000"
  have "t = 1000 * k + m" "0 \<le> m" "m \<le> 999" by (simp_all add: k_def m_def)
  then have e: "of_int t / 1000 = (of_int k + of_int m / 1000 :: rat)" by simp
  have "of_int m / 1000 \<le> (999 / 1000 :: rat)" "0 \<le> (of_int m / 1000 :: rat)"
    using \<open>0 \<le> m\<close> \<open>m \<le> 999\<close> by simp_all
  moreover have "y - of_int t / 1000 < 1 / 1000" "of_int t / 1000 - y < 1 / 1000"
    using d abs_less_iff [of "y - of_int t / 1000" "1 / 1000"] by (simp_all add: algebra_simps)
  ultimately have "y < of_int k + 1" "of_int k - 1 \<le> y" unfolding e by linarith+
  then have "y < of_int (k + 1)" "of_int (k - 1) \<le> y" by simp_all
  then show "t div 1000 - 1 \<le> dt_to_ms (Some t)" "dt_to_ms (Some t) \<le> t div 1000"
    unfolding ms k_def [symmetric] by (simp_all add: le_floor_iff floor_le_iff)
qed

section \<open>Lemmas on details\<close>

lemma tak_user_child_uid:
  "tak_user_child (u\<lparr> tu_uid := x \<rparr>) c = rbind (tak_user_child u c) (\<lambda>v. Inr (v\<lparr> tu_uid := x \<rparr>))"
  by (cases "device_from_elm c"; cases "float_attr c ''course''"; cases "float_attr c ''speed''")
    (simp_all add: tak_user_child_def)

lemma tak_user_children_uid:
  "tak_user_children (u\<lparr> tu_uid := x \<rparr>) cs = rbind (tak_user_children u cs) (\<lambda>v. Inr (v\<lparr> tu_uid := x \<rparr>))"
proof (induction cs arbitrary: u)
  case Nil
  then show ?case by simp
next
  case (Cons c cs)
  show ?case
    by (cases "tak_user_child u c") (simp_all add: tak_user_child_uid Cons.IH)
qed

lemma tak_user_from_elm_uid:
  "tak_user_from_elm e x = rbind (tak_user_from_elm e y) (\<lambda>v. Inr (v\<lparr> tu_uid := Some x \<rparr>))"
  using tak_user_children_uid [where u = "(new_tak_user (Some e))\<lparr> tu_uid := Some y \<rparr>" and x = "Some x" and cs = "e_kids e"]
  by (simp add: tak_user_from_elm_def)

text \<open>Patching in the uid afterwards is reading the element with that uid.\<close>

lemma detail_from_elm_patch:
  "detail_from_elm E e x = rbind (detail_from_elm E e y) (\<lambda>d. Inr (patch_uid x d))"
  using tak_user_from_elm_uid [of e x y]
  by (cases "tak_user_from_elm e y"; cases "geochat_from_elm E e")
    (simp_all add: detail_from_elm_def patch_uid_def)

text \<open>The element of a detail that can be printed and parsed back.\<close>

definition detail_printable :: "py_env \<Rightarrow> detail option \<Rightarrow> bool" where
  "detail_printable E d =
     (case d of None \<Rightarrow> True
      | Some d \<Rightarrow> (case detail_elm d of None \<Rightarrow> False
         | Some e \<Rightarrow> xml_normal (xml_name_ok (env_xml E)) e \<and> e_tail e = None))"

lemma detail_text_parses:
  assumes "xml_lib_ok (env_xml E)" "detail_read E uid (Some d)" "detail_printable E (Some d)"
  shows "\<exists>xml d'. detail_to_xml_string E (Some d) = Inr xml \<and> xml \<noteq> [] \<and>
    parse_other E xml = Some d' \<and> patch_uid uid d' = d"
proof -
  let ?L = "env_xml E"
  obtain e where e: "detail_elm d = Some e" "e_tag e = ''detail''" "detail_from_elm E e uid = Inr d"
    using assms(2) by (auto simp: detail_read_def split: option.splits)
  define xml where "xml = xml_tostring ?L e"
  have str: "detail_to_xml_string E (Some d) = Inr xml"
    by (simp add: detail_to_xml_string_def detail_as_element_def e xml_def)
  have p: "xml_fromstring ?L xml = Inr e"
    unfolding xml_def using assms(3) e by (intro xml_lib_okD(1) [OF assms(1)]) (simp_all add: detail_printable_def)
  then have ne: "xml \<noteq> []" using xml_lib_okD(5) [OF assms(1)] by auto
  obtain d' where d': "detail_from_elm E e [] = Inr d'" "patch_uid uid d' = d"
    using e(3) detail_from_elm_patch [of E e uid "[]"] by (cases "detail_from_elm E e []") auto
  with p ne e(2) have "parse_other E xml = Some d'" by (simp add: parse_other_def)
  with str ne d'(2) show ?thesis by blast
qed

lemma encode_Inr:
  assumes "encode_federated_event E evt (Some m) = Inr p"
  shows "fe_provenance p = fm_seen m \<and>
    fe_hops p = Some \<lparr> fh_maxHops = fm_max_hops m, fh_currentHops = fm_current_hops m \<rparr> \<and>
    fe_group_hop_limits p = fm_group_hop_limits m \<and> fe_groups p = [] \<and> fe_contact p = None \<and>
    int64_ok (fm_max_hops m) \<and> int64_ok (fm_current_hops m) \<and>
    (\<exists>txt geo. detail_to_xml_string E (ev_detail evt) = Inr txt \<and>
       geo = (case ev_detail evt of Some (Tak_User u) \<Rightarrow> set_user_fields u (base_geo evt) | _ \<Rightarrow> base_geo evt) \<and>
       fe_event p = Some (geo\<lparr> ge_other := txt \<rparr>))"
  using assms
  by (auto simp: encode_federated_event_def Let_def rbind_Inr_iff empty_fed_event_def split: if_splits)

text \<open>The fields of a GeoEvent that do not depend on the kind of detail.\<close>

lemma user_geo_sel:
  assumes "geo = (case d of Some (Tak_User u) \<Rightarrow> set_user_fields u (base_geo evt) | _ \<Rightarrow> base_geo evt)"
  shows "ge_uid geo = or_empty (ev_uid evt)" "ge_type geo = or_empty (ev_etype evt)"
    "ge_coordSource geo = or_empty (ev_how evt)" "ge_sendTime geo = dt_to_ms (ev_time evt)"
    "ge_startTime geo = dt_to_ms (ev_start evt)" "ge_staleTime geo = dt_to_ms (ev_stale evt)"
    "ge_lat geo = pt_lat (ev_point evt)" "ge_lon geo = pt_lon (ev_point evt)"
    "ge_hae geo = pt_hae (ev_point evt)" "ge_ce geo = pt_ce (ev_point evt)"
    "ge_le geo = pt_le (ev_point evt)"
  using assms by (auto simp: set_user_fields_def base_geo_def split: option.split detail.split)

lemma no_user_geo:
  "d = None \<Longrightarrow> geo = (case d of Some (Tak_User u) \<Rightarrow> set_user_fields u (base_geo evt) | _ \<Rightarrow> base_geo evt) \<Longrightarrow>
   ge_screenName geo = [] \<and> ge_groupName geo = [] \<and> ge_groupRole geo = []"
  by (simp add: base_geo_def)

lemma prepare_Some:
  assumes "prepare_outbound_event E evt node dmh reg pid = Inr (Some p)"
  obtains rg q where
    "\<not> loop_drop node (ev_fed_meta evt)" "\<not> hop_drop (ev_fed_meta evt)"
    "\<not> group_hop_drop (ev_local_acl_groups evt) (ev_fed_meta evt)"
    "outbound_groups reg pid (ev_local_acl_groups evt) = Some rg"
    "encode_federated_event E evt (Some (relay_meta node dmh (ev_fed_meta evt))) = Inr q"
    "p = (case rg of None \<Rightarrow> q | Some gs \<Rightarrow> q\<lparr> fe_groups := gs \<rparr>)"
  using assms
  by (auto simp: prepare_outbound_event_def Let_def rbind_Inr_iff split: if_splits option.splits)

lemma prepare_tags:
  assumes "prepare_outbound_event E evt node dmh (Some r) pid = Inr (Some p)" "pid \<noteq> []"
  shows "\<exists>ls. ev_local_acl_groups evt = Some ls \<and> ls \<noteq> [] \<and>
      fe_groups p = map_outbound_groups r pid ls \<and> fe_groups p \<noteq> [] \<and>
      set (fe_groups p) = {g. \<exists>l \<in> set ls. map_outbound r pid l = Some g}"
proof -
  obtain rg q where o: "outbound_groups (Some r) pid (ev_local_acl_groups evt) = Some rg"
    and p: "p = (case rg of None \<Rightarrow> q | Some gs \<Rightarrow> q\<lparr> fe_groups := gs \<rparr>)"
    by (rule prepare_Some [OF assms(1)])
  then obtain ls where ls: "ev_local_acl_groups evt = Some ls" "ls \<noteq> []"
    "map_outbound_groups r pid ls \<noteq> []" "rg = Some (map_outbound_groups r pid ls)"
    using assms(2) by (auto simp: outbound_groups_def Let_def split: option.splits if_splits)
  have "set (map_outbound_groups r pid ls) = {g. \<exists>l \<in> set ls. map_outbound r pid l = Some g}"
    using reg_policy.out_permitted by blast
  with ls p show ?thesis by simp
qed

lemma prepare_meta:
  assumes "prepare_outbound_event E evt node dmh reg pid = Inr (Some p)"
  shows "fe_provenance p = fm_seen (relay_meta node dmh (ev_fed_meta evt))"
    "fe_hops p = Some \<lparr> fh_maxHops = fm_max_hops (relay_meta node dmh (ev_fed_meta evt)),
       fh_currentHops = fm_current_hops (relay_meta node dmh (ev_fed_meta evt)) \<rparr>"
    "fe_group_hop_limits p = fm_group_hop_limits (relay_meta node dmh (ev_fed_meta evt))"
    "fe_contact p = None"
  using assms by (auto elim!: prepare_Some dest!: encode_Inr split: option.splits)

section \<open>Samples\<close>

text \<open>The event of the epoch on its way to a peer that is sent group \<open>a\<close> as \<open>b\<close>.\<close>

definition sample_registry :: registry where
  "sample_registry = empty_registry\<lparr> r_outbound := [(''p'', [(''a'', ''b'')])] \<rparr>"

definition hop_meta :: fed_meta where
  "hop_meta = \<lparr> fm_seen = [''x''], fm_current_hops = 1, fm_max_hops = 3, fm_group_hop_limits = None \<rparr>"

definition sample_out :: event where
  "sample_out = epoch_event\<lparr> ev_fed_meta := Some hop_meta, ev_local_acl_groups := Some [''a''] \<rparr>"

lemma dt_to_ms_zero [simp]: "dt_to_ms (Some 0) = 0"
  by (simp add: dt_to_ms_def total_seconds_def rnd_rat_def trunc_def)

lemma epoch_encodes:
  "int64_ok (fm_max_hops m) \<Longrightarrow> int64_ok (fm_current_hops m) \<Longrightarrow>
   \<exists>p. encode_federated_event epoch_env (epoch_event\<lparr> ev_fed_meta := x, ev_local_acl_groups := y \<rparr>) (Some m) = Inr p"
  by (simp add: epoch_event_def new_event_def encode_federated_event_def base_geo_def
      detail_to_xml_string_def detail_as_element_def detail_elm_def Let_def)

lemma sample_out_prepared:
  "\<exists>p. prepare_outbound_event epoch_env sample_out ''n'' 3 (Some sample_registry) ''p'' = Inr (Some p)"
proof -
  let ?m = "relay_meta ''n'' 3 (Some hop_meta)"
  have "int64_ok (fm_max_hops ?m)" "int64_ok (fm_current_hops ?m)"
    by (simp_all add: relay_meta_def hop_meta_def int64_ok_def)
  from epoch_encodes [OF this] obtain p where
    "encode_federated_event epoch_env sample_out (Some ?m) = Inr p"
    unfolding sample_out_def by blast
  then show ?thesis
    by (simp add: prepare_outbound_event_def sample_out_def loop_drop_def hop_drop_def hop_meta_def
        group_hop_drop_def outbound_groups_def sample_registry_def map_outbound_def Let_def)
qed

section \<open>Properties\<close>

text \<open>
  C7. The outbound group policy fails closed where it applies: for a peer that is known by an
  id, and with a registry, an event leaves only when its ACL groups are known and not empty, and
  then it is tagged with exactly the outbound images of its groups, of which there is at
  least one. Without a registry or without a peer id there is no group policy: an event
  that leaves then carries no group at all.
\<close>

theorem outbound_gate_fails_closed:
  assumes "prepare_outbound_event E evt node dmh reg pid = Inr (Some p)"
  shows "case reg of
      None \<Rightarrow> fe_groups p = []
    | Some r \<Rightarrow>
        if pid = [] then fe_groups p = []
        else \<exists>ls. ev_local_acl_groups evt = Some ls \<and> ls \<noteq> [] \<and>
          fe_groups p = map_outbound_groups r pid ls \<and> fe_groups p \<noteq> [] \<and>
          set (fe_groups p) = {g. \<exists>l \<in> set ls. map_outbound r pid l = Some g}"
proof (cases "reg = None \<or> pid = []")
  case True
  obtain rg q where o: "outbound_groups reg pid (ev_local_acl_groups evt) = Some rg"
    and q: "encode_federated_event E evt (Some (relay_meta node dmh (ev_fed_meta evt))) = Inr q"
    and p: "p = (case rg of None \<Rightarrow> q | Some gs \<Rightarrow> q\<lparr> fe_groups := gs \<rparr>)"
    by (rule prepare_Some [OF assms])
  from True o have "rg = None" by (auto simp: outbound_groups_def split: option.splits)
  moreover have "fe_groups q = []" using encode_Inr [OF q] by auto
  ultimately show ?thesis using True p by (auto split: option.split)
next
  case False
  then obtain r where "reg = Some r" "pid \<noteq> []" by auto
  with prepare_tags assms show ?thesis by simp
qed

theorem outbound_gate_fails_closed_witness:
  "\<exists>p. prepare_outbound_event epoch_env sample_out ''n'' 3 (Some sample_registry) ''p'' = Inr (Some p) \<and>
     fe_groups p = [''b'']"
proof -
  obtain p where p: "prepare_outbound_event epoch_env sample_out ''n'' 3 (Some sample_registry) ''p'' = Inr (Some p)"
    using sample_out_prepared by blast
  have "fe_groups p = [''b'']"
    using outbound_gate_fails_closed [OF p]
    by (simp add: sample_out_def sample_registry_def map_outbound_def)
  with p show ?thesis by blast
qed

text \<open>
  C17. Every event that leaves carries its provenance extended by this server, which was
  not in it before, and its hop count increased by one; an event with a finite limit
  leaves only within it. Per-group hop limits never leave: the relay drops them, although
  the encoder would pass them on.
\<close>

theorem outbound_provenance_and_hops:
  assumes "prepare_outbound_event E evt node dmh reg pid = Inr (Some p)"
  shows "fe_group_hop_limits p = None \<and>
    (case ev_fed_meta evt of
      None \<Rightarrow> fe_provenance p = [node] \<and>
        fe_hops p = Some \<lparr> fh_maxHops = dmh, fh_currentHops = 1 \<rparr>
    | Some m \<Rightarrow> fe_provenance p = fm_seen m @ [node] \<and> node \<notin> set (fm_seen m) \<and>
        fe_hops p = Some \<lparr> fh_maxHops = fm_max_hops m, fh_currentHops = fm_current_hops m + 1 \<rparr> \<and>
        (fm_max_hops m = - 1 \<or> fm_current_hops m + 1 \<le> fm_max_hops m))"
proof -
  have "\<not> loop_drop node (ev_fed_meta evt)" "\<not> hop_drop (ev_fed_meta evt)"
    by (rule prepare_Some [OF assms], assumption)+
  with prepare_meta [OF assms] show ?thesis
    by (auto simp: relay_meta_def loop_drop_def hop_drop_def split: option.splits)
qed

theorem outbound_provenance_and_hops_witness:
  "\<exists>p. prepare_outbound_event epoch_env sample_out ''n'' 3 (Some sample_registry) ''p'' = Inr (Some p) \<and>
     fe_provenance p = [''x'', ''n''] \<and> fe_hops p = Some \<lparr> fh_maxHops = 3, fh_currentHops = 2 \<rparr>"
proof -
  obtain p where p: "prepare_outbound_event epoch_env sample_out ''n'' 3 (Some sample_registry) ''p'' = Inr (Some p)"
    using sample_out_prepared by blast
  have "fe_provenance p = [''x'', ''n''] \<and> fe_hops p = Some \<lparr> fh_maxHops = 3, fh_currentHops = 2 \<rparr>"
    using outbound_provenance_and_hops [OF p] by (simp add: sample_out_def hop_meta_def)
  with p show ?thesis by blast
qed

text \<open>
  A peer cannot loosen the hop budget: with a positive ceiling of our own, the limit
  carried for a decoded message is positive and at most the ceiling, whatever the message
  says or leaves out, and a positive limit it declares is never raised.
\<close>

theorem decoded_hop_limit:
  assumes "decode_federated_event E proto limit = Inr (evt, m)" "0 < limit"
  shows "0 < fm_max_hops m \<and> fm_max_hops m \<le> limit \<and>
      (0 < fh_maxHops (wire_hops proto) \<longrightarrow> fm_max_hops m \<le> fh_maxHops (wire_hops proto)) \<and>
      fm_seen m = fe_provenance proto \<and> fm_current_hops m = fh_currentHops (wire_hops proto)"
proof -
  have "m = meta_of proto limit"
    using assms(1)
    by (auto simp: decode_federated_event_def Let_def rbind_Inr_iff split: option.splits if_splits sum.splits)
  with assms(2) show ?thesis by (auto simp: meta_of_def resolve_max_hops_def)
qed

theorem decoded_hop_limit_witness:
  "\<exists>evt m. decode_federated_event epoch_env (empty_fed_event\<lparr> fe_provenance := [''x''] \<rparr>) 3 = Inr (evt, m) \<and>
     fm_max_hops m = 3 \<and> fm_seen m = [''x'']"
proof -
  let ?p = "empty_fed_event\<lparr> fe_provenance := [''x''] \<rparr>"
  have d: "decode_federated_event epoch_env ?p 3 = Inr (None, meta_of ?p 3)"
    by (simp add: decode_federated_event_def empty_fed_event_def Let_def)
  from decoded_hop_limit [OF d] have "fm_seen (meta_of ?p 3) = [''x'']" by simp
  moreover have "fm_max_hops (meta_of ?p 3) = 3"
    by (simp add: meta_of_def wire_hops_def empty_fed_event_def resolve_max_hops_def)
  ultimately show ?thesis using d by blast
qed

text \<open>
  C19. Round trip over the wire: an event with a uid and a type, whose detail can be
  printed, decodes at the receiver to the same event: the times as they cross the wire,
  an empty \<open>how\<close> replaced by \<open>m-g\<close>, zero errors of the point by the unknown error, the
  same detail, no sidecars; its meta data has the provenance and hop count of the sender
  and the hop limit resolved against the ceiling of the receiver.
\<close>

theorem encode_decode_roundtrip:
  assumes "xml_lib_ok (env_xml E)" "event_ok E evt" "ev_version evt = Some ''2.0''"
    and "ev_uid evt = Some uid" "uid \<noteq> []" "ev_etype evt = Some etype" "etype \<noteq> []"
    and "detail_printable E (ev_detail evt)"
    and "encode_federated_event E evt (Some m) = Inr p"
    and "ms_to_dt (dt_to_ms (ev_time evt)) = Inr time"
    and "ms_to_dt (dt_to_ms (ev_start evt)) = Inr start"
    and "ms_to_dt (dt_to_ms (ev_stale evt)) = Inr stale"
  shows "decode_federated_event E p limit = Inr
    (Some (evt\<lparr> ev_how := Some (if str_truthy (ev_how evt) then the (ev_how evt) else ''m-g''),
       ev_time := Some time, ev_start := Some start, ev_stale := Some stale,
       ev_point := (ev_point evt)\<lparr> pt_ce := or_default_error (pt_ce (ev_point evt)),
         pt_le := or_default_error (pt_le (ev_point evt)) \<rparr>,
       ev_fed_meta := None, ev_local_acl_groups := None, ev_inbound_local_groups := None \<rparr>),
     m\<lparr> fm_max_hops := resolve_max_hops (fm_max_hops m) limit,
       fm_group_hop_limits := fm_group_hop_limits (meta_of p limit) \<rparr>)"
proof -
  obtain xml geo where g: "detail_to_xml_string E (ev_detail evt) = Inr xml"
      "geo = (case ev_detail evt of Some (Tak_User u) \<Rightarrow> set_user_fields u (base_geo evt) | _ \<Rightarrow> base_geo evt)"
      "fe_event p = Some (geo\<lparr> ge_other := xml \<rparr>)"
    and w: "fe_provenance p = fm_seen m"
      "fe_hops p = Some \<lparr> fh_maxHops = fm_max_hops m, fh_currentHops = fm_current_hops m \<rparr>"
    using encode_Inr [OF assms(9)] by blast
  have meta: "meta_of p limit = m\<lparr> fm_max_hops := resolve_max_hops (fm_max_hops m) limit,
       fm_group_hop_limits := fm_group_hop_limits (meta_of p limit) \<rparr>"
    by (simp add: meta_of_def w wire_hops_def)
  have dr: "detail_read E uid (ev_detail evt)" using assms(2,4) by (simp add: event_ok_def)
  note sel = user_geo_sel [OF g(2)]
  show ?thesis
  proof (cases "ev_detail evt")
    case None
    with g(1) have "xml = []" by (simp add: detail_to_xml_string_def)
    then show ?thesis
      using no_user_geo [OF None g(2)] assms meta
      by (auto simp: decode_federated_event_def g(3) sel or_empty_def str_truthy_def new_event_def None Let_def
          split: option.splits)
  next
    case (Some d)
    then obtain d' where d': "xml \<noteq> []" "parse_other E xml = Some d'" "patch_uid uid d' = d"
      using detail_text_parses [OF assms(1) dr [unfolded Some] assms(8) [unfolded Some]] g(1) by auto
    then show ?thesis
      using assms meta
      by (auto simp: decode_federated_event_def g(3) sel or_empty_def str_truthy_def new_event_def Some Let_def
          split: option.splits)
  qed
qed

theorem encode_decode_roundtrip_witness:
  "\<exists>p m. encode_federated_event epoch_env epoch_event (Some hop_meta) = Inr p \<and>
     decode_federated_event epoch_env p 2 = Inr (Some epoch_event, m) \<and> fm_max_hops m = 2"
proof -
  have "int64_ok (fm_max_hops hop_meta)" "int64_ok (fm_current_hops hop_meta)"
    by (simp_all add: hop_meta_def int64_ok_def)
  from epoch_encodes [OF this, of None None] obtain p where
    p: "encode_federated_event epoch_env epoch_event (Some hop_meta) = Inr p"
    by (auto simp: epoch_event_def new_event_def)
  have x: "xml_lib_ok (env_xml epoch_env)" by (simp add: epoch_env_def ref_xml_ok)
  have t: "ms_to_dt (dt_to_ms (Some 0)) = Inr 0" using ms_to_dt_exact [of 0] by simp
  have pr: "detail_printable epoch_env (ev_detail epoch_event)"
    by (simp add: epoch_event_def new_event_def detail_printable_def detail_elm_def epoch_env_def
        ref_xml_def ref_name_ok_def xml_normal_new_elem)
  have "decode_federated_event epoch_env p 2 = Inr (Some epoch_event,
      hop_meta\<lparr> fm_max_hops := 2, fm_group_hop_limits := fm_group_hop_limits (meta_of p 2) \<rparr>)"
    using encode_decode_roundtrip [OF x epoch_event_ok _ _ _ _ _ pr p, of "''u1''" "''a-f-G''" 0 0 0 2] t
    by (simp add: epoch_event_def new_event_def default_point_def str_truthy_def or_default_error_def
        hop_meta_def resolve_max_hops_def)
  with p show ?thesis by (auto simp: hop_meta_def)
qed

text \<open>
  A time of the years to 2106 crosses the wire within two milliseconds and never into
  the future.
\<close>

theorem wire_time_error:
  assumes "1000 \<le> t" "t < 2 ^ 32 * 1000000"
  shows "\<exists>t'. ms_to_dt (dt_to_ms (Some t)) = Inr t' \<and> t - 2000 < t' \<and> t' \<le> t"
proof -
  have b: "t div 1000 - 1 \<le> dt_to_ms (Some t)" "dt_to_ms (Some t) \<le> t div 1000"
    using dt_to_ms_bounds [of t] assms by simp_all
  have "1 \<le> t div 1000" "t div 1000 < 2 ^ 32 * 1000" using assms by simp_all
  with b have "ms_to_dt (dt_to_ms (Some t)) = Inr (dt_to_ms (Some t) * 1000)"
    by (intro ms_to_dt_exact) linarith+
  moreover have "t - 2000 < dt_to_ms (Some t) * 1000" "dt_to_ms (Some t) * 1000 \<le> t"
    using b by linarith+
  ultimately show ?thesis by blast
qed

theorem wire_time_error_witness:
  "\<exists>t'. ms_to_dt (dt_to_ms (Some 1752000000123456)) = Inr t' \<and>
     1752000000121456 < t' \<and> t' \<le> 1752000000123456"
  using wire_time_error [of 1752000000123456] by simp

text \<open>
  The conversion to milliseconds truncates where it means to convert back exactly: a
  time received as 1001 ms is sent on as 1000 ms.
\<close>

theorem timestamp_loses_a_millisecond:
  "ms_to_dt 1001 = Inr 1001000 \<and> dt_to_ms (Some 1001000) = 1000"
proof
  show "ms_to_dt 1001 = Inr 1001000" using ms_to_dt_exact [of 1001] by simp
  have "trunc (rnd_rat (total_seconds 1001000 * 1000)) = 1000" by code_simp
  then show "dt_to_ms (Some 1001000) = 1000" by (simp add: dt_to_ms_def)
qed

end
