(* ===== verification/Fed_Link.thy ===== *)
theory Fed_Link
  imports Codec
begin

text \<open>
  \<open>_InboundPeerLink\<close> of fed_server.py: the outbound side of one inbound connection, a
  queue of encoded messages behind the gate of codec.py. The group registry is one shared
  object; a link holds a reference to it (\<open>il_gated\<close>) or none, and the registry itself is
  an argument \<open>reg\<close>. The contract of a link, \<open>outbound_link\<close>, is shared with the client
  of client.py.
\<close>

section \<open>State and operations\<close>

record inbound_link =
  il_peer :: string
  il_node_id :: string
  il_max_hops :: int
  il_gated :: bool
  il_outq :: "fed_event list"
  il_stop :: bool

definition new_inbound_link :: "string \<Rightarrow> string \<Rightarrow> int \<Rightarrow> bool \<Rightarrow> inbound_link" where
  "new_inbound_link peer_server_id node_id default_max_hops gated =
     \<lparr> il_peer = peer_server_id, il_node_id = node_id, il_max_hops = default_max_hops,
       il_gated = gated, il_outq = [], il_stop = False \<rparr>"

definition link_registry :: "registry option \<Rightarrow> inbound_link \<Rightarrow> registry option" where
  "link_registry reg l = (if il_gated l then reg else None)"

text \<open>An event that does not encode is logged and dropped, as is one the gate stops.\<close>

definition link_send_event :: "py_env \<Rightarrow> registry option \<Rightarrow> event \<Rightarrow> inbound_link \<Rightarrow> inbound_link" where
  "link_send_event E reg evt l =
     (case prepare_outbound_event E evt (il_node_id l) (il_max_hops l) (link_registry reg l) (il_peer l) of
        Inl _ \<Rightarrow> l
      | Inr None \<Rightarrow> l
      | Inr (Some proto) \<Rightarrow> l\<lparr> il_outq := il_outq l @ [proto] \<rparr>)"

definition link_request_stop :: "inbound_link \<Rightarrow> inbound_link" where
  "link_request_stop l = l\<lparr> il_stop := True \<rparr>"

text \<open>\<open>drain_outbound\<close>, \<open>n\<close> turns of its loop: what it yields and the link afterwards.\<close>

fun drain_outbound :: "nat \<Rightarrow> inbound_link \<Rightarrow> fed_event list \<times> inbound_link" where
  "drain_outbound 0 l = ([], l)"
| "drain_outbound (Suc n) l =
     (if il_stop l then ([], l)
      else (case il_outq l of
              [] \<Rightarrow> drain_outbound n l
            | proto # q \<Rightarrow> (case drain_outbound n (l\<lparr> il_outq := q \<rparr>) of (ps, l') \<Rightarrow> (proto # ps, l'))))"

section \<open>The contract of an outbound link\<close>

text \<open>
  What the manager relies on, for every kind of link: sending appends to the queue what
  the gate makes of the event, or nothing, and changes nothing the gate depends on; a
  message that passed was not yet seen by this node, which is now the last of its
  provenance.
\<close>

locale outbound_link =
  fixes send :: "event \<Rightarrow> 'l \<Rightarrow> 'l"
    and queue :: "'l \<Rightarrow> fed_event list"
    and gate :: "'l \<Rightarrow> event \<Rightarrow> fed_event option"
    and node :: "'l \<Rightarrow> string"
  assumes send_queue: "queue (send e l) = queue l @ (case gate l e of None \<Rightarrow> [] | Some p \<Rightarrow> [p])"
    and send_gate: "gate (send e l) = gate l"
    and gate_marks: "gate l e = Some p \<Longrightarrow>
      \<exists>seen. fe_provenance p = seen @ [node l] \<and> node l \<notin> set seen"
begin

lemma send_all_gate: "gate (fold send es l) = gate l"
  by (induction es arbitrary: l) (simp_all add: send_gate)

lemma send_all_queue: "queue (fold send es l) = queue l @ List.map_filter (gate l) es"
  by (induction es arbitrary: l)
    (simp_all add: send_queue send_gate map_filter_simps split: option.split)

lemma sent_marked:
  "p \<in> set (List.map_filter (gate l) es) \<Longrightarrow>
   \<exists>seen. fe_provenance p = seen @ [node l] \<and> node l \<notin> set seen"
  by (auto simp: map_filter_def intro: gate_marks)

lemma blocked_unchanged: "gate l e = None \<Longrightarrow> queue (send e l) = queue l"
  by (simp add: send_queue)

lemma send_length: "length (queue (fold send es l)) \<le> length (queue l) + length es"
  by (simp add: send_all_queue map_filter_def)

end

text \<open>
  A link that is bound to a peer of a registry (\<open>bound_to\<close>, none where no policy applies)
  tags what it lets through with outbound groups of that peer only, at least one.
\<close>

locale policy_link = outbound_link send queue gate node
  for send :: "event \<Rightarrow> 'l \<Rightarrow> 'l" and queue :: "'l \<Rightarrow> fed_event list"
    and gate :: "'l \<Rightarrow> event \<Rightarrow> fed_event option" and node :: "'l \<Rightarrow> string" +
  fixes bound_to :: "'l \<Rightarrow> (registry \<times> string) option"
  assumes gate_tags: "gate l e = Some p \<Longrightarrow> bound_to l = Some (r, pid) \<Longrightarrow>
      \<exists>ls. ev_local_acl_groups e = Some ls \<and> fe_groups p \<noteq> [] \<and>
        set (fe_groups p) = {g. \<exists>a \<in> set ls. map_outbound r pid a = Some g}"
begin

lemma ungrouped_blocked:
  assumes "bound_to l \<noteq> None" "ev_local_acl_groups e = None \<or> ev_local_acl_groups e = Some []"
  shows "gate l e = None"
proof (cases "gate l e")
  case (Some p)
  obtain r pid where "bound_to l = Some (r, pid)" using assms(1) by auto
  from gate_tags [OF Some this] assms(2) show ?thesis by auto
qed

lemma closed_peer_gets_nothing:
  assumes "bound_to l = Some (r, pid)" "\<And>a. map_outbound r pid a = None"
  shows "queue (fold send es l) = queue l"
proof -
  have "gate l e = None" for e
    using gate_tags [OF _ assms(1)] assms(2) by (cases "gate l e") fastforce+
  then show ?thesis by (simp add: send_all_queue map_filter_def)
qed

lemma queue_tagged:
  assumes "bound_to l = Some (r, pid)" "queue l = []" "p \<in> set (queue (fold send es l))"
  shows "fe_groups p \<noteq> [] \<and> (\<forall>g \<in> set (fe_groups p). \<exists>e \<in> set es. \<exists>ls. ev_local_acl_groups e = Some ls \<and>
     (\<exists>a \<in> set ls. map_outbound r pid a = Some g))"
proof -
  obtain e where e: "e \<in> set es" "gate l e = Some p"
    using assms(2,3) by (auto simp: send_all_queue map_filter_def)
  from gate_tags [OF e(2) assms(1)] e(1) show ?thesis by blast
qed

end

definition link_gate :: "py_env \<Rightarrow> registry option \<Rightarrow> inbound_link \<Rightarrow> event \<Rightarrow> fed_event option" where
  "link_gate E reg l evt =
     (case prepare_outbound_event E evt (il_node_id l) (il_max_hops l) (link_registry reg l) (il_peer l) of
        Inr p \<Rightarrow> p | Inl _ \<Rightarrow> None)"

lemma link_send_event_gate:
  "link_send_event E reg evt l =
     (case link_gate E reg l evt of None \<Rightarrow> l | Some p \<Rightarrow> l\<lparr> il_outq := il_outq l @ [p] \<rparr>)"
  by (simp add: link_send_event_def link_gate_def split: sum.split option.split)

lemma link_registry_outq [simp]: "link_registry reg (l\<lparr> il_outq := q \<rparr>) = link_registry reg l"
  by (simp add: link_registry_def)

lemma link_gate_outq [simp]: "link_gate E reg (l\<lparr> il_outq := q \<rparr>) = link_gate E reg l"
  by (simp add: link_gate_def fun_eq_iff)

lemma prepare_marks:
  assumes "prepare_outbound_event E evt node mh reg peer = Inr (Some p)"
  shows "\<exists>seen. fe_provenance p = seen @ [node] \<and> node \<notin> set seen"
proof -
  have "fe_provenance p = fm_seen (relay_meta node mh (ev_fed_meta evt))" "\<not> loop_drop node (ev_fed_meta evt)"
    using prepare_Some [OF assms] prepare_meta [OF assms] by auto
  then show ?thesis
    by (cases "ev_fed_meta evt") (simp_all add: relay_meta_def loop_drop_def)
qed

interpretation inbound: outbound_link "link_send_event E reg" il_outq "link_gate E reg" il_node_id
  for E reg
proof unfold_locales
  fix e l p
  show "il_outq (link_send_event E reg e l) = il_outq l @ (case link_gate E reg l e of None \<Rightarrow> [] | Some p \<Rightarrow> [p])"
    and "link_gate E reg (link_send_event E reg e l) = link_gate E reg l"
    by (simp_all add: link_send_event_gate split: option.split)
  assume "link_gate E reg l e = Some p"
  then show "\<exists>seen. fe_provenance p = seen @ [il_node_id l] \<and> il_node_id l \<notin> set seen"
    by (auto simp: link_gate_def split: sum.splits intro: prepare_marks)
qed

text \<open>A gated link is bound to its peer under the registry, when the peer has a name.\<close>

definition link_bound :: "registry option \<Rightarrow> inbound_link \<Rightarrow> (registry \<times> string) option" where
  "link_bound reg l =
     (case link_registry reg l of None \<Rightarrow> None | Some r \<Rightarrow> if il_peer l = [] then None else Some (r, il_peer l))"

interpretation inbound_policy: policy_link "link_send_event E reg" il_outq "link_gate E reg" il_node_id "link_bound reg"
  for E reg
proof unfold_locales
  fix l e p r pid
  assume "link_gate E reg l e = Some p" "link_bound reg l = Some (r, pid)"
  then show "\<exists>ls. ev_local_acl_groups e = Some ls \<and> fe_groups p \<noteq> [] \<and>
      set (fe_groups p) = {g. \<exists>a \<in> set ls. map_outbound r pid a = Some g}"
    using prepare_tags by (fastforce simp: link_gate_def link_bound_def split: sum.splits option.splits if_splits)
qed

section \<open>Properties\<close>

lemma drain_outbound_all:
  "\<not> il_stop l \<Longrightarrow> length (il_outq l) \<le> n \<Longrightarrow> drain_outbound n l = (il_outq l, l\<lparr> il_outq := [] \<rparr>)"
  by (induction n arbitrary: l) (auto split: list.split)

lemma send_keeps_stop: "il_stop (fold (link_send_event E reg) es l) = il_stop l"
  by (induction es arbitrary: l) (simp_all add: link_send_event_gate split: option.split)

text \<open>
  A link is a lossless queue behind its gate: whatever events are handed to it, its
  generator then yields exactly the messages the gate makes of them, each once and in
  order, within one turn per event; every one of them names this server as the last of its
  provenance and was not seen by it before. Once the link was told to stop, nothing more
  is yielded.
\<close>

theorem link_delivers_in_order:
  assumes "\<not> il_stop l" "il_outq l = []" "length es \<le> n"
  shows "fst (drain_outbound n (fold (link_send_event E reg) es l)) = List.map_filter (link_gate E reg l) es \<and>
    (\<forall>p \<in> set (List.map_filter (link_gate E reg l) es).
       \<exists>seen. fe_provenance p = seen @ [il_node_id l] \<and> il_node_id l \<notin> set seen) \<and>
    fst (drain_outbound n (link_request_stop (fold (link_send_event E reg) es l))) = []"
proof -
  have "length (il_outq (fold (link_send_event E reg) es l)) \<le> n"
    using inbound.send_length [of E reg es l] assms(2,3) by simp
  then have "fst (drain_outbound n (fold (link_send_event E reg) es l)) = List.map_filter (link_gate E reg l) es"
    using assms(1,2) by (simp add: drain_outbound_all send_keeps_stop inbound.send_all_queue)
  moreover have "fst (drain_outbound m (link_request_stop k)) = []" for m k
    by (cases m) (simp_all add: link_request_stop_def)
  ultimately show ?thesis using inbound.sent_marked by simp
qed

text \<open>The link of peer \<open>p\<close> of the sample registry: the sample event passes, one without groups does not.\<close>

definition sample_link :: inbound_link where
  "sample_link = new_inbound_link ''p'' ''n'' 3 True"

theorem link_delivers_in_order_witness:
  "\<exists>p. fst (drain_outbound 2 (fold (link_send_event epoch_env (Some sample_registry))
     [sample_out, sample_out\<lparr> ev_local_acl_groups := None \<rparr>] sample_link)) = [p]"
proof -
  obtain p where p: "prepare_outbound_event epoch_env sample_out ''n'' 3 (Some sample_registry) ''p'' = Inr (Some p)"
    using sample_out_prepared by blast
  have "prepare_outbound_event epoch_env (sample_out\<lparr> ev_local_acl_groups := None \<rparr>) ''n'' 3
      (Some sample_registry) ''p'' = Inr None"
    by (simp add: prepare_outbound_event_def outbound_groups_def Let_def)
  with p have "List.map_filter (link_gate epoch_env (Some sample_registry) sample_link)
      [sample_out, sample_out\<lparr> ev_local_acl_groups := None \<rparr>] = [p]"
    by (simp add: map_filter_simps link_gate_def link_registry_def sample_link_def new_inbound_link_def)
  then show ?thesis
    using link_delivers_in_order [of sample_link "[sample_out, sample_out\<lparr> ev_local_acl_groups := None \<rparr>]" 2
        epoch_env "Some sample_registry"]
    by (simp add: sample_link_def new_inbound_link_def)
qed

end
