(* ===== verification/Cert_Identity.thy ===== *)
theory Cert_Identity
  imports Prelude
begin

text \<open>
  cert_identity.py: the fingerprint of a certificate as the one identity of a peer. The
  certificate library is the parameter \<open>digest_of_pem\<close> (the SHA-256 digest of the first
  certificate of a PEM text, or an error), the transport's state is what the gRPC calls
  return. JSON documents of channelz are their decoded form: a page of channels, the
  sockets of a subchannel, the certificate of a socket; a call that raises or whose
  answer does not decode is an error.
\<close>

section \<open>Fingerprints\<close>

definition is_hex :: "char \<Rightarrow> bool" where
  "is_hex c = (let n = of_char c :: nat in
     (48 \<le> n \<and> n \<le> 57) \<or> (65 \<le> n \<and> n \<le> 70) \<or> (97 \<le> n \<and> n \<le> 102))"

text \<open>
  \<open>upper()\<close> on the letters of ASCII; no other 8-bit character becomes a hexadecimal digit.
\<close>

definition up :: "char \<Rightarrow> char" where
  "up c = (let n = of_char c :: nat in if 97 \<le> n \<and> n \<le> 122 then char_of (n - 32) else c)"

text \<open>The pattern: \<open>n\<close> pairs of hexadecimal digits, each but the last before a colon.\<close>

fun hex_pairs :: "nat \<Rightarrow> string \<Rightarrow> bool" where
  "hex_pairs 0 s = False"
| "hex_pairs (Suc 0) s = (case s of [a, b] \<Rightarrow> is_hex a \<and> is_hex b | _ \<Rightarrow> False)"
| "hex_pairs (Suc (Suc n)) s =
     (case s of a # b # c # r \<Rightarrow> is_hex a \<and> is_hex b \<and> c = CHR '':'' \<and> hex_pairs (Suc n) r | _ \<Rightarrow> False)"

definition normalize_fingerprint_colon_hex :: "string \<Rightarrow> py_error + string" where
  "normalize_fingerprint_colon_hex raw =
     (let candidate = map up (py_strip raw) in
      if hex_pairs 32 candidate then Inr candidate else Inl FingerprintFormatError)"

definition hex_digit :: "nat \<Rightarrow> char" where
  "hex_digit d = char_of (if d < 10 then 48 + d else 55 + d)"

text \<open>\<open>:\<close> joining the two upper-case digits of every byte of the digest.\<close>

definition hex_byte :: "nat \<Rightarrow> string" where
  "hex_byte b = [hex_digit (b div 16), hex_digit (b mod 16)]"

definition leaf_fingerprint_sha256_colon_hex :: "nat list \<Rightarrow> string" where
  "leaf_fingerprint_sha256_colon_hex digest = py_join (CHR '':'') (map hex_byte digest)"

text \<open>The digest of SHA-256: 32 bytes.\<close>

definition digest_ok :: "nat list \<Rightarrow> bool" where
  "digest_ok d = (length d = 32 \<and> list_all (\<lambda>b. b < 256) d)"

definition fingerprint_from_pem :: "(string \<Rightarrow> py_error + nat list) \<Rightarrow> string \<Rightarrow> py_error + string" where
  "fingerprint_from_pem digest_of_pem pem =
     rbind (digest_of_pem pem) (\<lambda>d. Inr (leaf_fingerprint_sha256_colon_hex d))"

section \<open>The server side: the context of a call\<close>

text \<open>
  What \<open>auth_context().get('x509_pem_cert')\<close> gives: an error of either call, nothing, or a
  list whose first entry is bytes or something else.
\<close>

datatype auth_entry = AuthBytes string | AuthOther

definition peer_fingerprint_from_grpc_context ::
    "(string \<Rightarrow> py_error + nat list) \<Rightarrow> py_error + auth_entry list option \<Rightarrow> string option" where
  "peer_fingerprint_from_grpc_context digest_of_pem pem_list =
     (case pem_list of
        Inr (Some (AuthBytes pem # _)) \<Rightarrow>
          (case fingerprint_from_pem digest_of_pem pem of Inl _ \<Rightarrow> None | Inr fp \<Rightarrow> Some fp)
      | _ \<Rightarrow> None)"

section \<open>The client side: channelz\<close>

definition channelz_target_matches :: "string \<Rightarrow> string \<Rightarrow> bool" where
  "channelz_target_matches channelz_target dialed_target =
     (channelz_target \<noteq> [] \<and> dialed_target \<noteq> [] \<and>
      (channelz_target = dialed_target \<or> py_endswith channelz_target (CHR ''/'' # dialed_target)))"

text \<open>A channel of a page: its id when it reads as a number, target and subchannel ids.\<close>

record cz_channel =
  cz_id :: "py_error + int"
  cz_target :: string
  cz_subs :: "string option list"

record cz_page =
  cz_channels :: "cz_channel list"
  cz_end :: bool

text \<open>
  The transport state a walk sees: the page from an id on, the socket ids of a subchannel,
  the decoded remote certificate of a socket (none on an insecure one).
\<close>

record channelz =
  cz_top :: "int \<Rightarrow> py_error + cz_page"
  cz_sub :: "string \<Rightarrow> py_error + string option list"
  cz_sock :: "string \<Rightarrow> py_error + (py_error + string) option"

definition socket_fingerprint ::
    "(string \<Rightarrow> py_error + nat list) \<Rightarrow> channelz \<Rightarrow> string option \<Rightarrow> string set" where
  "socket_fingerprint digest_of_pem Z sock_id =
     (case sock_id of
        None \<Rightarrow> {}
      | Some i \<Rightarrow>
          (case cz_sock Z i of
             Inr (Some pem) \<Rightarrow>
               (case rbind pem (fingerprint_from_pem digest_of_pem) of Inl _ \<Rightarrow> {} | Inr fp \<Rightarrow> {fp})
           | _ \<Rightarrow> {}))"

definition subchannel_remote_cert_fingerprints ::
    "(string \<Rightarrow> py_error + nat list) \<Rightarrow> channelz \<Rightarrow> string option \<Rightarrow> string set" where
  "subchannel_remote_cert_fingerprints digest_of_pem Z sub_id =
     (case sub_id of
        None \<Rightarrow> {}
      | Some i \<Rightarrow>
          (case cz_sub Z i of
             Inl _ \<Rightarrow> {}
           | Inr socks \<Rightarrow> \<Union> (set (map (socket_fingerprint digest_of_pem Z) socks))))"

definition page_fingerprints ::
    "(string \<Rightarrow> py_error + nat list) \<Rightarrow> channelz \<Rightarrow> string \<Rightarrow> cz_channel list \<Rightarrow> string set" where
  "page_fingerprints digest_of_pem Z target chans =
     \<Union> (set (map (\<lambda>c. \<Union> (set (map (subchannel_remote_cert_fingerprints digest_of_pem Z) (cz_subs c))))
       (filter (\<lambda>c. channelz_target_matches (cz_target c) target) chans)))"

text \<open>The next start id: one more than the largest id; an id that does not read ends the walk.\<close>

fun max_id :: "cz_channel list \<Rightarrow> int option" where
  "max_id [] = None"
| "max_id (c # cs) =
     (case cz_id c of
        Inl _ \<Rightarrow> None
      | Inr i \<Rightarrow> if cs = [] then Some i else map_option (max i) (max_id cs))"

fun walk_channels ::
    "nat \<Rightarrow> (string \<Rightarrow> py_error + nat list) \<Rightarrow> channelz \<Rightarrow> string \<Rightarrow> int \<Rightarrow> string set \<Rightarrow> string set" where
  "walk_channels 0 dig Z target start acc = acc"
| "walk_channels (Suc n) dig Z target start acc =
     (case cz_top Z start of
        Inl _ \<Rightarrow> acc
      | Inr page \<Rightarrow>
          (let acc' = acc \<union> page_fingerprints dig Z target (cz_channels page) in
           if cz_end page \<or> cz_channels page = [] then acc'
           else (case max_id (cz_channels page) of
                   None \<Rightarrow> acc'
                 | Some m \<Rightarrow> walk_channels n dig Z target (m + 1) acc')))"

definition observed_server_cert_fingerprints_for_target ::
    "(string \<Rightarrow> py_error + nat list) \<Rightarrow> channelz option \<Rightarrow> string \<Rightarrow> string set" where
  "observed_server_cert_fingerprints_for_target digest_of_pem Z dialed_target =
     (case Z of None \<Rightarrow> {} | Some Z \<Rightarrow> walk_channels 1000 digest_of_pem Z dialed_target 0 {})"

section \<open>Lemmas\<close>

lemma up_idem: "up (up c) = up c"
proof -
  have "of_char (char_of (n - 32) :: char) = n - 32" if "n < 256" for n :: nat
    using that by (simp add: of_char_of)
  moreover have "(of_char c :: nat) < 256" by simp
  ultimately show ?thesis by (auto simp: up_def Let_def)
qed

lemma hex_pairs_set: "hex_pairs n s \<Longrightarrow> c \<in> set s \<Longrightarrow> is_hex c \<or> c = CHR '':''"
  by (induction n s rule: hex_pairs.induct) (auto split: list.splits)

lemma is_hex_not_ws: "is_hex c \<Longrightarrow> \<not> py_ws c"
  by (auto simp: is_hex_def py_ws_def Let_def)

lemma hex_pairs_trimmed: "hex_pairs n s \<Longrightarrow> trimmed s"
proof -
  assume h: "hex_pairs n s"
  have "\<not> py_ws c" if "c \<in> set s" for c
    using hex_pairs_set [OF h that] is_hex_not_ws [of c] by (auto simp: py_ws_def)
  then show ?thesis by (cases "s = []") (simp_all add: trimmed_def)
qed

lemma hex_pairs_ne: "hex_pairs n s \<Longrightarrow> s \<noteq> []"
  by (cases "(n, s)" rule: hex_pairs.cases) auto

lemma hex_digit_ok: "d < 16 \<Longrightarrow> is_hex (hex_digit d) \<and> up (hex_digit d) = hex_digit d"
  by (simp add: is_hex_def up_def hex_digit_def of_char_of Let_def)

lemma hex_byte_ok: "b < 256 \<Longrightarrow> \<exists>x y. hex_byte b = [x, y] \<and> is_hex x \<and> is_hex y \<and> up x = x \<and> up y = y"
  using hex_digit_ok [of "b div 16"] hex_digit_ok [of "b mod 16"] by (simp add: hex_byte_def)

lemma hex_pairs_join:
  "ds \<noteq> [] \<Longrightarrow> list_all (\<lambda>b. b < 256) ds \<Longrightarrow>
   hex_pairs (length ds) (py_join (CHR '':'') (map hex_byte ds)) \<and>
   map up (py_join (CHR '':'') (map hex_byte ds)) = py_join (CHR '':'') (map hex_byte ds)"
proof (induction ds)
  case Nil
  then show ?case by simp
next
  case (Cons d ds)
  obtain x y where xy: "hex_byte d = [x, y]" "is_hex x" "is_hex y" "up x = x" "up y = y"
    using hex_byte_ok [of d] Cons.prems by auto
  have colon: "up (CHR '':'') = CHR '':''" by (simp add: up_def)
  show ?case
  proof (cases ds)
    case Nil
    with xy show ?thesis by simp
  next
    case (Cons e es)
    with Cons.IH Cons.prems xy colon show ?thesis by simp
  qed
qed

text \<open>The fingerprint of a certificate is already in the canonical form.\<close>

lemma normalize_fingerprint:
  assumes "digest_ok d"
  shows "normalize_fingerprint_colon_hex (leaf_fingerprint_sha256_colon_hex d) =
    Inr (leaf_fingerprint_sha256_colon_hex d)"
proof -
  have "d \<noteq> []" using assms by (auto simp: digest_ok_def)
  with assms hex_pairs_join [of d] show ?thesis
    by (simp add: normalize_fingerprint_colon_hex_def leaf_fingerprint_sha256_colon_hex_def
        digest_ok_def py_strip_trimmed [OF hex_pairs_trimmed [of 32]] Let_def)
qed

lemma of_char_hex_digit: "d < 16 \<Longrightarrow> (of_char (hex_digit d) :: nat) = (if d < 10 then 48 + d else 55 + d)"
  by (simp add: hex_digit_def of_char_of)

lemma hex_digit_inj:
  assumes "a < 16" "b < 16" "hex_digit a = hex_digit b"
  shows "a = b"
proof -
  have "(if a < 10 then 48 + a else 55 + a) = (if b < 10 then 48 + b else 55 + b)"
    using assms of_char_hex_digit [of a] of_char_hex_digit [of b] by simp
  then show ?thesis by (auto split: if_splits)
qed

lemma hex_byte_inj:
  assumes "a < 256" "b < 256" "hex_byte a = hex_byte b"
  shows "a = b"
proof -
  have "a div 16 = b div 16"
    by (rule hex_digit_inj) (use assms in \<open>auto simp: hex_byte_def\<close>)
  moreover have "a mod 16 = b mod 16"
    by (rule hex_digit_inj) (use assms in \<open>auto simp: hex_byte_def\<close>)
  ultimately show ?thesis by (metis div_mult_mod_eq)
qed

lemma join_hex_Cons:
  "py_join (CHR '':'') (map hex_byte (x # xs)) =
     hex_byte x @ (if xs = [] then [] else CHR '':'' # py_join (CHR '':'') (map hex_byte xs))"
  by (cases xs) simp_all

lemma length_hex_byte [simp]: "length (hex_byte x) = 2"
  by (simp add: hex_byte_def)

lemma hex_join_inj:
  "length a = length b \<Longrightarrow> list_all (\<lambda>b. b < 256) a \<Longrightarrow> list_all (\<lambda>b. b < 256) b \<Longrightarrow>
   py_join (CHR '':'') (map hex_byte a) = py_join (CHR '':'') (map hex_byte b) \<Longrightarrow> a = b"
proof (induction a b rule: list_induct2)
  case Nil
  then show ?case by simp
next
  case (Cons x xs y ys)
  have "hex_byte x = hex_byte y \<and>
      py_join (CHR '':'') (map hex_byte xs) = py_join (CHR '':'') (map hex_byte ys)"
    using Cons.prems(3) Cons.hyps by (auto simp: join_hex_Cons simp del: list.map split: if_splits)
  with Cons.IH Cons.prems(1,2) hex_byte_inj [of x y] show ?case by simp
qed

text \<open>The certificates a walk may report.\<close>

definition observable ::
    "(string \<Rightarrow> py_error + nat list) \<Rightarrow> channelz \<Rightarrow> string \<Rightarrow> string \<Rightarrow> bool" where
  "observable dig Z target fp \<longleftrightarrow>
     (\<exists>start page c i j socks pem d.
        cz_top Z start = Inr page \<and> c \<in> set (cz_channels page) \<and>
        channelz_target_matches (cz_target c) target \<and> Some i \<in> set (cz_subs c) \<and>
        cz_sub Z i = Inr socks \<and> Some j \<in> set socks \<and> cz_sock Z j = Inr (Some (Inr pem)) \<and>
        dig pem = Inr d \<and> fp = leaf_fingerprint_sha256_colon_hex d)"

lemma socket_fingerprint_iff:
  "fp \<in> socket_fingerprint dig Z s \<longleftrightarrow>
     (\<exists>i pem d. s = Some i \<and> cz_sock Z i = Inr (Some (Inr pem)) \<and> dig pem = Inr d \<and>
        fp = leaf_fingerprint_sha256_colon_hex d)"
  by (auto simp: socket_fingerprint_def fingerprint_from_pem_def rbind_Inr_iff
      split: option.splits sum.splits)

lemma subchannel_iff:
  "fp \<in> subchannel_remote_cert_fingerprints dig Z s \<longleftrightarrow>
     (\<exists>i socks k. s = Some i \<and> cz_sub Z i = Inr socks \<and> k \<in> set socks \<and> fp \<in> socket_fingerprint dig Z k)"
  by (auto simp: subchannel_remote_cert_fingerprints_def split: option.splits sum.splits)

lemma page_fingerprints_observable:
  "cz_top Z start = Inr page \<Longrightarrow> fp \<in> page_fingerprints dig Z target (cz_channels page) \<Longrightarrow>
   observable dig Z target fp"
  unfolding observable_def page_fingerprints_def
  by (fastforce simp: subchannel_iff socket_fingerprint_iff)

lemma walk_observable:
  "fp \<in> walk_channels n dig Z target start acc \<Longrightarrow> fp \<in> acc \<or> observable dig Z target fp"
proof (induction n arbitrary: start acc)
  case 0
  then show ?case by simp
next
  case (Suc n)
  show ?case
  proof (cases "cz_top Z start")
    case (Inl e)
    with Suc.prems show ?thesis by simp
  next
    case (Inr page)
    then have "fp \<in> acc \<union> page_fingerprints dig Z target (cz_channels page) \<or> observable dig Z target fp"
      using Suc.prems Suc.IH by (auto simp: Let_def split: if_splits option.splits)
    with page_fingerprints_observable [OF Inr] show ?thesis by blast
  qed
qed

section \<open>Properties\<close>

text \<open>
  C32. The fingerprint decides: an operator's text in any case and with white space around
  it is accepted exactly as the fingerprint the runtime computes from the certificate with
  that digest, and two digests have the same fingerprint only when they are equal.
\<close>

theorem configured_fingerprint_matches_certificate:
  assumes "digest_ok d" "digest_ok d'" "map up (py_strip raw) = leaf_fingerprint_sha256_colon_hex d"
  shows "normalize_fingerprint_colon_hex raw = Inr (leaf_fingerprint_sha256_colon_hex d) \<and>
    (leaf_fingerprint_sha256_colon_hex d' = leaf_fingerprint_sha256_colon_hex d \<longleftrightarrow> d' = d)"
proof -
  have "d \<noteq> []" using assms(1) by (auto simp: digest_ok_def)
  then have "hex_pairs 32 (leaf_fingerprint_sha256_colon_hex d)"
    using hex_pairs_join [of d] assms(1) by (simp add: digest_ok_def leaf_fingerprint_sha256_colon_hex_def)
  moreover have "leaf_fingerprint_sha256_colon_hex d' = leaf_fingerprint_sha256_colon_hex d \<Longrightarrow> d' = d"
    using hex_join_inj [of d' d] assms(1,2) by (simp add: digest_ok_def leaf_fingerprint_sha256_colon_hex_def)
  ultimately show ?thesis
    using assms(3) by (auto simp: normalize_fingerprint_colon_hex_def Let_def)
qed

theorem configured_fingerprint_matches_certificate_witness:
  "normalize_fingerprint_colon_hex (leaf_fingerprint_sha256_colon_hex (replicate 32 171) @ '' '') =
     Inr (leaf_fingerprint_sha256_colon_hex (replicate 32 171))"
proof -
  let ?d = "replicate 32 171 :: nat list"
  have d: "digest_ok ?d" by (simp add: digest_ok_def list_all_iff)
  have "?d \<noteq> []" by simp
  then have h: "hex_pairs 32 (leaf_fingerprint_sha256_colon_hex ?d)"
    "map up (leaf_fingerprint_sha256_colon_hex ?d) = leaf_fingerprint_sha256_colon_hex ?d"
    using hex_pairs_join [of ?d] by (simp_all add: leaf_fingerprint_sha256_colon_hex_def list_all_iff)
  have "py_strip (s @ '' '') = py_strip s" if "trimmed s" "s \<noteq> []" for s
    using that by (simp add: py_strip_def py_lstrip_def py_rstrip_def trimmed_def dropWhile_hd_id py_ws_def)
  then have "py_strip (leaf_fingerprint_sha256_colon_hex ?d @ '' '') = leaf_fingerprint_sha256_colon_hex ?d"
    using hex_pairs_trimmed [OF h(1)] hex_pairs_ne [OF h(1)] by (simp add: py_strip_trimmed)
  with h(2) configured_fingerprint_matches_certificate [OF d d] show ?thesis by simp
qed

text \<open>
  C33. Observation fails closed: whatever fails on the way, a reported fingerprint is that of
  a certificate on a live socket of a subchannel of a channel to the dialed target.
\<close>

theorem observed_fingerprints_are_real:
  assumes "fp \<in> observed_server_cert_fingerprints_for_target dig (Some Z) target"
  shows "observable dig Z target fp"
  using assms walk_observable [of fp 1000 dig Z target 0 "{}"]
  by (simp add: observed_server_cert_fingerprints_for_target_def)

theorem observed_fingerprints_are_real_witness:
  "\<exists>Z. observable (\<lambda>_. Inr [1]) Z ''h:1'' (leaf_fingerprint_sha256_colon_hex [1])"
proof -
  define Z where "Z = \<lparr> cz_top = (\<lambda>_. Inr \<lparr> cz_channels =
      [\<lparr> cz_id = Inr 1, cz_target = ''dns:///h:1'', cz_subs = [Some ''2''] \<rparr>], cz_end = True \<rparr>),
    cz_sub = (\<lambda>_. Inr [Some ''3'']), cz_sock = (\<lambda>_. Inr (Some (Inr ''pem''))) \<rparr>"
  have "channelz_target_matches ''dns:///h:1'' ''h:1''"
    by (simp add: channelz_target_matches_def suffix_def)
  then have "leaf_fingerprint_sha256_colon_hex [1] \<in>
      observed_server_cert_fingerprints_for_target (\<lambda>_. Inr [1]) (Some Z) ''h:1''"
    by (simp add: observed_server_cert_fingerprints_for_target_def Z_def page_fingerprints_def
        subchannel_remote_cert_fingerprints_def socket_fingerprint_def fingerprint_from_pem_def
        numeral_eq_Suc)
  from observed_fingerprints_are_real [OF this] show ?thesis by blast
qed

end
