(* ===== verification/Config.thy ===== *)
theory Config
  imports Cert_Identity Py_Float
begin

text \<open>
  config.py: the reading of the federation configuration. A parsed INI file is its
  effective view: the sections in order, each with its options (lower-case names, defaults
  merged, interpolation done), which is what \<open>configparser\<close> answers from. Reading a value
  that is no boolean or integer, and the checks of the source, are errors; the log
  warnings are left out.
\<close>

type_synonym ini = "(string, (string, string) dict) dict"

definition has_section :: "ini \<Rightarrow> string \<Rightarrow> bool" where
  "has_section C s = (dget C s \<noteq> None)"

definition ini_get :: "ini \<Rightarrow> string \<Rightarrow> string \<Rightarrow> string option" where
  "ini_get C s k = (case dget C s of None \<Rightarrow> None | Some d \<Rightarrow> dget d k)"

definition has_option :: "ini \<Rightarrow> string \<Rightarrow> string \<Rightarrow> bool" where
  "has_option C s k = (ini_get C s k \<noteq> None)"

text \<open>\<open>cfg.get(section, key, fallback) or fallback\<close>\<close>

definition get_str :: "ini \<Rightarrow> string \<Rightarrow> string \<Rightarrow> string \<Rightarrow> string" where
  "get_str C s k fallback = (case ini_get C s k of None \<Rightarrow> fallback | Some v \<Rightarrow> if v = [] then fallback else v)"

definition boolean_states :: "(string, bool) dict" where
  "boolean_states = [(''1'', True), (''yes'', True), (''true'', True), (''on'', True),
     (''0'', False), (''no'', False), (''false'', False), (''off'', False)]"

definition get_bool :: "ini \<Rightarrow> string \<Rightarrow> string \<Rightarrow> bool \<Rightarrow> py_error + bool" where
  "get_bool C s k fallback =
     (case ini_get C s k of
        None \<Rightarrow> Inr fallback
      | Some v \<Rightarrow> (case dget boolean_states (map to_lower v) of
                   None \<Rightarrow> Inl ConfigparserError | Some b \<Rightarrow> Inr b))"

definition get_int :: "ini \<Rightarrow> string \<Rightarrow> string \<Rightarrow> int \<Rightarrow> py_error + int" where
  "get_int C s k fallback =
     (case ini_get C s k of
        None \<Rightarrow> Inr fallback
      | Some v \<Rightarrow> (case py_int v of None \<Rightarrow> Inl ConfigparserError | Some i \<Rightarrow> Inr i))"

text \<open>\<open>... or None\<close>\<close>

definition none_if_empty :: "string \<Rightarrow> string option" where
  "none_if_empty v = (if v = [] then None else Some v)"

definition none_if_zero :: "int \<Rightarrow> int option" where
  "none_if_zero i = (if i = 0 then None else Some i)"

definition resolve_alias :: "ini \<Rightarrow> string \<Rightarrow> string \<Rightarrow> string \<Rightarrow> string \<Rightarrow> string" where
  "resolve_alias C s new_key old_key fallback =
     (if has_option C s new_key then get_str C s new_key fallback
      else if has_option C s old_key then get_str C s old_key fallback
      else fallback)"

section \<open>Configuration records\<close>

record peer_config =
  pc_name :: string
  pc_enabled :: bool
  pc_address :: string
  pc_port :: int
  pc_protocol :: string
  pc_ca_cert :: string
  pc_client_cert :: string
  pc_client_key :: string
  pc_max_hops :: int
  pc_group_map_in :: string
  pc_group_map_out :: string
  pc_reconnect_interval :: int
  pc_health_check_interval :: int
  pc_server_id :: string
  pc_fingerprint :: string
  pc_display_name :: string
  pc_protocol_version :: int
  pc_filter :: "string option"
  pc_max_frame_size :: "int option"
  pc_max_retries :: int
  pc_unlimited_retries :: bool
  pc_fallback :: "string option"
  pc_use_token :: bool
  pc_connection_token :: "string option"
  pc_token_type :: "string option"
  pc_notes :: "string option"
  pc_share_alerts :: bool
  pc_archive :: bool
  pc_federated_group_mapping :: bool
  pc_automatic_group_mapping :: bool
  pc_use_group_hop_limiting :: bool
  pc_fallback_when_no_group_mappings :: bool
  pc_token_federate :: bool
  pc_token_expiration :: "int option"
  pc_inbound_group_mapping :: "string option"
  pc_mission_federate_default :: bool

record ssl_config =
  ssl_fed_ca_bundle :: string
  ssl_fed_cert :: string
  ssl_fed_key :: string
  ssl_fed_key_pw :: string
  ssl_fed_verify_hostname :: bool

record fed_config =
  fc_enabled :: bool
  fc_server_id :: string
  fc_server_name :: string
  fc_max_hops :: int
  fc_listen_enabled :: bool
  fc_listen_ip :: string
  fc_listen_port :: int
  fc_insecure_listen :: bool
  fc_default_group_map_in :: string
  fc_default_group_map_out :: string
  fc_peers :: "peer_config list"
  fc_ssl :: ssl_config
  fc_allow_federated_delete :: bool
  fc_allow_mission_federation :: bool
  fc_allow_data_feed_federation :: bool
  fc_mission_disruption_tolerance :: bool
  fc_mission_disruption_recency_secs :: int
  fc_federate_only_public_missions :: bool
  fc_enable_data_pkg_file_filter :: bool
  fc_allow_duplicate :: bool
  fc_initialization_delay_secs :: int
  fc_max_message_size_bytes :: int
  fc_grpc_max_workers :: int
  fc_rol_log_sink :: string
  fc_inject_cot_parser :: bool

definition default_ssl_config :: ssl_config where
  "default_ssl_config = \<lparr> ssl_fed_ca_bundle = [], ssl_fed_cert = [], ssl_fed_key = [],
     ssl_fed_key_pw = [], ssl_fed_verify_hostname = True \<rparr>"

text \<open>\<open>FederationConfig(enabled=False)\<close>\<close>

definition disabled_fed_config :: fed_config where
  "disabled_fed_config = \<lparr> fc_enabled = False, fc_server_id = [], fc_server_name = [],
     fc_max_hops = 3, fc_listen_enabled = False, fc_listen_ip = ''0.0.0.0'', fc_listen_port = 9101,
     fc_insecure_listen = False, fc_default_group_map_in = [], fc_default_group_map_out = [],
     fc_peers = [], fc_ssl = default_ssl_config, fc_allow_federated_delete = True,
     fc_allow_mission_federation = True, fc_allow_data_feed_federation = True,
     fc_mission_disruption_tolerance = False, fc_mission_disruption_recency_secs = 43200,
     fc_federate_only_public_missions = False, fc_enable_data_pkg_file_filter = False,
     fc_allow_duplicate = False, fc_initialization_delay_secs = 30,
     fc_max_message_size_bytes = 268435456, fc_grpc_max_workers = 64, fc_rol_log_sink = [],
     fc_inject_cot_parser = False \<rparr>"

section \<open>Parsing\<close>

definition parse_federation_ssl :: "ini \<Rightarrow> py_error + ssl_config" where
  "parse_federation_ssl C =
     (if \<not> has_section C ''federation_ssl'' then Inr default_ssl_config
      else
        (let sec = ''federation_ssl'' in
         rbind (get_bool C sec ''fed_verify_hostname'' True) (\<lambda>verify.
           Inr \<lparr> ssl_fed_ca_bundle = get_str C sec ''fed_ca_bundle'' [],
             ssl_fed_cert = get_str C sec ''fed_cert'' [], ssl_fed_key = get_str C sec ''fed_key'' [],
             ssl_fed_key_pw = get_str C sec ''fed_key_pw'' [], ssl_fed_verify_hostname = verify \<rparr>)))"

text \<open>The comma separated fingerprints, blank parts skipped, the others in canonical form.\<close>

fun normalize_parts :: "string list \<Rightarrow> py_error + string list" where
  "normalize_parts [] = Inr []"
| "normalize_parts (p # ps) =
     (let part = py_strip p in
      if part = [] then normalize_parts ps
      else (case normalize_fingerprint_colon_hex part of
              Inl _ \<Rightarrow> Inl ConfigparserError
            | Inr fp \<Rightarrow> rbind (normalize_parts ps) (\<lambda>fps. Inr (fp # fps))))"

definition parse_fingerprint :: "string \<Rightarrow> py_error + string" where
  "parse_fingerprint raw =
     (if raw = [] then Inr []
      else rbind (normalize_parts (py_split (CHR '','') raw)) (\<lambda>fps. Inr (py_join (CHR '','') fps)))"

definition parse_peer_section :: "ini \<Rightarrow> string \<Rightarrow> py_error + peer_config" where
  "parse_peer_section C s =
     (let address = get_str C s ''address'' [];
          protocol = get_str C s ''protocol'' ''grpc'';
          group_map_in = resolve_alias C s ''accept_as'' ''group_map_in'' ''*:'';
          group_map_out = resolve_alias C s ''share_as'' ''group_map_out'' ''*:*'';
          display_name = get_str C s ''display_name'' [] in
      if address = [] then Inl ConfigparserError
      else if protocol \<notin> {''grpc'', ''v1fig''} then Inl ConfigparserError
      else if display_name = [] then Inl ConfigError
      else
        rbind (parse_fingerprint (get_str C s ''fingerprint'' [])) (\<lambda>fingerprint.
        rbind (get_bool C s ''enabled'' True) (\<lambda>enabled.
        rbind (get_int C s ''port'' 9100) (\<lambda>port.
        rbind (get_int C s ''max_hops'' (- 1)) (\<lambda>max_hops.
        rbind (get_int C s ''reconnect_interval'' 30) (\<lambda>reconnect.
        rbind (get_int C s ''health_check_interval'' 10) (\<lambda>health.
        rbind (get_int C s ''protocol_version'' 2) (\<lambda>version.
        rbind (get_int C s ''max_frame_size'' 0) (\<lambda>frame.
        rbind (get_int C s ''max_retries'' (- 1)) (\<lambda>retries.
        rbind (get_bool C s ''unlimited_retries'' True) (\<lambda>unlimited.
        rbind (get_bool C s ''use_token'' False) (\<lambda>use_token.
        rbind (get_bool C s ''share_alerts'' True) (\<lambda>share_alerts.
        rbind (get_bool C s ''archive'' True) (\<lambda>archive.
        rbind (get_bool C s ''federated_group_mapping'' True) (\<lambda>fgm.
        rbind (get_bool C s ''automatic_group_mapping'' False) (\<lambda>agm.
        rbind (get_bool C s ''use_group_hop_limiting'' False) (\<lambda>ghl.
        rbind (get_bool C s ''fallback_when_no_group_mappings'' False) (\<lambda>fb.
        rbind (get_bool C s ''token_federate'' False) (\<lambda>token_federate.
        rbind (get_int C s ''token_expiration'' 0) (\<lambda>token_expiration.
        rbind (get_bool C s ''mission_federate_default'' True) (\<lambda>mission.
          Inr \<lparr> pc_name = drop 9 s, pc_enabled = enabled, pc_address = address, pc_port = port,
            pc_protocol = protocol, pc_ca_cert = get_str C s ''ca_cert'' [],
            pc_client_cert = get_str C s ''client_cert'' [],
            pc_client_key = get_str C s ''client_key'' [], pc_max_hops = max_hops,
            pc_group_map_in = group_map_in, pc_group_map_out = group_map_out,
            pc_reconnect_interval = reconnect, pc_health_check_interval = health,
            pc_server_id = get_str C s ''server_id'' [], pc_fingerprint = fingerprint,
            pc_display_name = display_name, pc_protocol_version = version,
            pc_filter = none_if_empty (get_str C s ''filter'' []),
            pc_max_frame_size = none_if_zero frame, pc_max_retries = retries,
            pc_unlimited_retries = unlimited,
            pc_fallback = none_if_empty (get_str C s ''fallback'' []),
            pc_use_token = use_token, pc_connection_token = ini_get C s ''connection_token'',
            pc_token_type = none_if_empty (get_str C s ''token_type'' []),
            pc_notes = none_if_empty (get_str C s ''notes'' []),
            pc_share_alerts = share_alerts, pc_archive = archive,
            pc_federated_group_mapping = fgm, pc_automatic_group_mapping = agm,
            pc_use_group_hop_limiting = ghl, pc_fallback_when_no_group_mappings = fb,
            pc_token_federate = token_federate, pc_token_expiration = none_if_zero token_expiration,
            pc_inbound_group_mapping = none_if_empty (get_str C s ''inbound_group_mapping'' []),
            pc_mission_federate_default = mission \<rparr>)))))))))))))))))))))"

text \<open>The peers, in file order; only enabled ones are kept, all are checked.\<close>

fun parse_peers :: "ini \<Rightarrow> string list \<Rightarrow> py_error + peer_config list" where
  "parse_peers C [] = Inr []"
| "parse_peers C (s # ss) =
     (if \<not> py_startswith s ''federate:'' then parse_peers C ss
      else rbind (parse_peer_section C s) (\<lambda>p.
           rbind (parse_peers C ss) (\<lambda>ps. Inr (if pc_enabled p then p # ps else ps))))"

definition parse_enabled_config :: "ini \<Rightarrow> py_error + fed_config" where
  "parse_enabled_config C =
     (let f = ''federation''; server_id = get_str C f ''server_id'' [] in
      if server_id = [] then Inl ConfigparserError
      else
        rbind (get_int C f ''max_hops'' 3) (\<lambda>max_hops.
        rbind (get_int C f ''grpc_max_workers'' 64) (\<lambda>workers.
        rbind (get_bool C f ''listen_enabled'' False) (\<lambda>listen_enabled.
        rbind (get_bool C f ''insecure_listen'' False) (\<lambda>insecure.
        rbind (get_int C f ''listen_port'' 9101) (\<lambda>listen_port.
        rbind (parse_peers C (map fst C)) (\<lambda>peers.
        rbind (parse_federation_ssl C) (\<lambda>ssl.
        rbind (get_bool C f ''allow_federated_delete'' True) (\<lambda>del.
        rbind (get_bool C f ''allow_mission_federation'' True) (\<lambda>mission.
        rbind (get_bool C f ''allow_data_feed_federation'' True) (\<lambda>feed.
        rbind (get_bool C f ''enable_mission_fed_disruption_tolerance'' False) (\<lambda>tol.
        rbind (get_int C f ''mission_fed_disruption_tolerance_recency_secs'' 43200) (\<lambda>recency.
        rbind (get_bool C f ''federate_only_public_missions'' False) (\<lambda>public.
        rbind (get_bool C f ''enable_data_pkg_file_filter'' False) (\<lambda>pkg.
        rbind (get_bool C f ''allow_duplicate'' False) (\<lambda>dup.
        rbind (get_int C f ''initialization_delay_secs'' 30) (\<lambda>delay.
        rbind (get_int C f ''max_message_size_bytes'' 268435456) (\<lambda>size.
        rbind (get_bool C f ''inject_cot_parser'' False) (\<lambda>inject.
          Inr \<lparr> fc_enabled = True, fc_server_id = server_id,
            fc_server_name = get_str C f ''server_name'' server_id, fc_max_hops = max_hops,
            fc_listen_enabled = listen_enabled, fc_listen_ip = get_str C f ''listen_ip'' ''0.0.0.0'',
            fc_listen_port = listen_port, fc_insecure_listen = insecure,
            fc_default_group_map_in = resolve_alias C f ''accept_as'' ''default_group_map_in'' [],
            fc_default_group_map_out = resolve_alias C f ''share_as'' ''default_group_map_out'' [],
            fc_peers = peers, fc_ssl = ssl, fc_allow_federated_delete = del,
            fc_allow_mission_federation = mission, fc_allow_data_feed_federation = feed,
            fc_mission_disruption_tolerance = tol, fc_mission_disruption_recency_secs = recency,
            fc_federate_only_public_missions = public, fc_enable_data_pkg_file_filter = pkg,
            fc_allow_duplicate = dup, fc_initialization_delay_secs = delay,
            fc_max_message_size_bytes = size, fc_grpc_max_workers = workers,
            fc_rol_log_sink = get_str C f ''rol_log_sink'' [],
            fc_inject_cot_parser = inject \<rparr>)))))))))))))))))))"

definition get_federation_config :: "ini \<Rightarrow> py_error + fed_config" where
  "get_federation_config C =
     (if \<not> has_section C ''federation'' then Inr disabled_fed_config
      else
        rbind (get_bool C ''federation'' ''enabled'' True) (\<lambda>fed_enabled.
          if \<not> fed_enabled then Inr disabled_fed_config else parse_enabled_config C))"

section \<open>Lemmas\<close>

text \<open>What holds of every peer that was read.\<close>

definition peer_config_ok :: "peer_config \<Rightarrow> bool" where
  "peer_config_ok p =
     (pc_enabled p \<and> pc_address p \<noteq> [] \<and> pc_display_name p \<noteq> [] \<and>
      (pc_protocol p = ''grpc'' \<or> pc_protocol p = ''v1fig'') \<and>
      (pc_fingerprint p = [] \<or>
       list_all (\<lambda>fp. normalize_fingerprint_colon_hex fp = Inr fp) (py_split (CHR '','') (pc_fingerprint p))))"

lemma normalize_Inr:
  assumes "normalize_fingerprint_colon_hex raw = Inr fp"
  shows "normalize_fingerprint_colon_hex fp = Inr fp" "CHR '','' \<notin> set fp" "fp \<noteq> []"
proof -
  have h: "hex_pairs 32 fp" and fp: "fp = map up (py_strip raw)"
    using assms by (auto simp: normalize_fingerprint_colon_hex_def Let_def split: if_splits)
  have "map up fp = fp" by (simp add: fp up_idem)
  with h show "normalize_fingerprint_colon_hex fp = Inr fp"
    by (simp add: normalize_fingerprint_colon_hex_def py_strip_trimmed [OF hex_pairs_trimmed [OF h]])
  show "CHR '','' \<notin> set fp"
    using hex_pairs_set [OF h, of "CHR '',''"] by (auto simp: is_hex_def)
  show "fp \<noteq> []" by (rule hex_pairs_ne [OF h])
qed

lemma normalize_parts_Inr:
  "normalize_parts ps = Inr fps \<Longrightarrow> fp \<in> set fps \<Longrightarrow>
   normalize_fingerprint_colon_hex fp = Inr fp \<and> CHR '','' \<notin> set fp"
  by (induction ps arbitrary: fps)
    (auto simp: rbind_Inr_iff Let_def normalize_Inr split: if_splits sum.splits)

lemma parse_fingerprint_Inr:
  assumes "parse_fingerprint raw = Inr fp" "fp \<noteq> []"
  shows "list_all (\<lambda>f. normalize_fingerprint_colon_hex f = Inr f) (py_split (CHR '','') fp)"
proof -
  obtain fps where p: "normalize_parts (py_split (CHR '','') raw) = Inr fps" "fp = py_join (CHR '','') fps"
    using assms by (auto simp: parse_fingerprint_def rbind_Inr_iff split: if_splits)
  then have "fps \<noteq> []" using assms(2) by auto
  moreover have "\<forall>f \<in> set fps. CHR '','' \<notin> set f" using normalize_parts_Inr [OF p(1)] by blast
  ultimately have "py_split (CHR '','') fp = fps" by (simp add: p(2) py_split_join)
  then show ?thesis using normalize_parts_Inr [OF p(1)] by (simp add: list_all_iff)
qed

lemma parse_peer_section_ok:
  "parse_peer_section C s = Inr p \<Longrightarrow> pc_enabled p \<Longrightarrow> peer_config_ok p"
  by (auto simp: parse_peer_section_def rbind_Inr_iff Let_def peer_config_ok_def
      split: if_splits dest: parse_fingerprint_Inr)

lemma parse_peers_ok: "parse_peers C ss = Inr ps \<Longrightarrow> p \<in> set ps \<Longrightarrow> peer_config_ok p"
  by (induction ss arbitrary: ps)
    (auto simp: rbind_Inr_iff split: if_splits dest: parse_peer_section_ok)

lemma parse_enabled_config_sel:
  assumes "parse_enabled_config C = Inr cfg"
  shows "fc_enabled cfg" "fc_server_id cfg \<noteq> []" "parse_peers C (map fst C) = Inr (fc_peers cfg)"
    "parse_federation_ssl C = Inr (fc_ssl cfg)"
  using assms by (auto simp: parse_enabled_config_def rbind_Inr_iff Let_def split: if_splits)

lemma strip_normalized: "normalize_fingerprint_colon_hex fp = Inr fp \<Longrightarrow> py_strip fp = fp"
  using hex_pairs_trimmed [of 32 fp]
  by (auto simp: normalize_fingerprint_colon_hex_def Let_def py_strip_trimmed split: if_splits)

section \<open>A sample configuration\<close>

lemma parse_fingerprint_canonical:
  assumes "normalize_fingerprint_colon_hex fp = Inr fp"
  shows "parse_fingerprint fp = Inr fp"
  using normalize_Inr [OF assms] assms strip_normalized [OF assms]
  by (simp add: parse_fingerprint_def py_split_no_sep)

definition sample_fp :: string where
  "sample_fp = leaf_fingerprint_sha256_colon_hex (replicate 32 171)"

definition sample_ini :: ini where
  "sample_ini = [(''federation'', [(''server_id'', ''s''), (''accept_as'', ''*:Cyan'')]),
     (''federate:p'', [(''address'', ''h''), (''display_name'', ''d''), (''fingerprint'', sample_fp)])]"

lemma sample_fp_canonical: "normalize_fingerprint_colon_hex sample_fp = Inr sample_fp"
  unfolding sample_fp_def by (rule normalize_fingerprint) (simp add: digest_ok_def list_all_iff)

lemma sample_fp_ne: "sample_fp \<noteq> []"
  using normalize_Inr [OF sample_fp_canonical] by simp

lemmas ini_simps = get_str_def get_bool_def get_int_def ini_get_def resolve_alias_def has_option_def
  has_section_def none_if_empty_def none_if_zero_def

definition sample_peer :: peer_config where
  "sample_peer = projr (parse_peer_section sample_ini ''federate:p'')"

definition sample_config :: fed_config where
  "sample_config = projr (get_federation_config sample_ini)"

lemma sample_peer_parses: "parse_peer_section sample_ini ''federate:p'' = Inr sample_peer"
  by (simp add: sample_peer_def parse_peer_section_def sample_ini_def ini_simps
      parse_fingerprint_canonical [OF sample_fp_canonical] sample_fp_ne)

lemma sample_peer_sel [simp]: "pc_enabled sample_peer" "pc_address sample_peer = ''h''" "pc_port sample_peer = 9100"
  "pc_server_id sample_peer = []" "pc_fingerprint sample_peer = sample_fp" "pc_group_map_in sample_peer = ''*:''"
  "pc_group_map_out sample_peer = ''*:*''" "\<not> pc_fallback_when_no_group_mappings sample_peer"
  by (simp_all add: sample_peer_def parse_peer_section_def sample_ini_def ini_simps
      parse_fingerprint_canonical [OF sample_fp_canonical] sample_fp_ne)


lemma sample_fed_get [simp]:
  "ini_get sample_ini ''federation'' k =
     (if k = ''server_id'' then Some ''s'' else if k = ''accept_as'' then Some ''*:Cyan'' else None)"
  by (simp add: sample_ini_def ini_get_def)

lemma sample_has [simp]: "has_section sample_ini ''federation''" "\<not> has_section sample_ini ''federation_ssl''"
  by (simp_all add: sample_ini_def has_section_def)


lemma sample_get_bool: "hd k \<noteq> CHR ''s'' \<Longrightarrow> k \<noteq> ''accept_as'' \<Longrightarrow> get_bool sample_ini ''federation'' k b = Inr b"
  by (auto simp: get_bool_def)

lemma sample_get_int: "hd k \<noteq> CHR ''s'' \<Longrightarrow> k \<noteq> ''accept_as'' \<Longrightarrow> get_int sample_ini ''federation'' k b = Inr b"
  by (auto simp: get_int_def)

lemma sample_server_id: "get_str sample_ini ''federation'' ''server_id'' [] = ''s''"
  by (simp add: get_str_def)

lemma sample_config_parses: "get_federation_config sample_ini = Inr sample_config" "fc_peers sample_config = [sample_peer]"
proof -
  have p: "parse_peers sample_ini (map fst sample_ini) = Inr [sample_peer]"
    using sample_peer_parses by (simp add: sample_ini_def)
  have s: "parse_federation_ssl sample_ini = Inr default_ssl_config" by (simp add: parse_federation_ssl_def)
  have "\<exists>cfg. parse_enabled_config sample_ini = Inr cfg"
    by (simp add: parse_enabled_config_def Let_def sample_server_id sample_get_bool sample_get_int p s)
  then obtain cfg where cfg: "parse_enabled_config sample_ini = Inr cfg" ..
  have "get_federation_config sample_ini = Inr cfg"
    by (simp add: get_federation_config_def sample_get_bool cfg)
  moreover have "fc_peers cfg = [sample_peer]"
    using parse_enabled_config_sel(3) [OF cfg] p by simp
  ultimately show "get_federation_config sample_ini = Inr sample_config" "fc_peers sample_config = [sample_peer]"
    by (simp_all add: sample_config_def)
qed

section \<open>Properties\<close>

text \<open>
  C34. What the rest of the engine may assume of a configuration that was read: either
  federation is off and the configuration is the disabled one, or it is on, this server
  has an id that is not empty, and every peer kept is enabled, has an address and a
  display name, a known protocol, and only fingerprints in canonical form; the peers are
  the enabled sections of the file in order.
\<close>

theorem parsed_configuration_is_sound:
  assumes "get_federation_config C = Inr cfg"
  shows "cfg = disabled_fed_config \<and> \<not> fc_enabled cfg \<or>
    fc_enabled cfg \<and> fc_server_id cfg \<noteq> [] \<and> list_all peer_config_ok (fc_peers cfg) \<and>
    parse_peers C (map fst C) = Inr (fc_peers cfg)"
proof (cases "cfg = disabled_fed_config")
  case True
  then show ?thesis by (simp add: disabled_fed_config_def)
next
  case False
  with assms have "parse_enabled_config C = Inr cfg"
    by (auto simp: get_federation_config_def rbind_Inr_iff split: if_splits)
  from parse_enabled_config_sel [OF this] show ?thesis
    by (auto simp: list_all_iff intro: parse_peers_ok)
qed

theorem parsed_configuration_is_sound_witness:
  "fc_enabled sample_config \<and> list_all peer_config_ok [sample_peer]"
proof -
  have "fc_peers sample_config \<noteq> fc_peers disabled_fed_config"
    unfolding sample_config_parses(2) by (simp add: disabled_fed_config_def)
  then have "sample_config \<noteq> disabled_fed_config" by metis
  then show ?thesis
    using parsed_configuration_is_sound [OF sample_config_parses(1)] sample_config_parses(2) by simp
qed

end
