(* ===== verification/Registry_Build.thy ===== *)
theory Registry_Build
  imports Config Group_Registry
begin

text \<open>
  \<open>FederationManager._build_group_registry\<close> of manager.py: the group registry that the
  configuration describes. Each peer is registered under its address and port, and under
  the server id the operator declared; its fingerprints resolve to the declared id, or
  else to address and port.
\<close>

definition provisional_id :: "peer_config \<Rightarrow> string" where
  "provisional_id p = pc_address p @ '':'' @ py_str (pc_port p)"

text \<open>A mapping text that does not parse counts as one without entries.\<close>

definition entries_of :: "string \<Rightarrow> direction \<Rightarrow> group_map_entry list" where
  "entries_of raw dir = (case parse_group_map raw dir of Inl _ \<Rightarrow> [] | Inr es \<Rightarrow> es)"

definition add_entries :: "string \<Rightarrow> group_map_entry list \<Rightarrow> registry \<Rightarrow> registry" where
  "add_entries pid es r = fold (\<lambda>e. add_peer_map (e\<lparr> ge_peer_id := pid \<rparr>)) es r"

definition register_fingerprints :: "peer_config \<Rightarrow> registry \<Rightarrow> registry" where
  "register_fingerprints p r =
     (if pc_fingerprint p = [] then r
      else
        (let key = (if pc_server_id p \<noteq> [] then pc_server_id p else provisional_id p) in
         fold (\<lambda>part r. let fp = py_strip part in if fp = [] then r else register_fingerprint fp key r)
           (py_split (CHR '','') (pc_fingerprint p)) r))"

definition add_map_text :: "peer_config \<Rightarrow> string \<Rightarrow> direction \<Rightarrow> registry \<Rightarrow> registry" where
  "add_map_text p raw dir r =
     (if raw = [] then r
      else
        (let es = entries_of raw dir; r1 = add_entries (provisional_id p) es r in
         if pc_server_id p \<noteq> [] then add_entries (pc_server_id p) es r1 else r1))"

definition add_peer :: "peer_config \<Rightarrow> registry \<Rightarrow> registry" where
  "add_peer p r =
     (if \<not> pc_enabled p then r
      else
        (let r1 = register_fingerprints p r;
             r2 = (if pc_fallback_when_no_group_mappings p
                   then (let r' = set_fallback_allow (provisional_id p) True r1 in
                         if pc_server_id p \<noteq> [] then set_fallback_allow (pc_server_id p) True r' else r')
                   else r1) in
         add_map_text p (pc_group_map_out p) DOut (add_map_text p (pc_group_map_in p) DIn r2)))"

definition default_policy :: "fed_config \<Rightarrow> registry" where
  "default_policy cfg =
     (let es_in = (if fc_default_group_map_in cfg = [] then [] else entries_of (fc_default_group_map_in cfg) DIn);
          r1 = (if es_in = [] then empty_registry else set_default_in_map es_in empty_registry);
          es_out = (if fc_default_group_map_out cfg = [] then []
                    else entries_of (fc_default_group_map_out cfg) DOut) in
      if es_out = [] then r1 else set_default_out_map es_out r1)"

definition build_group_registry :: "fed_config \<Rightarrow> registry" where
  "build_group_registry cfg = fold add_peer (fc_peers cfg) (default_policy cfg)"

section \<open>Lemmas\<close>

lemma add_entries_built: "built_registry r \<Longrightarrow> built_registry (add_entries pid es r)"
  unfolding add_entries_def
  by (induction es arbitrary: r) (auto intro: built_registry.intros)

lemma add_map_text_built: "built_registry r \<Longrightarrow> built_registry (add_map_text p raw dir r)"
  by (simp add: add_map_text_def add_entries_built Let_def)

lemma register_fingerprints_built: "built_registry r \<Longrightarrow> built_registry (register_fingerprints p r)"
proof -
  have "built_registry r \<Longrightarrow> built_registry (fold (\<lambda>part r. let fp = py_strip part in
      if fp = [] then r else register_fingerprint fp key r) parts r)" for key parts
    by (induction parts arbitrary: r) (auto simp: Let_def intro: built_registry.intros)
  then show "built_registry r \<Longrightarrow> built_registry (register_fingerprints p r)"
    by (simp add: register_fingerprints_def Let_def)
qed

lemma add_peer_built: "built_registry r \<Longrightarrow> built_registry (add_peer p r)"
  by (auto simp: add_peer_def Let_def intro!: add_map_text_built register_fingerprints_built
      built_registry.intros)

lemma default_policy_built: "built_registry (default_policy cfg)"
  by (auto simp: default_policy_def Let_def intro!: built_registry.intros)

lemma build_group_registry_built: "built_registry (build_group_registry cfg)"
proof -
  have "built_registry r \<Longrightarrow> built_registry (fold add_peer ps r)" for ps r
    by (induction ps arbitrary: r) (auto intro: add_peer_built)
  then show ?thesis by (simp add: build_group_registry_def default_policy_built)
qed

text \<open>The keys a peer is registered under, and what registering it leaves alone.\<close>

definition peer_keys :: "peer_config \<Rightarrow> string list" where
  "peer_keys p = provisional_id p # (if pc_server_id p \<noteq> [] then [pc_server_id p] else [])"

lemma add_entries_keeps [simp]:
  "r_fallback_allow (add_entries pid es r) = r_fallback_allow r"
  "r_default_inbound (add_entries pid es r) = r_default_inbound r"
  "r_fingerprint_to_peer (add_entries pid es r) = r_fingerprint_to_peer r"
  unfolding add_entries_def by (induction es arbitrary: r) auto

lemma add_entries_other: "key \<noteq> pid \<Longrightarrow> dget (r_inbound (add_entries pid es r)) key = dget (r_inbound r) key"
  unfolding add_entries_def by (induction es arbitrary: r) (auto simp: add_peer_map_def Let_def split: option.split)

lemma add_entries_out_inbound:
  "list_all (\<lambda>e. ge_direction e = DOut) es \<Longrightarrow> r_inbound (add_entries pid es r) = r_inbound r"
  unfolding add_entries_def by (induction es arbitrary: r) (auto simp: add_peer_map_def Let_def split: option.split)

lemma add_map_text_frame [simp]:
  "r_default_inbound (add_map_text p raw dir r) = r_default_inbound r"
  "r_fingerprint_to_peer (add_map_text p raw dir r) = r_fingerprint_to_peer r"
  by (simp_all add: add_map_text_def Let_def)

lemma add_map_text_other:
  "key \<notin> set (peer_keys p) \<Longrightarrow> dget (r_inbound (add_map_text p raw dir r)) key = dget (r_inbound r) key"
  by (auto simp: add_map_text_def peer_keys_def add_entries_other Let_def split: if_splits)

lemma entries_of_direction: "list_all (\<lambda>e. ge_direction e = dir) (entries_of raw dir)"
proof (cases "parse_group_map raw dir")
  case (Inr es)
  have "parse_group_tokens dir ts = Inr es \<Longrightarrow> list_all (\<lambda>e. ge_direction e = dir) es" for ts es
    by (induction ts arbitrary: es)
      (cases dir; auto simp: parse_group_token_def Let_def split: sum.splits if_splits)+
  with Inr show ?thesis by (simp add: entries_of_def parse_group_map_def)
qed (simp add: entries_of_def)

lemma add_map_text_out [simp]: "r_inbound (add_map_text p raw DOut r) = r_inbound r"
  using entries_of_direction [of DOut raw] by (simp add: add_map_text_def add_entries_out_inbound Let_def)

lemma register_fingerprints_inbound [simp]: "r_inbound (register_fingerprints p r) = r_inbound r"
proof -
  have "r_inbound (fold (\<lambda>part r. let fp = py_strip part in
      if fp = [] then r else register_fingerprint fp key r) parts r) = r_inbound r" for key parts
    by (induction parts arbitrary: r) (auto simp: Let_def register_fingerprint_def)
  then show ?thesis by (simp add: register_fingerprints_def Let_def)
qed

lemma add_peer_other:
  "key \<notin> set (peer_keys p) \<Longrightarrow> dget (r_inbound (add_peer p r)) key = dget (r_inbound r) key"
  by (simp add: add_peer_def add_map_text_other set_fallback_allow_def Let_def)

lemma fold_add_peer_other:
  "\<forall>q \<in> set ps. key \<notin> set (peer_keys q) \<Longrightarrow>
   dget (r_inbound (fold add_peer ps r)) key = dget (r_inbound r) key"
  by (induction ps arbitrary: r) (simp_all add: add_peer_other)

lemma default_policy_inbound [simp]: "r_inbound (default_policy cfg) = []"
  by (simp add: default_policy_def set_default_in_map_def set_default_out_map_def empty_registry_def Let_def)

lemma block_all_entry:
  "entries_of ''*:'' DIn =
     [\<lparr> ge_peer_id = [], ge_direction = DIn, ge_remote_group = ''*'', ge_local_group = None \<rparr>]"
  by (simp add: entries_of_def parse_group_map_def parse_group_token_def py_strip_def py_lstrip_def
      py_rstrip_def py_ws_def py_before_def py_after_def)

lemma add_map_text_block_all:
  assumes "key \<in> set (peer_keys p)" "dget (r_inbound r) key = None"
  shows "dget (r_inbound (add_map_text p ''*:'' DIn r)) key = Some [(''*'', None)]"
  using assms
  by (auto simp: add_map_text_def block_all_entry add_entries_def add_peer_map_def dict_of_def
      peer_keys_def Let_def split: if_splits)

lemma add_peer_block_all:
  assumes "pc_enabled p" "pc_group_map_in p = ''*:''" "key \<in> set (peer_keys p)"
    and "dget (r_inbound r) key = None"
  shows "dget (r_inbound (add_peer p r)) key = Some [(''*'', None)]"
  using assms by (simp add: add_peer_def add_map_text_block_all set_fallback_allow_def Let_def)

text \<open>The fingerprint table after the peers.\<close>

lemma fold_register_get:
  "dget (r_fingerprint_to_peer (fold (\<lambda>part r. let fp = py_strip part in
      if fp = [] then r else register_fingerprint fp key r) parts r)) fp =
      (if fp \<noteq> [] \<and> fp \<in> set (map py_strip parts) then Some key else dget (r_fingerprint_to_peer r) fp)"
proof (induction parts arbitrary: r)
  case Nil
  then show ?case by simp
next
  case (Cons a parts)
  show ?case
    unfolding fold_Cons comp_apply Cons.IH by (auto simp: Let_def register_fingerprint_def)
qed

lemma register_fingerprints_get:
  "resolve_peer_id_by_fingerprint (register_fingerprints p r) fp =
     (if pc_fingerprint p \<noteq> [] \<and> fp \<noteq> [] \<and> fp \<in> set (map py_strip (py_split (CHR '','') (pc_fingerprint p)))
      then Some (if pc_server_id p \<noteq> [] then pc_server_id p else provisional_id p)
      else resolve_peer_id_by_fingerprint r fp)"
  unfolding register_fingerprints_def resolve_peer_id_by_fingerprint_def Let_def [of "if _ then _ else _"]
  by (cases "pc_fingerprint p = []") (simp_all only: fold_register_get if_True if_False simp_thms)

lemma add_peer_fingerprint:
  "resolve_peer_id_by_fingerprint (add_peer p r) fp =
     (if pc_enabled p then resolve_peer_id_by_fingerprint (register_fingerprints p r) fp
      else resolve_peer_id_by_fingerprint r fp)"
  by (simp add: add_peer_def resolve_peer_id_by_fingerprint_def set_fallback_allow_def Let_def)

lemma fold_add_peer_fingerprint:
  "resolve_peer_id_by_fingerprint (fold add_peer ps r) fp = Some key \<Longrightarrow>
   resolve_peer_id_by_fingerprint r fp = Some key \<or>
   (\<exists>p \<in> set ps. pc_enabled p \<and> fp \<noteq> [] \<and> fp \<in> set (map py_strip (py_split (CHR '','') (pc_fingerprint p))) \<and>
      key = (if pc_server_id p \<noteq> [] then pc_server_id p else provisional_id p))"
proof (induction ps arbitrary: r)
  case Nil
  then show ?case by simp
next
  case (Cons p ps)
  then have "resolve_peer_id_by_fingerprint (add_peer p r) fp = Some key \<or>
    (\<exists>p \<in> set ps. pc_enabled p \<and> fp \<noteq> [] \<and> fp \<in> set (map py_strip (py_split (CHR '','') (pc_fingerprint p))) \<and>
      key = (if pc_server_id p \<noteq> [] then pc_server_id p else provisional_id p))"
    by simp
  then show ?case
    by (auto simp: add_peer_fingerprint register_fingerprints_get split: if_splits)
qed

text \<open>Every key of the fingerprint table of a configured registry is a name.\<close>

definition fingerprints_named :: "registry \<Rightarrow> bool" where
  "fingerprints_named r = (\<forall>fp pid. resolve_peer_id_by_fingerprint r fp = Some pid \<longrightarrow> pid \<noteq> [])"

lemma default_policy_no_fingerprint: "resolve_peer_id_by_fingerprint (default_policy cfg) fp = None"
  by (simp add: default_policy_def set_default_in_map_def set_default_out_map_def empty_registry_def
      resolve_peer_id_by_fingerprint_def Let_def)

lemma build_fingerprints_named: "fingerprints_named (build_group_registry cfg)"
  unfolding fingerprints_named_def build_group_registry_def
proof (intro allI impI)
  fix fp pid
  assume "resolve_peer_id_by_fingerprint (fold add_peer (fc_peers cfg) (default_policy cfg)) fp = Some pid"
  from fold_add_peer_fingerprint [OF this] show "pid \<noteq> []"
    by (auto simp: default_policy_no_fingerprint provisional_id_def split: if_splits)
qed

section \<open>Properties\<close>

text \<open>
  C15. The fingerprint table holds only what the operator configured: in the registry built
  from a configuration that was read, a fingerprint resolves to a key that is not empty,
  and only when it is one of the canonical fingerprints listed for a peer; the key is that
  peer's declared server id, or its address and port.
\<close>

theorem fingerprint_resolves_to_its_peer:
  assumes "get_federation_config C = Inr cfg"
    and "resolve_peer_id_by_fingerprint (build_group_registry cfg) fp = Some key"
  shows "key \<noteq> [] \<and> normalize_fingerprint_colon_hex fp = Inr fp \<and>
    (\<exists>p \<in> set (fc_peers cfg). fp \<in> set (py_split (CHR '','') (pc_fingerprint p)) \<and> key \<in> set (peer_keys p))"
proof -
  have ok: "peer_config_ok p" if "p \<in> set (fc_peers cfg)" for p
    using assms(1) that parse_peers_ok parse_enabled_config_sel(3)
    by (fastforce simp: get_federation_config_def rbind_Inr_iff disabled_fed_config_def split: if_splits)
  have "resolve_peer_id_by_fingerprint (default_policy cfg) fp = None"
    by (rule default_policy_no_fingerprint)
  then obtain p where p: "p \<in> set (fc_peers cfg)" "fp \<noteq> []"
    "fp \<in> set (map py_strip (py_split (CHR '','') (pc_fingerprint p)))"
    "key = (if pc_server_id p \<noteq> [] then pc_server_id p else provisional_id p)"
    using fold_add_peer_fingerprint [OF assms(2) [unfolded build_group_registry_def]] by auto
  have "pc_fingerprint p \<noteq> []" using p(2,3) by auto
  then have "\<forall>f \<in> set (py_split (CHR '','') (pc_fingerprint p)). normalize_fingerprint_colon_hex f = Inr f"
    using ok [OF p(1)] by (simp add: peer_config_ok_def list_all_iff)
  with p(3) have "fp \<in> set (py_split (CHR '','') (pc_fingerprint p))" "normalize_fingerprint_colon_hex fp = Inr fp"
    using strip_normalized by auto
  moreover have "key \<noteq> []" "key \<in> set (peer_keys p)"
    using p(4) by (auto simp: provisional_id_def peer_keys_def)
  ultimately show ?thesis using p(1) by blast
qed

lemma sample_provisional: "provisional_id sample_peer = ''h:9100''"
proof -
  have "py_str 9100 = ''9100''"
    by (simp add: py_str_def nat_str.simps [of 9100] nat_str.simps [of 910] nat_str.simps [of 91] nat_str.simps [of 9]
        digit_char_def char_of_def bit_0)
  then show ?thesis by (simp add: provisional_id_def)
qed

lemma sample_resolves: "resolve_peer_id_by_fingerprint (build_group_registry sample_config) sample_fp = Some ''h:9100''"
proof -
  have "CHR '','' \<notin> set sample_fp" using normalize_Inr [OF sample_fp_canonical] by simp
  then show ?thesis
    by (simp add: build_group_registry_def sample_config_parses add_peer_fingerprint register_fingerprints_get
        py_split_no_sep strip_normalized [OF sample_fp_canonical] sample_fp_ne sample_provisional)
qed

theorem fingerprint_resolves_to_its_peer_witness:
  "resolve_peer_id_by_fingerprint (build_group_registry sample_config) sample_fp = Some ''h:9100'' \<and>
   normalize_fingerprint_colon_hex sample_fp = Inr sample_fp"
  using fingerprint_resolves_to_its_peer [OF sample_config_parses(1) sample_resolves] sample_resolves by blast

text \<open>
  The default inbound policy of the \<open>[federation]\<close> section never reaches a peer that has
  a section of its own without \<open>accept_as\<close>: the missing key reads as the mapping that
  blocks every group, which is registered for the peer, so the default is not consulted
  (nor is \<open>fallback_when_no_group_mappings\<close>), under either of the keys of the peer.
\<close>

theorem default_policy_never_reaches_a_configured_peer:
  assumes "\<not> has_option C s ''accept_as''" "\<not> has_option C s ''group_map_in''"
    and "parse_peer_section C s = Inr p" "pc_enabled p"
    and "fc_peers cfg = ps @ p # qs" "key \<in> set (peer_keys p)"
    and "\<forall>q \<in> set ps \<union> set qs. key \<notin> set (peer_keys q)"
  shows "map_inbound (build_group_registry cfg) key g = None \<and>
    map_inbound_groups (build_group_registry cfg) key gs = None"
proof -
  have "pc_group_map_in p = ''*:''"
    using assms(1-3) by (auto simp: parse_peer_section_def resolve_alias_def rbind_Inr_iff Let_def split: if_splits)
  moreover have "dget (r_inbound (fold add_peer ps (default_policy cfg))) key = None"
    using assms(7) by (subst fold_add_peer_other) auto
  ultimately have "dget (r_inbound (add_peer p (fold add_peer ps (default_policy cfg)))) key = Some [(''*'', None)]"
    using assms(4,6) by (intro add_peer_block_all)
  then have t: "dget (r_inbound (build_group_registry cfg)) key = Some [(''*'', None)]"
    using assms(7) by (simp add: build_group_registry_def assms(5) fold_add_peer_other)
  then have m: "map_inbound (build_group_registry cfg) key g = None" for g
    by (simp add: map_inbound_def lookup_in_table_def)
  then show ?thesis
    by (simp add: map_inbound_groups_def collect_inbound_eq Let_def)
qed

theorem default_policy_never_reaches_a_configured_peer_witness:
  "map_inbound (build_group_registry sample_config) ''h:9100'' ''Cyan'' = None \<and>
   map_inbound_groups (build_group_registry sample_config) ''h:9100'' [''Cyan''] = None"
  by (rule default_policy_never_reaches_a_configured_peer [OF _ _ sample_peer_parses, of _ "[]" "[]"])
    (simp_all add: sample_config_parses peer_keys_def sample_provisional, simp_all add: sample_ini_def has_option_def ini_get_def)

end
