(* ===== verification/Fed_Client.thy ===== *)
theory Fed_Client
  imports Fed_Link Bridge Registry_Build
begin

text \<open>
  client.py: the client that dials one peer. Its object is the record \<open>fed_client\<close>; its
  gRPC thread is the machine \<open>client_thread\<close> with a program counter, one step per stage of
  \<open>run_grpc_thread\<close> and \<open>_run_session\<close>. What gRPC, the clock and channelz answer is the
  input of a step. Other threads call \<open>send_event\<close> (in two steps, since it reads the state and
  the identity without a lock) and \<open>request_stop\<close> in between, and the thread of the groups
  stream announces groups; \<open>client_reach\<close> is what all of them reach.
\<close>

section \<open>The client object\<close>

datatype peer_state = DISABLED | CONNECTING | HANDSHAKING | ACTIVE | RECONNECTING | DRAINING

record fed_client =
  cl_name :: string
  cl_config :: peer_config
  cl_node_id :: string
  cl_allow_delete :: bool
  cl_local_max_hops :: int
  cl_remote_id :: "string option"
  cl_reported_id :: "string option"
  cl_state :: peer_state
  cl_outq :: "fed_event list"
  cl_stop :: bool

definition new_fed_client :: "string \<Rightarrow> peer_config \<Rightarrow> string \<Rightarrow> bool \<Rightarrow> int \<Rightarrow> fed_client" where
  "new_fed_client peer_name config node_id allow_delete local_max_hops =
     \<lparr> cl_name = peer_name, cl_config = config, cl_node_id = node_id, cl_allow_delete = allow_delete,
       cl_local_max_hops = local_max_hops, cl_remote_id = None, cl_reported_id = None,
       cl_state = DISABLED, cl_outq = [], cl_stop = False \<rparr>"

text \<open>\<open>address:port\<close>, the target that is dialed.\<close>

definition dialed_address :: "fed_client \<Rightarrow> string" where
  "dialed_address c = provisional_id (cl_config c)"

text \<open>
  \<open>send_event\<close> after its test of the state, and as a whole when nothing happens in between (in
  the fan-out of the manager it is taken so).
\<close>

definition client_enqueue :: "py_env \<Rightarrow> registry option \<Rightarrow> event \<Rightarrow> fed_client \<Rightarrow> fed_client" where
  "client_enqueue E reg evt c =
     (case prepare_outbound_event E evt (cl_node_id c) (pc_max_hops (cl_config c)) reg (or_empty (cl_remote_id c)) of
        Inl _ \<Rightarrow> c
      | Inr None \<Rightarrow> c
      | Inr (Some proto) \<Rightarrow> c\<lparr> cl_outq := cl_outq c @ [proto] \<rparr>)"

definition client_send_event :: "py_env \<Rightarrow> registry option \<Rightarrow> event \<Rightarrow> fed_client \<Rightarrow> fed_client" where
  "client_send_event E reg evt c = (if cl_state c \<noteq> ACTIVE then c else client_enqueue E reg evt c)"

definition client_request_stop :: "fed_client \<Rightarrow> fed_client" where
  "client_request_stop c = c\<lparr> cl_stop := True, cl_state := DRAINING \<rparr>"

text \<open>A turn of \<open>_outbound_generator\<close>: the message taken, if the queue has one.\<close>

definition client_pop :: "fed_client \<Rightarrow> fed_event option \<times> fed_client" where
  "client_pop c =
     (if cl_stop c then (None, c)
      else (case cl_outq c of [] \<Rightarrow> (None, c) | p # q \<Rightarrow> (Some p, c\<lparr> cl_outq := q \<rparr>)))"

text \<open>The groups announced to the peer: the values of its outbound table.\<close>

definition outbound_values :: "registry option \<Rightarrow> string \<Rightarrow> string list" where
  "outbound_values reg peer_id =
     (case reg of None \<Rightarrow> []
      | Some r \<Rightarrow> (case dget (r_outbound r) peer_id of None \<Rightarrow> [] | Some t \<Rightarrow> map snd t))"

definition client_announced :: "registry option \<Rightarrow> fed_client \<Rightarrow> string list" where
  "client_announced reg c =
     outbound_values reg (case cl_remote_id c of None \<Rightarrow> dialed_address c
                          | Some p \<Rightarrow> if p = [] then dialed_address c else p)"

section \<open>Inbound events\<close>

definition COT_DELETE_PREFIX :: string where
  "COT_DELETE_PREFIX = ''t-x-d-d''"

definition is_delete :: "event \<Rightarrow> bool" where
  "is_delete evt = py_startswith (or_empty (ev_etype evt)) COT_DELETE_PREFIX"

text \<open>The sidecars of an event admitted with mapped groups \<open>gs\<close>.\<close>

definition with_groups :: "py_env \<Rightarrow> string set \<Rightarrow> event \<Rightarrow> event" where
  "with_groups E gs evt =
     evt\<lparr> ev_inbound_local_groups := Some (env_it E gs), ev_local_acl_groups := Some (env_it E gs) \<rparr>"

text \<open>
  The event put on the bridge, if any. A message without an event may carry a contact,
  whose synthesized event skips everything below. What that synthesis raises is not caught.
\<close>

definition contact_event :: "datetime \<Rightarrow> fed_event \<Rightarrow> py_error + event option" where
  "contact_event now proto =
     (case decode_contact_entry proto of None \<Rightarrow> Inr None | Some c \<Rightarrow> synthesize_contact_event now c)"

definition handle_inbound ::
    "py_env \<Rightarrow> registry option \<Rightarrow> datetime \<Rightarrow> fed_event \<Rightarrow> fed_client \<Rightarrow> py_error + event option" where
  "handle_inbound E reg now proto c =
     (case decode_federated_event E proto (cl_local_max_hops c) of
        Inl _ \<Rightarrow> Inr None
      | Inr (None, _) \<Rightarrow> contact_event now proto
      | Inr (Some evt, fed_meta) \<Rightarrow>
          if \<not> cl_allow_delete c \<and> is_delete evt then Inr None
          else if reg \<noteq> None \<and> or_empty (cl_remote_id c) \<noteq> [] then
            (case map_inbound_groups (the reg) (or_empty (cl_remote_id c)) (fe_groups proto) of
               None \<Rightarrow> Inr None
             | Some gs \<Rightarrow> Inr (Some ((with_groups E gs evt)\<lparr> ev_fed_meta := Some fed_meta \<rparr>)))
          else Inr (Some (evt\<lparr> ev_fed_meta := Some fed_meta \<rparr>)))"

section \<open>Binding the identity\<close>

text \<open>\<open>F\<close>: the fingerprints observed on the live transports to the dialed address.\<close>

definition resolve_dialed_cert_identity :: "registry \<Rightarrow> string set \<Rightarrow> py_error + string \<times> string" where
  "resolve_dialed_cert_identity r F =
     (if F = {} then Inl PeerIdentityMismatchError
      else if card F > 1 then Inl PeerIdentityMismatchError
      else
        (case resolve_peer_id_by_fingerprint r (the_elem F) of
           None \<Rightarrow> Inl PeerIdentityMismatchError
         | Some pid \<Rightarrow> Inr (the_elem F, pid)))"

definition recheck_dialed_cert :: "string set \<Rightarrow> string \<Rightarrow> py_error option" where
  "recheck_dialed_cert F verified_fp = (if F \<noteq> {verified_fp} then Some PeerIdentityMismatchError else None)"

text \<open>The check of the reported server id against a declared one.\<close>

definition reported_id_refused :: "fed_client \<Rightarrow> string \<Rightarrow> bool" where
  "reported_id_refused c reported =
     (pc_server_id (cl_config c) \<noteq> [] \<and> reported \<noteq> pc_server_id (cl_config c))"

section \<open>The thread\<close>

text \<open>
  Where the thread is: at the head of the loop of \<open>run_grpc_thread\<close>; in \<open>_run_session\<close>
  before the credentials, waiting for the channel, about to observe the certificate,
  before \<open>getIdentity\<close>, before opening the streams, before the second observation, in the
  event loop; after a session that returned or raised; waiting to reconnect; gone.
\<close>

datatype client_pc =
    Loop_Head | Start_Session | Build_Channel | Wait_Ready | Bind_Identity | Get_Identity | Open_Streams | Recheck
  | Event_Loop | Session_Ended | Session_Raised py_error | Backoff | Exited

record client_thread =
  th_client :: fed_client
  th_reg :: "registry option"
  th_pc :: client_pc
  th_verified :: "string option"
  th_delay :: int
  th_inbound :: "event list" \<comment> \<open>what was put on the bridge\<close>
  th_sending :: "event list" \<comment> \<open>the calls of \<open>send_event\<close> that have seen the state \<open>ACTIVE\<close>\<close>

text \<open>What the thread gets from outside in a step.\<close>

datatype client_input =
    Go                         \<comment> \<open>the call returns\<close>
  | Not_Yet                    \<comment> \<open>a slice of the wait for the channel times out\<close>
  | Fails py_error             \<comment> \<open>the call raises\<close>
  | Observed "string list"     \<comment> \<open>the set of fingerprints on the transports\<close>
  | Reported string            \<comment> \<open>the answer of getIdentity\<close>
  | Received datetime fed_event \<comment> \<open>the next message of the stream, with the clock\<close>

definition set_client :: "(fed_client \<Rightarrow> fed_client) \<Rightarrow> client_thread \<Rightarrow> client_thread" where
  "set_client f t = t\<lparr> th_client := f (th_client t) \<rparr>"

definition goto :: "client_pc \<Rightarrow> client_thread \<Rightarrow> client_thread" where
  "goto pc t = t\<lparr> th_pc := pc \<rparr>"

definition enter_state :: "peer_state \<Rightarrow> client_thread \<Rightarrow> client_thread" where
  "enter_state s = set_client (\<lambda>c. c\<lparr> cl_state := s \<rparr>)"

definition RECONNECT_BASE :: int where "RECONNECT_BASE = 30"
definition RECONNECT_CAP :: int where "RECONNECT_CAP = 300"

definition new_client_thread :: "fed_client \<Rightarrow> registry option \<Rightarrow> client_thread" where
  "new_client_thread c reg = \<lparr> th_client = c, th_reg = reg, th_pc = Loop_Head, th_verified = None,
     th_delay = RECONNECT_BASE, th_inbound = [], th_sending = [] \<rparr>"

text \<open>The end of a session: reset the identities and wait, see \<open>run_grpc_thread\<close>.\<close>

definition enter_backoff :: "client_thread \<Rightarrow> client_thread" where
  "enter_backoff t = goto Backoff (set_client
     (\<lambda>c. c\<lparr> cl_state := RECONNECTING, cl_remote_id := None, cl_reported_id := None \<rparr>) t)"

definition event_loop_step :: "py_env \<Rightarrow> datetime \<Rightarrow> fed_event \<Rightarrow> client_thread \<Rightarrow> client_thread" where
  "event_loop_step E now proto t =
     (if cl_stop (th_client t) then goto Session_Ended t
      else
        (case handle_inbound E (th_reg t) now proto (th_client t) of
           Inl e \<Rightarrow> goto (Session_Raised e) t
         | Inr None \<Rightarrow> t
         | Inr (Some evt) \<Rightarrow> t\<lparr> th_inbound := th_inbound t @ [evt] \<rparr>))"

text \<open>
  A step of \<open>run_grpc_thread\<close> outside a session: the head of the loop, what follows a
  session that returned or raised, the wait.
\<close>

definition loop_step :: "client_thread \<Rightarrow> client_thread" where
  "loop_step t =
     (case th_pc t of
        Loop_Head \<Rightarrow> goto (if cl_stop (th_client t) then Exited else Start_Session) t
      | Session_Ended \<Rightarrow> (if cl_state (th_client t) = DRAINING then goto Exited t else enter_backoff t)
      | Session_Raised _ \<Rightarrow> (if cl_stop (th_client t) then goto Exited t else enter_backoff t)
      | Backoff \<Rightarrow> goto Loop_Head (t\<lparr> th_delay := min (th_delay t * 2) RECONNECT_CAP \<rparr>)
      | _ \<Rightarrow> t)"

text \<open>A step of \<open>_run_session\<close>. An input that does not fit the stage leaves it waiting.\<close>

definition session_step :: "py_env \<Rightarrow> client_input \<Rightarrow> client_thread \<Rightarrow> client_thread" where
  "session_step E i t =
     (case th_pc t of
        Start_Session \<Rightarrow> goto Build_Channel ((enter_state CONNECTING t)\<lparr> th_verified := None \<rparr>)
      | Build_Channel \<Rightarrow>
          (case i of
             Fails e \<Rightarrow> goto (Session_Raised e) t
           | _ \<Rightarrow> goto (if th_reg t = None then Get_Identity else Wait_Ready) (enter_state HANDSHAKING t))
      | Wait_Ready \<Rightarrow>
          if cl_stop (th_client t) then goto (Session_Raised FutureTimeoutError) t
          else (case i of
                  Go \<Rightarrow> goto Bind_Identity t
                | Fails e \<Rightarrow> goto (Session_Raised e) t
                | _ \<Rightarrow> t)
      | Bind_Identity \<Rightarrow>
          (case i of
             Observed F \<Rightarrow>
               (case resolve_dialed_cert_identity (the (th_reg t)) (set F) of
                  Inl e \<Rightarrow> goto (Session_Raised e) t
                | Inr (fp, pid) \<Rightarrow>
                    goto Get_Identity ((set_client (\<lambda>c. c\<lparr> cl_remote_id := Some pid \<rparr>) t)\<lparr> th_verified := Some fp \<rparr>))
           | _ \<Rightarrow> t)
      | Get_Identity \<Rightarrow>
          (case i of
             Fails e \<Rightarrow> goto (Session_Raised e) t
           | Reported sid \<Rightarrow>
               (let t1 = set_client (\<lambda>c. c\<lparr> cl_reported_id := Some sid \<rparr>) t in
                if reported_id_refused (th_client t) sid then goto (Session_Raised PeerIdentityMismatchError) t1
                else goto Open_Streams
                  (if th_reg t = None then set_client (\<lambda>c. c\<lparr> cl_remote_id := Some sid \<rparr>) t1 else t1))
           | _ \<Rightarrow> t)
      | Open_Streams \<Rightarrow>
          (case i of Fails e \<Rightarrow> goto (Session_Raised e) t | _ \<Rightarrow> goto Recheck t)
      | Recheck \<Rightarrow>
          (case th_verified t of
             None \<Rightarrow> goto Event_Loop (enter_state ACTIVE t)
           | Some fp \<Rightarrow>
               (case i of
                  Observed F \<Rightarrow>
                    (case recheck_dialed_cert (set F) fp of
                       Some e \<Rightarrow> goto (Session_Raised e) t
                     | None \<Rightarrow> goto Event_Loop (enter_state ACTIVE t))
                | _ \<Rightarrow> t))
      | Event_Loop \<Rightarrow>
          (case i of
             Received now proto \<Rightarrow> event_loop_step E now proto t
           | Go \<Rightarrow> goto Session_Ended t
           | Fails e \<Rightarrow> goto (Session_Raised e) t
           | _ \<Rightarrow> t)
      | _ \<Rightarrow> t)"

definition in_session :: "client_pc \<Rightarrow> bool" where
  "in_session pc =
     (pc \<in> {Start_Session, Build_Channel, Wait_Ready, Bind_Identity, Get_Identity, Open_Streams, Recheck, Event_Loop})"

definition thread_step :: "py_env \<Rightarrow> client_input \<Rightarrow> client_thread \<Rightarrow> client_thread" where
  "thread_step E i t = (if in_session (th_pc t) then session_step E i t else loop_step t)"

lemma thread_step_eq:
  "thread_step E i t =
     (case th_pc t of
        Loop_Head \<Rightarrow> goto (if cl_stop (th_client t) then Exited else Start_Session) t
      | Start_Session \<Rightarrow> goto Build_Channel ((enter_state CONNECTING t)\<lparr> th_verified := None \<rparr>)
      | Build_Channel \<Rightarrow>
          (case i of
             Fails e \<Rightarrow> goto (Session_Raised e) t
           | _ \<Rightarrow> goto (if th_reg t = None then Get_Identity else Wait_Ready) (enter_state HANDSHAKING t))
      | Wait_Ready \<Rightarrow>
          if cl_stop (th_client t) then goto (Session_Raised FutureTimeoutError) t
          else (case i of
                  Go \<Rightarrow> goto Bind_Identity t
                | Fails e \<Rightarrow> goto (Session_Raised e) t
                | _ \<Rightarrow> t)
      | Bind_Identity \<Rightarrow>
          (case i of
             Observed F \<Rightarrow>
               (case resolve_dialed_cert_identity (the (th_reg t)) (set F) of
                  Inl e \<Rightarrow> goto (Session_Raised e) t
                | Inr (fp, pid) \<Rightarrow>
                    goto Get_Identity ((set_client (\<lambda>c. c\<lparr> cl_remote_id := Some pid \<rparr>) t)\<lparr> th_verified := Some fp \<rparr>))
           | _ \<Rightarrow> t)
      | Get_Identity \<Rightarrow>
          (case i of
             Fails e \<Rightarrow> goto (Session_Raised e) t
           | Reported sid \<Rightarrow>
               (let t1 = set_client (\<lambda>c. c\<lparr> cl_reported_id := Some sid \<rparr>) t in
                if reported_id_refused (th_client t) sid then goto (Session_Raised PeerIdentityMismatchError) t1
                else goto Open_Streams
                  (if th_reg t = None then set_client (\<lambda>c. c\<lparr> cl_remote_id := Some sid \<rparr>) t1 else t1))
           | _ \<Rightarrow> t)
      | Open_Streams \<Rightarrow>
          (case i of Fails e \<Rightarrow> goto (Session_Raised e) t | _ \<Rightarrow> goto Recheck t)
      | Recheck \<Rightarrow>
          (case th_verified t of
             None \<Rightarrow> goto Event_Loop (enter_state ACTIVE t)
           | Some fp \<Rightarrow>
               (case i of
                  Observed F \<Rightarrow>
                    (case recheck_dialed_cert (set F) fp of
                       Some e \<Rightarrow> goto (Session_Raised e) t
                     | None \<Rightarrow> goto Event_Loop (enter_state ACTIVE t))
                | _ \<Rightarrow> t))
      | Event_Loop \<Rightarrow>
          (case i of
             Received now proto \<Rightarrow> event_loop_step E now proto t
           | Go \<Rightarrow> goto Session_Ended t
           | Fails e \<Rightarrow> goto (Session_Raised e) t
           | _ \<Rightarrow> t)
      | Session_Ended \<Rightarrow> (if cl_state (th_client t) = DRAINING then goto Exited t else enter_backoff t)
      | Session_Raised _ \<Rightarrow> (if cl_stop (th_client t) then goto Exited t else enter_backoff t)
      | Backoff \<Rightarrow> goto Loop_Head (t\<lparr> th_delay := min (th_delay t * 2) RECONNECT_CAP \<rparr>)
      | Exited \<Rightarrow> t)"
  by (cases "th_pc t") (simp_all add: thread_step_def session_step_def loop_step_def in_session_def)

text \<open>The thread of the groups stream stores what the peer announces.\<close>

definition store_announced :: "string list \<Rightarrow> client_thread \<Rightarrow> client_thread" where
  "store_announced gs t =
     (case th_reg t of
        None \<Rightarrow> t
      | Some r \<Rightarrow>
          if cl_stop (th_client t) \<or> or_empty (cl_remote_id (th_client t)) = [] then t
          else t\<lparr> th_reg := Some (update_from_federate_groups (or_empty (cl_remote_id (th_client t))) gs r) \<rparr>)"

section \<open>All interleavings\<close>

text \<open>What the other threads do: senders, the stop request, the generator, the groups stream.\<close>

inductive other_step :: "py_env \<Rightarrow> client_thread \<Rightarrow> client_thread \<Rightarrow> bool" for E where
  os_check: "cl_state (th_client t) = ACTIVE \<Longrightarrow> other_step E t (t\<lparr> th_sending := evt # th_sending t \<rparr>)"
| os_send: "evt \<in> set (th_sending t) \<Longrightarrow>
    other_step E t (set_client (client_enqueue E (th_reg t) evt) (t\<lparr> th_sending := remove1 evt (th_sending t) \<rparr>))"
| os_stop: "other_step E t (set_client client_request_stop t)"
| os_pop: "other_step E t (set_client (\<lambda>c. snd (client_pop c)) t)"
| os_announce: "other_step E t (store_announced gs t)"

inductive client_reach :: "py_env \<Rightarrow> client_thread \<Rightarrow> client_thread \<Rightarrow> bool" for E where
  cr_refl: "client_reach E t t"
| cr_thread: "client_reach E t u \<Longrightarrow> client_reach E t (thread_step E i u)"
| cr_other: "client_reach E t u \<Longrightarrow> other_step E u v \<Longrightarrow> client_reach E t v"

text \<open>An input that moves the thread on from where it is; any other leaves it waiting.\<close>

fun fits :: "client_thread \<Rightarrow> client_input \<Rightarrow> bool" where
  "fits t i =
     (case th_pc t of
        Wait_Ready \<Rightarrow> cl_stop (th_client t) \<or> (case i of Go \<Rightarrow> True | Fails _ \<Rightarrow> True | _ \<Rightarrow> False)
      | Bind_Identity \<Rightarrow> (case i of Observed _ \<Rightarrow> True | _ \<Rightarrow> False)
      | Get_Identity \<Rightarrow> (case i of Fails _ \<Rightarrow> True | Reported _ \<Rightarrow> True | _ \<Rightarrow> False)
      | Recheck \<Rightarrow> th_verified t = None \<or> (case i of Observed _ \<Rightarrow> True | _ \<Rightarrow> False)
      | Event_Loop \<Rightarrow> (case i of Received _ _ \<Rightarrow> True | Go \<Rightarrow> True | Fails _ \<Rightarrow> True | _ \<Rightarrow> False)
      | _ \<Rightarrow> True)"

text \<open>\<open>client_run E t n u\<close>: \<open>u\<close> is reached with \<open>n\<close> moves of the thread itself.\<close>

inductive client_run :: "py_env \<Rightarrow> client_thread \<Rightarrow> nat \<Rightarrow> client_thread \<Rightarrow> bool" for E where
  run_refl: "client_run E t 0 t"
| run_move: "client_run E t n u \<Longrightarrow> fits u i \<Longrightarrow> client_run E t (Suc n) (thread_step E i u)"
| run_wait: "client_run E t n u \<Longrightarrow> \<not> fits u i \<Longrightarrow> client_run E t n (thread_step E i u)"
| run_other: "client_run E t n u \<Longrightarrow> other_step E u v \<Longrightarrow> client_run E t n v"

section \<open>The client as an outbound link\<close>

definition client_gate :: "py_env \<Rightarrow> registry option \<Rightarrow> fed_client \<Rightarrow> event \<Rightarrow> fed_event option" where
  "client_gate E reg c evt =
     (if cl_state c \<noteq> ACTIVE then None
      else (case prepare_outbound_event E evt (cl_node_id c) (pc_max_hops (cl_config c)) reg
                (or_empty (cl_remote_id c)) of
              Inr p \<Rightarrow> p | Inl _ \<Rightarrow> None))"

definition client_bound :: "registry option \<Rightarrow> fed_client \<Rightarrow> (registry \<times> string) option" where
  "client_bound reg c =
     (case reg of None \<Rightarrow> None
      | Some r \<Rightarrow> if or_empty (cl_remote_id c) = [] then None else Some (r, or_empty (cl_remote_id c)))"

lemma client_send_event_gate:
  "client_send_event E reg evt c =
     (case client_gate E reg c evt of None \<Rightarrow> c | Some p \<Rightarrow> c\<lparr> cl_outq := cl_outq c @ [p] \<rparr>)"
  by (simp add: client_send_event_def client_enqueue_def client_gate_def split: sum.split option.split)

lemma client_gate_outq [simp]: "client_gate E reg (c\<lparr> cl_outq := q \<rparr>) = client_gate E reg c"
  by (simp add: client_gate_def fun_eq_iff)

interpretation dialed: policy_link "client_send_event E reg" cl_outq "client_gate E reg" cl_node_id "client_bound reg"
  for E reg
proof unfold_locales
  fix e l p r pid
  show "cl_outq (client_send_event E reg e l) = cl_outq l @ (case client_gate E reg l e of None \<Rightarrow> [] | Some p \<Rightarrow> [p])"
    and "client_gate E reg (client_send_event E reg e l) = client_gate E reg l"
    by (simp_all add: client_send_event_gate split: option.split)
  assume g: "client_gate E reg l e = Some p"
  then show "\<exists>seen. fe_provenance p = seen @ [cl_node_id l] \<and> cl_node_id l \<notin> set seen"
    by (auto simp: client_gate_def split: sum.splits if_splits intro: prepare_marks)
  assume "client_bound reg l = Some (r, pid)"
  with g show "\<exists>ls. ev_local_acl_groups e = Some ls \<and> fe_groups p \<noteq> [] \<and>
      set (fe_groups p) = {g. \<exists>a \<in> set ls. map_outbound r pid a = Some g}"
    using prepare_tags by (fastforce simp: client_gate_def client_bound_def split: sum.splits option.splits if_splits)
qed

section \<open>Lemmas\<close>

lemma th_sel [simp]:
  "th_client (set_client f t) = f (th_client t)" "th_reg (set_client f t) = th_reg t"
  "th_pc (set_client f t) = th_pc t" "th_verified (set_client f t) = th_verified t"
  "th_delay (set_client f t) = th_delay t" "th_inbound (set_client f t) = th_inbound t"
  "th_client (goto pc t) = th_client t" "th_reg (goto pc t) = th_reg t" "th_pc (goto pc t) = pc"
  "th_verified (goto pc t) = th_verified t" "th_delay (goto pc t) = th_delay t" "th_inbound (goto pc t) = th_inbound t"
  by (simp_all add: set_client_def goto_def)

lemma store_announced_sel [simp]:
  "th_client (store_announced gs t) = th_client t" "th_pc (store_announced gs t) = th_pc t"
  "th_verified (store_announced gs t) = th_verified t" "th_delay (store_announced gs t) = th_delay t"
  "th_inbound (store_announced gs t) = th_inbound t"
  by (simp_all add: store_announced_def split: option.split)

lemma client_enqueue_sel [simp]:
  "cl_state (client_enqueue E reg evt c) = cl_state c" "cl_remote_id (client_enqueue E reg evt c) = cl_remote_id c"
  "cl_stop (client_enqueue E reg evt c) = cl_stop c" "cl_config (client_enqueue E reg evt c) = cl_config c"
  by (simp_all add: client_enqueue_def split: sum.split option.split)

lemma client_ops_sel [simp]:
  "cl_state (client_send_event E reg evt c) = cl_state c" "cl_remote_id (client_send_event E reg evt c) = cl_remote_id c"
  "cl_stop (client_send_event E reg evt c) = cl_stop c" "cl_config (client_send_event E reg evt c) = cl_config c"
  "cl_state (snd (client_pop c)) = cl_state c" "cl_remote_id (snd (client_pop c)) = cl_remote_id c"
  "cl_stop (snd (client_pop c)) = cl_stop c" "cl_config (snd (client_pop c)) = cl_config c"
  "cl_state (client_request_stop c) = DRAINING" "cl_remote_id (client_request_stop c) = cl_remote_id c"
  "cl_stop (client_request_stop c)" "cl_config (client_request_stop c) = cl_config c"
  by (simp_all add: client_send_event_gate client_pop_def client_request_stop_def split: option.split list.split)

text \<open>Announcements leave policy and identities alone.\<close>

definition same_policy :: "registry \<Rightarrow> registry \<Rightarrow> bool" where
  "same_policy r s =
     (resolve_peer_id_by_fingerprint r = resolve_peer_id_by_fingerprint s \<and>
      map_inbound_groups r = map_inbound_groups s \<and> map_outbound r = map_outbound s)"

lemma update_announced_policy:
  "resolve_peer_id_by_fingerprint (update_from_federate_groups p gs r) = resolve_peer_id_by_fingerprint r"
  "map_inbound_groups (update_from_federate_groups p gs r) = map_inbound_groups r"
  "map_outbound (update_from_federate_groups p gs r) = map_outbound r"
proof -
  have i: "map_inbound (update_from_federate_groups p gs r) = map_inbound r"
    by (intro ext) (simp add: map_inbound_def update_from_federate_groups_def fallback_for_def
        cong: option.case_cong)
  then show "map_inbound_groups (update_from_federate_groups p gs r) = map_inbound_groups r"
    by (intro ext) (simp add: map_inbound_groups_def collect_inbound_eq Let_def cong: option.case_cong)
qed (simp_all add: resolve_peer_id_by_fingerprint_def map_outbound_def update_from_federate_groups_def fun_eq_iff
      cong: option.case_cong)

lemma same_policy_refl [simp]: "same_policy r r"
  by (simp add: same_policy_def)

lemma same_policy_announced [simp]: "same_policy (update_from_federate_groups p gs r) s = same_policy r s"
  by (simp add: same_policy_def update_announced_policy)

lemma resolve_dialed_Inr:
  assumes "resolve_dialed_cert_identity r F = Inr (fp, pid)" "finite F"
  shows "F = {fp} \<and> resolve_peer_id_by_fingerprint r fp = Some pid"
proof -
  have "F \<noteq> {}" "\<not> 1 < card F" using assms(1) by (auto simp: resolve_dialed_cert_identity_def split: if_splits)
  with assms(2) have "card F = 1" by (metis One_nat_def Suc_lessI card_gt_0_iff)
  then obtain x where "F = {x}" by (auto simp: card_1_singleton_iff)
  with assms(1) show ?thesis by (auto simp: resolve_dialed_cert_identity_def split: option.splits)
qed

section \<open>The invariant of the thread\<close>

text \<open>
  With a registry: in the stages after the binding, and whenever the client counts as
  active, its identity is the one a configured fingerprint, observed on the transport,
  resolves to.
\<close>

definition bound_ok :: "client_thread \<Rightarrow> bool" where
  "bound_ok t =
     (case th_reg t of None \<Rightarrow> True
      | Some r \<Rightarrow>
          th_pc t \<in> {Get_Identity, Open_Streams, Recheck, Event_Loop} \<or> cl_state (th_client t) = ACTIVE \<longrightarrow>
          (\<exists>fp pid. th_verified t = Some fp \<and> cl_remote_id (th_client t) = Some pid \<and>
             resolve_peer_id_by_fingerprint r fp = Some pid))"

text \<open>An event on the bridge: a contact, or one with groups that the policy of an identity admits.\<close>

definition admitted_event :: "py_env \<Rightarrow> registry \<Rightarrow> event \<Rightarrow> bool" where
  "admitted_event E r evt =
     (ev_fed_meta evt = None \<or>
      (\<exists>fp pid groups gs. resolve_peer_id_by_fingerprint r fp = Some pid \<and>
         map_inbound_groups r pid groups = Some gs \<and> ev_inbound_local_groups evt = Some (env_it E gs) \<and>
         ev_local_acl_groups evt = Some (env_it E gs)))"

definition delay_ok :: "int \<Rightarrow> bool" where
  "delay_ok d = (d \<in> {30, 60, 120, 240, 300})"

definition thread_inv :: "py_env \<Rightarrow> registry \<Rightarrow> client_thread \<Rightarrow> bool" where
  "thread_inv E r t =
     ((\<exists>r'. th_reg t = Some r' \<and> same_policy r' r) \<and> bound_ok t \<and> delay_ok (th_delay t) \<and>
      list_all (admitted_event E r) (th_inbound t))"

lemma synthesized_no_meta: "synthesize_contact_event now c = Inr (Some evt) \<Longrightarrow> ev_fed_meta evt = None"
  by (cases "contact_stale now (ct_operation c)"; cases "contact_detail c")
    (auto simp: synthesize_contact_event_def new_event_def simp del: not_None_eq split: if_splits option.splits)

lemma handle_inbound_admits:
  assumes "handle_inbound E (Some r) now proto c = Inr (Some evt)"
    and "cl_remote_id c = Some pid" "resolve_peer_id_by_fingerprint r fp = Some pid" "pid \<noteq> []"
  shows "admitted_event E r evt"
proof (cases "decode_federated_event E proto (cl_local_max_hops c)")
  case (Inr d)
  obtain e m where d: "d = (e, m)" by (cases d)
  show ?thesis
  proof (cases e)
    case None
    with assms(1) Inr d have "contact_event now proto = Inr (Some evt)" by (simp add: handle_inbound_def)
    then have "ev_fed_meta evt = None"
      by (auto simp: contact_event_def split: option.splits dest: synthesized_no_meta)
    then show ?thesis by (simp add: admitted_event_def)
  next
    case (Some e')
    with assms Inr d obtain gs where "map_inbound_groups r pid (fe_groups proto) = Some gs"
      "evt = (with_groups E gs e')\<lparr> ev_fed_meta := Some m \<rparr>"
      by (auto simp: handle_inbound_def or_empty_def split: if_splits option.splits)
    with assms(3) show ?thesis
      unfolding admitted_event_def by (intro disjI2 exI [of _ fp] exI [of _ pid] exI [of _ "fe_groups proto"] exI [of _ gs])
        (simp add: with_groups_def)
  qed
qed (use assms(1) in \<open>simp add: handle_inbound_def\<close>)

lemma admitted_same_policy: "same_policy r s \<Longrightarrow> admitted_event E r evt = admitted_event E s evt"
  by (simp add: admitted_event_def same_policy_def)

lemma delay_ok_next: "delay_ok d \<Longrightarrow> delay_ok (min (d * 2) RECONNECT_CAP)"
  by (auto simp: delay_ok_def RECONNECT_CAP_def)

lemmas thread_defs = enter_state_def enter_backoff_def event_loop_step_def

lemma thread_step_frame:
  "th_reg (thread_step E i t) = th_reg t"
  "cl_config (th_client (thread_step E i t)) = cl_config (th_client t)"
  "cl_stop (th_client (thread_step E i t)) = cl_stop (th_client t)"
  by (cases "th_pc t"; cases i; simp add: thread_step_eq thread_defs Let_def split: option.split sum.split prod.split)+

lemma thread_step_delay: "delay_ok (th_delay t) \<Longrightarrow> delay_ok (th_delay (thread_step E i t))"
  by (cases "th_pc t"; cases i; simp add: thread_step_eq thread_defs Let_def delay_ok_next
      split: option.split sum.split prod.split)

lemma bound_ok_goto:
  "pc \<notin> {Get_Identity, Open_Streams, Recheck, Event_Loop} \<Longrightarrow> bound_ok t \<Longrightarrow> bound_ok (goto pc t)"
  by (auto simp: bound_ok_def split: option.splits)

lemma bound_ok_inactive:
  "pc \<notin> {Get_Identity, Open_Streams, Recheck, Event_Loop} \<Longrightarrow> cl_state (th_client t) \<noteq> ACTIVE \<Longrightarrow> bound_ok (goto pc t)"
  by (simp add: bound_ok_def split: option.split)

lemma bound_ok_stage:
  "th_pc t \<in> {Get_Identity, Open_Streams, Recheck, Event_Loop} \<Longrightarrow> bound_ok t \<Longrightarrow>
   th_reg u = th_reg t \<Longrightarrow> th_verified u = th_verified t \<Longrightarrow>
   th_reg t = None \<or> cl_remote_id (th_client u) = cl_remote_id (th_client t) \<Longrightarrow> bound_ok u"
  by (cases "th_reg t") (auto simp: bound_ok_def)

lemma thread_step_stage:
  assumes "th_pc t \<in> {Get_Identity, Open_Streams, Recheck, Event_Loop}"
  shows "th_verified (thread_step E i t) = th_verified t"
    "th_reg t = None \<or> cl_remote_id (th_client (thread_step E i t)) = cl_remote_id (th_client t)"
  using assms
  by (cases "th_pc t"; cases i; simp add: thread_step_eq thread_defs Let_def split: option.split sum.split)+

lemma thread_step_bound:
  assumes "bound_ok t"
  shows "bound_ok (thread_step E i t)"
proof (cases "th_pc t \<in> {Get_Identity, Open_Streams, Recheck, Event_Loop}")
  case True
  show ?thesis
    by (rule bound_ok_stage [OF True assms thread_step_frame(1) thread_step_stage [OF True]])
next
  case False
  show ?thesis
  proof (cases "th_pc t = Bind_Identity")
    case True
    with assms show ?thesis
      by (cases i)
        (auto simp: thread_step_eq bound_ok_def dest!: resolve_dialed_Inr split: sum.splits prod.splits option.splits)
  next
    case nb: False
    show ?thesis
    proof (cases "th_reg t")
      case None
      then show ?thesis by (simp add: bound_ok_def thread_step_frame)
    next
      case (Some r)
      with assms False nb show ?thesis
        by (cases "th_pc t"; cases i)
          (simp_all add: thread_step_eq thread_defs bound_ok_goto bound_ok_inactive, simp_all add: bound_ok_def)
    qed
  qed
qed

lemma other_step_bound: "other_step E t u \<Longrightarrow> bound_ok t \<Longrightarrow> bound_ok u"
  by (induction rule: other_step.induct)
    (auto simp: bound_ok_def store_announced_def update_announced_policy split: option.splits)

lemma thread_step_inbound:
  assumes "th_reg t = Some r" "fingerprints_named r" "bound_ok t" "list_all (admitted_event E r) (th_inbound t)"
  shows "list_all (admitted_event E r) (th_inbound (thread_step E i t))"
proof (cases "th_pc t = Event_Loop \<and> (\<exists>now proto. i = Received now proto)")
  case True
  then obtain now proto where i: "th_pc t = Event_Loop" "i = Received now proto" by blast
  obtain fp pid where b: "cl_remote_id (th_client t) = Some pid" "resolve_peer_id_by_fingerprint r fp = Some pid"
    using assms(1,3) i(1) by (auto simp: bound_ok_def)
  with assms(2) have "pid \<noteq> []" by (auto simp: fingerprints_named_def)
  with b have "admitted_event E r evt" if "handle_inbound E (Some r) now proto (th_client t) = Inr (Some evt)" for evt
    using handle_inbound_admits [OF that] by blast
  with assms(1,4) i show ?thesis
    by (simp add: thread_step_eq event_loop_step_def split: sum.split option.split)
next
  case False
  then have "th_inbound (thread_step E i t) = th_inbound t"
    by (cases "th_pc t"; cases i; simp add: thread_step_eq thread_defs Let_def split: option.split sum.split prod.split)
  with assms(4) show ?thesis by simp
qed

lemma thread_step_inv:
  assumes "thread_inv E r t" "fingerprints_named r"
  shows "thread_inv E r (thread_step E i t)"
proof -
  obtain r' where r': "th_reg t = Some r'" "same_policy r' r" using assms(1) by (auto simp: thread_inv_def)
  have adm: "admitted_event E r' = admitted_event E r" by (intro ext admitted_same_policy r'(2))
  have "fingerprints_named r'" "list_all (admitted_event E r') (th_inbound t)"
    using assms r'(2) unfolding adm by (simp_all add: fingerprints_named_def same_policy_def thread_inv_def)
  then have "list_all (admitted_event E r') (th_inbound (thread_step E i t))"
    using thread_step_inbound r'(1) assms(1) by (simp add: thread_inv_def)
  with r' assms(1) show ?thesis
    by (simp add: thread_inv_def thread_step_frame thread_step_bound thread_step_delay adm)
qed

lemma other_step_inv: "other_step E t u \<Longrightarrow> thread_inv E r t \<Longrightarrow> thread_inv E r u"
  using other_step_bound [of E t u]
  by (auto simp: thread_inv_def elim!: other_step.cases)
    (auto simp: store_announced_def split: option.splits)

lemma client_reach_inv:
  assumes "fingerprints_named r"
  shows "client_reach E t u \<Longrightarrow> thread_inv E r t \<Longrightarrow> thread_inv E r u"
  by (induction rule: client_reach.induct) (auto intro: thread_step_inv [OF _ assms] other_step_inv)

lemma new_thread_inv: "thread_inv E r (new_client_thread (new_fed_client n cfg node del mh) (Some r))"
  by (simp add: thread_inv_def new_client_thread_def new_fed_client_def bound_ok_def delay_ok_def RECONNECT_BASE_def)

text \<open>
  C5. The identity of a session is cryptographic: whatever the peer reports, however the
  threads interleave and however often the client reconnects, whenever it is active its
  policy identity is one that a fingerprint registered in the configuration resolves to;
  the back-off stays on its schedule; the policy tables are those of the configuration;
  and every event with provenance that it put on the bridge carries exactly the groups
  that the policy of such an identity admits.
\<close>

theorem active_identity_is_configured:
  assumes "client_reach E (new_client_thread (new_fed_client name pc node del mh) (Some (build_group_registry cfg))) t"
  shows "(cl_state (th_client t) = ACTIVE \<longrightarrow>
      (\<exists>fp pid. cl_remote_id (th_client t) = Some pid \<and> pid \<noteq> [] \<and>
         resolve_peer_id_by_fingerprint (build_group_registry cfg) fp = Some pid)) \<and>
    th_delay t \<in> {30, 60, 120, 240, 300} \<and>
    (\<exists>r. th_reg t = Some r \<and> same_policy r (build_group_registry cfg)) \<and>
    list_all (admitted_event E (build_group_registry cfg)) (th_inbound t)"
proof -
  let ?r = "build_group_registry cfg"
  have inv: "thread_inv E ?r t"
    using client_reach_inv [OF build_fingerprints_named assms] new_thread_inv by blast
  then obtain r where r: "th_reg t = Some r" "same_policy r ?r" by (auto simp: thread_inv_def)
  have "\<exists>fp pid. cl_remote_id (th_client t) = Some pid \<and> pid \<noteq> [] \<and> resolve_peer_id_by_fingerprint ?r fp = Some pid"
    if "cl_state (th_client t) = ACTIVE"
    using inv r that build_fingerprints_named [of cfg]
    by (fastforce simp: thread_inv_def bound_ok_def same_policy_def fingerprints_named_def)
  with inv r show ?thesis by (auto simp: thread_inv_def delay_ok_def)
qed

text \<open>Runs of the thread on a list of inputs.\<close>

fun thread_run :: "py_env \<Rightarrow> client_input list \<Rightarrow> client_thread \<Rightarrow> client_thread" where
  "thread_run E [] t = t"
| "thread_run E (i # is) t = thread_run E is (thread_step E i t)"

lemma thread_run_append: "thread_run E (is @ js) t = thread_run E js (thread_run E is t)"
  by (induction "is" arbitrary: t) auto

lemma thread_run_reach: "client_reach E t u \<Longrightarrow> client_reach E t (thread_run E is u)"
  by (induction "is" arbitrary: u) (auto intro: cr_thread)

text \<open>A session that comes up, from the head of the loop, and one that follows another.\<close>

definition session_inputs :: "string \<Rightarrow> string \<Rightarrow> client_input list" where
  "session_inputs fp sid = [Go, Go, Go, Go, Observed [fp], Reported sid, Go, Observed [fp]]"

text \<open>The successful steps, one by one.\<close>

lemma step_start: "th_pc t = Loop_Head \<Longrightarrow> \<not> cl_stop (th_client t) \<Longrightarrow> thread_step E i t = goto Start_Session t"
  by (simp add: thread_step_eq)

lemma step_connect: "th_pc t = Start_Session \<Longrightarrow>
   thread_step E i t = goto Build_Channel ((enter_state CONNECTING t)\<lparr> th_verified := None \<rparr>)"
  by (simp add: thread_step_eq)

lemma step_channel: "th_pc t = Build_Channel \<Longrightarrow> th_reg t \<noteq> None \<Longrightarrow>
   thread_step E Go t = goto Wait_Ready (enter_state HANDSHAKING t)"
  by (auto simp: thread_step_eq)

lemma step_ready: "th_pc t = Wait_Ready \<Longrightarrow> \<not> cl_stop (th_client t) \<Longrightarrow> thread_step E Go t = goto Bind_Identity t"
  by (simp add: thread_step_eq)

lemma step_bind: "th_pc t = Bind_Identity \<Longrightarrow> th_reg t = Some r \<Longrightarrow> resolve_peer_id_by_fingerprint r fp = Some pid \<Longrightarrow>
   thread_step E (Observed [fp]) t =
     goto Get_Identity ((set_client (\<lambda>c. c\<lparr> cl_remote_id := Some pid \<rparr>) t)\<lparr> th_verified := Some fp \<rparr>)"
  by (simp add: thread_step_eq resolve_dialed_cert_identity_def)

lemma step_identity: "th_pc t = Get_Identity \<Longrightarrow> th_reg t \<noteq> None \<Longrightarrow> pc_server_id (cl_config (th_client t)) \<in> {[], sid} \<Longrightarrow>
   thread_step E (Reported sid) t = goto Open_Streams (set_client (\<lambda>c. c\<lparr> cl_reported_id := Some sid \<rparr>) t)"
  by (auto simp: thread_step_eq reported_id_refused_def Let_def)

lemma step_streams: "th_pc t = Open_Streams \<Longrightarrow> thread_step E Go t = goto Recheck t"
  by (simp add: thread_step_eq)

lemma step_active: "th_pc t = Recheck \<Longrightarrow> th_verified t = Some fp \<Longrightarrow>
   thread_step E (Observed [fp]) t = goto Event_Loop (enter_state ACTIVE t)"
  by (simp add: thread_step_eq recheck_dialed_cert_def)

lemmas good_steps = step_start step_connect step_channel step_ready step_bind step_identity step_streams step_active

lemma session_comes_up:
  assumes "th_pc t = Loop_Head" "\<not> cl_stop (th_client t)" "th_reg t = Some r"
    and "resolve_peer_id_by_fingerprint r fp = Some pid" "pc_server_id (cl_config (th_client t)) \<in> {[], sid}"
  shows "thread_run E (session_inputs fp sid) t =
    t\<lparr> th_pc := Event_Loop, th_verified := Some fp,
       th_client := (th_client t)\<lparr> cl_state := ACTIVE, cl_remote_id := Some pid, cl_reported_id := Some sid \<rparr> \<rparr>"
  using assms
  by (simp add: session_inputs_def good_steps enter_state_def goto_def set_client_def del: insert_iff)

definition sample_thread :: client_thread where
  "sample_thread = new_client_thread (new_fed_client ''p'' sample_peer ''s'' True 3) (Some (build_group_registry sample_config))"

lemma sample_thread_sel [simp]:
  "th_pc sample_thread = Loop_Head" "\<not> cl_stop (th_client sample_thread)" "cl_outq (th_client sample_thread) = []"
  "th_reg sample_thread = Some (build_group_registry sample_config)" "cl_config (th_client sample_thread) = sample_peer"
  by (simp_all add: sample_thread_def new_client_thread_def new_fed_client_def)

theorem active_identity_is_configured_witness:
  "cl_state (th_client (thread_run epoch_env (session_inputs sample_fp ''anything'') sample_thread)) = ACTIVE \<and>
   (\<exists>fp. resolve_peer_id_by_fingerprint (build_group_registry sample_config) fp =
      cl_remote_id (th_client (thread_run epoch_env (session_inputs sample_fp ''anything'') sample_thread)))"
proof -
  let ?u = "thread_run epoch_env (session_inputs sample_fp ''anything'') sample_thread"
  have u: "cl_state (th_client ?u) = ACTIVE"
    using session_comes_up [of sample_thread "build_group_registry sample_config" sample_fp _ "''anything''"] sample_resolves
    by simp
  have "client_reach epoch_env sample_thread ?u" by (intro thread_run_reach cr_refl)
  with active_identity_is_configured [of epoch_env "''p''" sample_peer "''s''" True 3 sample_config ?u] u
  show ?thesis unfolding sample_thread_def [symmetric] by metis
qed

text \<open>Stopping: how many moves are left, by the stage the thread is in.\<close>

fun moves_left :: "client_pc \<Rightarrow> nat" where
  "moves_left Exited = 0"
| "moves_left Loop_Head = 1"
| "moves_left Backoff = 2"
| "moves_left (Session_Raised e) = 3"
| "moves_left Session_Ended = 3"
| "moves_left Event_Loop = 4"
| "moves_left Recheck = 5"
| "moves_left Open_Streams = 6"
| "moves_left Get_Identity = 7"
| "moves_left Bind_Identity = 8"
| "moves_left Wait_Ready = 9"
| "moves_left Build_Channel = 10"
| "moves_left Start_Session = 11"

lemma stopped_move:
  "cl_stop (th_client t) \<Longrightarrow> fits t i \<Longrightarrow> th_pc t \<noteq> Exited \<Longrightarrow>
   moves_left (th_pc (thread_step E i t)) < moves_left (th_pc t)"
  by (cases "th_pc t"; cases i; simp add: thread_step_eq thread_defs Let_def split: option.split sum.split prod.split)

lemma waiting_stays: "\<not> fits t i \<Longrightarrow> thread_step E i t = t"
  by (cases "th_pc t"; cases i; auto simp: thread_step_eq split: option.split)

lemma exited_stays: "th_pc t = Exited \<Longrightarrow> thread_step E i t = t"
  by (simp add: thread_step_eq)

lemma other_step_pc: "other_step E t u \<Longrightarrow> th_pc u = th_pc t \<and> (cl_stop (th_client t) \<longrightarrow> cl_stop (th_client u))"
  by (induction rule: other_step.induct) auto

lemma stopped_run:
  "client_run E t n u \<Longrightarrow> cl_stop (th_client t) \<Longrightarrow>
   cl_stop (th_client u) \<and> (th_pc u = Exited \<or> n + moves_left (th_pc u) \<le> moves_left (th_pc t))"
proof (induction rule: client_run.induct)
  case (run_move t n u i)
  then show ?case
    using stopped_move [of u i E] exited_stays [of u E i] by (fastforce simp: thread_step_frame)
next
  case (run_wait t n u i)
  then show ?case by (simp add: waiting_stays)
next
  case (run_other t n u v)
  then show ?case using other_step_pc [of E u v] by auto
qed simp

text \<open>
  C23. A stop request ends the thread: once it is set, in whatever stage of whatever session
  the thread is, and whatever the other threads do meanwhile, the thread has exited after
  at most eleven moves of its own (a move being a call that returned or raised, a message
  of the stream, the end of a wait).
\<close>

theorem stopped_thread_exits:
  assumes "cl_stop (th_client t)" "client_run E t n u" "11 \<le> n"
  shows "th_pc u = Exited"
proof (rule ccontr)
  assume "th_pc u \<noteq> Exited"
  then have "n + moves_left (th_pc u) \<le> moves_left (th_pc t)" "0 < moves_left (th_pc u)"
    using stopped_run [OF assms(2,1)] by (auto, cases "th_pc u", auto)
  moreover have "moves_left (th_pc t) \<le> 11" by (cases "th_pc t") auto
  ultimately show False using assms(3) by linarith
qed

fun fits_all :: "py_env \<Rightarrow> client_input list \<Rightarrow> client_thread \<Rightarrow> bool" where
  "fits_all E [] t = True"
| "fits_all E (i # is) t = (fits t i \<and> fits_all E is (thread_step E i t))"

lemma fits_all_run:
  "client_run E s n t \<Longrightarrow> fits_all E is t \<Longrightarrow> client_run E s (n + length is) (thread_run E is t)"
proof (induction "is" arbitrary: n t)
  case (Cons i "is")
  then have "client_run E s (Suc n) (thread_step E i t)" by (simp add: run_move)
  from Cons.IH [OF this] Cons.prems show ?case by simp
qed simp

text \<open>Stopped in the event loop: the stream ends, the session returns, the thread exits.\<close>

theorem stopped_thread_exits_witness:
  "th_pc (thread_run epoch_env (replicate 11 Go) (goto Event_Loop (set_client client_request_stop sample_thread))) = Exited"
proof -
  let ?t = "goto Event_Loop (set_client client_request_stop sample_thread)"
  have "thread_step epoch_env Go ?t = goto Session_Ended ?t" by (simp add: thread_step_eq)
  moreover have "thread_step epoch_env Go (goto Session_Ended ?t) = goto Exited (goto Session_Ended ?t)"
    by (simp add: thread_step_eq)
  ultimately have "fits_all epoch_env (replicate 11 Go) ?t"
    by (simp add: eval_nat_numeral exited_stays)
  from stopped_thread_exits [OF _ fits_all_run [OF run_refl this]] show ?thesis by simp
qed

text \<open>
  C36. What was queued for one peer is sent to the next: the queue of a client outlives the
  session. A message that the outbound policy of the peer of the session passed and that
  was not sent when the session ended is the first one that the generator of the next
  session takes from the queue, even when the server dialed then presents the certificate
  of another configured peer, whose policy was never consulted for it.
\<close>

theorem queue_outlives_the_session:
  assumes "th_pc t = Event_Loop" "\<not> cl_stop (th_client t)" "cl_state (th_client t) = ACTIVE" "th_reg t = Some r"
    and "cl_outq (th_client t) = p # q" "pc_server_id (cl_config (th_client t)) \<in> {[], sid}"
    and "resolve_peer_id_by_fingerprint r fp = Some other"
  shows "\<exists>u. client_reach E t u \<and> cl_state (th_client u) = ACTIVE \<and> cl_remote_id (th_client u) = Some other \<and>
    fst (client_pop (th_client u)) = Some p"
proof -
  define t' where "t' = thread_run E [Go, Go, Go] t"
  have t': "t' = goto Loop_Head ((enter_backoff (goto Session_Ended t))\<lparr> th_delay := min (th_delay t * 2) RECONNECT_CAP \<rparr>)"
    using assms(1,3) by (simp add: t'_def thread_step_eq enter_backoff_def)
  have sel: "th_pc t' = Loop_Head" "\<not> cl_stop (th_client t')" "th_reg t' = Some r"
    "cl_config (th_client t') = cl_config (th_client t)" "cl_outq (th_client t') = p # q"
    using assms by (simp_all add: t' enter_backoff_def)
  let ?u = "thread_run E (session_inputs fp sid) t'"
  have "client_reach E t ?u"
    unfolding t'_def by (intro thread_run_reach cr_refl)
  moreover have "cl_state (th_client ?u) = ACTIVE" "cl_remote_id (th_client ?u) = Some other"
    "fst (client_pop (th_client ?u)) = Some p"
    using session_comes_up [OF sel(1-3) assms(7)] assms(6) sel by (simp_all add: client_pop_def)
  ultimately show ?thesis by blast
qed

text \<open>Bound to \<open>A\<close> with one message left; the next server presents the certificate of \<open>B\<close>.\<close>

definition two_peers :: registry where
  "two_peers = register_fingerprint ''2'' ''B'' (register_fingerprint ''1'' ''A'' empty_registry)"

definition bound_to_A :: client_thread where
  "bound_to_A = goto Event_Loop (set_client
     (\<lambda>c. c\<lparr> cl_state := ACTIVE, cl_remote_id := Some ''A'', cl_outq := [empty_fed_event] \<rparr>)
     (new_client_thread (new_fed_client ''p'' sample_peer ''s'' True 3) (Some two_peers)))"

theorem queue_outlives_the_session_witness:
  "\<exists>u. client_reach epoch_env bound_to_A u \<and> cl_remote_id (th_client bound_to_A) = Some ''A'' \<and>
     cl_remote_id (th_client u) = Some ''B'' \<and> fst (client_pop (th_client u)) = Some empty_fed_event"
proof -
  have r: "resolve_peer_id_by_fingerprint two_peers ''2'' = Some ''B''"
    by (simp add: two_peers_def register_fingerprint_def resolve_peer_id_by_fingerprint_def)
  have "th_pc bound_to_A = Event_Loop" "\<not> cl_stop (th_client bound_to_A)" "cl_state (th_client bound_to_A) = ACTIVE"
    "th_reg bound_to_A = Some two_peers" "cl_outq (th_client bound_to_A) = [empty_fed_event]"
    "pc_server_id (cl_config (th_client bound_to_A)) \<in> {[], ''x''}" "cl_remote_id (th_client bound_to_A) = Some ''A''"
    by (simp_all add: bound_to_A_def new_client_thread_def new_fed_client_def)
  with queue_outlives_the_session [OF this(1-6) r] show ?thesis by blast
qed

text \<open>A stop request in the handshake is overwritten: the session still becomes active.\<close>

lemma stop_in_the_handshake_is_overwritten:
  assumes "th_pc t = Get_Identity" "th_reg t = Some r" "th_verified t = Some fp" "pc_server_id (cl_config (th_client t)) \<in> {[], sid}"
  shows "cl_state (th_client (thread_run E [Reported sid, Go, Observed [fp]] (set_client client_request_stop t))) = ACTIVE"
  using assms by (simp add: good_steps enter_state_def del: insert_iff)

text \<open>
  A sender that saw the state \<open>ACTIVE\<close> and goes on after the session has ended prepares its event
  for the peer \<open>''\<close>, for which there is no group policy, and queues it for the next session.
\<close>

lemma late_send_skips_the_policy:
  assumes "th_pc t = Event_Loop" "cl_state (th_client t) = ACTIVE" "\<not> cl_stop (th_client t)"
    and "prepare_outbound_event E evt (cl_node_id (th_client t)) (pc_max_hops (cl_config (th_client t))) (th_reg t) [] = Inr (Some p)"
  shows "\<exists>u. client_reach E t u \<and> cl_outq (th_client u) = cl_outq (th_client t) @ [p]"
proof -
  let ?v = "t\<lparr> th_sending := evt # th_sending t \<rparr>"
  let ?w = "thread_step E Go (thread_step E Go ?v)"
  let ?u = "set_client (client_enqueue E (th_reg ?w) evt) (?w\<lparr> th_sending := remove1 evt (th_sending ?w) \<rparr>)"
  have w: "?w = enter_backoff (goto Session_Ended ?v)"
    using assms(1,2) by (simp add: thread_step_eq enter_backoff_def goto_def)
  have "client_reach E t ?w" by (intro cr_thread cr_other [OF cr_refl] os_check assms(2))
  moreover have "evt \<in> set (th_sending ?w)" by (simp add: w enter_backoff_def goto_def set_client_def)
  ultimately have "client_reach E t ?u" by (intro cr_other [OF _ os_send])
  moreover have "cl_outq (th_client ?u) = cl_outq (th_client t) @ [p]"
    using assms(4) by (simp add: w enter_backoff_def client_enqueue_def or_empty_def goto_def set_client_def)
  ultimately show ?thesis by blast
qed

end
