(* ===== verification/Fed_Manager.thy ===== *)
theory Fed_Manager
  imports Fed_Client "HOL-Library.Multiset"
begin

text \<open>
  \<open>FederationManager\<close> of manager.py: the clients by name, the links of inbound connections
  by peer, the fan-out \<open>on_outbound\<close>. A link is an object: \<open>mg_links\<close> is the store of all
  links made so far, an object is its number in it, and \<open>mg_inbound\<close> holds numbers, as
  Python holds references. (The registry is built by \<open>Registry_Build\<close>; starting the server
  is in \<open>Fed_Server\<close>.)
\<close>

section \<open>State\<close>

record manager =
  mg_clients :: "(string, fed_client) dict"
  mg_links :: "(nat, inbound_link) dict"
  mg_next :: nat
  mg_inbound :: "(string, nat list) dict"

text \<open>What is passed as the source of an event: nothing, a client or a link.\<close>

datatype source = No_Source | Client_Source string | Link_Source nat

definition add_client :: "fed_config \<Rightarrow> peer_config \<Rightarrow> (string, fed_client) dict \<Rightarrow> (string, fed_client) dict" where
  "add_client cfg p cs =
     (if \<not> pc_enabled p then cs
      else dset (pc_name p)
        (new_fed_client (pc_name p) p (fc_server_id cfg) (fc_allow_federated_delete cfg) (fc_max_hops cfg)) cs)"

definition new_manager :: "fed_config \<Rightarrow> manager" where
  "new_manager cfg =
     \<lparr> mg_clients = fold (add_client cfg) (fc_peers cfg) [], mg_links = [], mg_next = 0, mg_inbound = [] \<rparr>"

section \<open>Links\<close>

text \<open>Creating a link object.\<close>

definition create_link :: "inbound_link \<Rightarrow> manager \<Rightarrow> nat \<times> manager" where
  "create_link l m = (mg_next m, m\<lparr> mg_links := dset (mg_next m) l (mg_links m), mg_next := mg_next m + 1 \<rparr>)"

definition links_of :: "manager \<Rightarrow> string \<Rightarrow> nat list" where
  "links_of m pid = (case dget (mg_inbound m) pid of None \<Rightarrow> [] | Some is \<Rightarrow> is)"

definition register_inbound_link :: "string \<Rightarrow> nat \<Rightarrow> manager \<Rightarrow> manager" where
  "register_inbound_link pid i m = m\<lparr> mg_inbound := dset pid (links_of m pid @ [i]) (mg_inbound m) \<rparr>"

definition deregister_inbound_link :: "string \<Rightarrow> nat \<Rightarrow> manager \<Rightarrow> manager" where
  "deregister_inbound_link pid i m =
     (if i \<in> set (links_of m pid)
      then (let is = remove1 i (links_of m pid) in
            if is = [] then m\<lparr> mg_inbound := ddel pid (mg_inbound m) \<rparr>
            else m\<lparr> mg_inbound := dset pid is (mg_inbound m) \<rparr>)
      else m)"

definition inbound_links_snapshot :: "manager \<Rightarrow> (string \<times> nat) list" where
  "inbound_links_snapshot m = concat (map (\<lambda>(pid, is). map (Pair pid) is) (mg_inbound m))"

definition change_link :: "nat \<Rightarrow> (inbound_link \<Rightarrow> inbound_link) \<Rightarrow> manager \<Rightarrow> manager" where
  "change_link i f m =
     (case dget (mg_links m) i of None \<Rightarrow> m | Some l \<Rightarrow> m\<lparr> mg_links := dset i (f l) (mg_links m) \<rparr>)"

section \<open>Fan-out\<close>

definition source_peer_id :: "manager \<Rightarrow> source \<Rightarrow> string option" where
  "source_peer_id m src =
     (case src of
        No_Source \<Rightarrow> None
      | Client_Source n \<Rightarrow> (case dget (mg_clients m) n of None \<Rightarrow> None | Some c \<Rightarrow> cl_remote_id c)
      | Link_Source i \<Rightarrow> map_option il_peer (dget (mg_links m) i))"

definition send_to_client ::
    "py_env \<Rightarrow> registry option \<Rightarrow> source \<Rightarrow> event \<Rightarrow> string \<times> fed_client \<Rightarrow> string \<times> fed_client" where
  "send_to_client E reg src evt nc =
     (case nc of (n, c) \<Rightarrow>
        (n, if src = Client_Source n then c
            else if cl_state c \<noteq> ACTIVE then c
            else client_send_event E reg evt c))"

definition send_to_link ::
    "py_env \<Rightarrow> registry option \<Rightarrow> source \<Rightarrow> string option \<Rightarrow> event \<Rightarrow> string \<times> nat \<Rightarrow> manager \<Rightarrow> manager" where
  "send_to_link E reg src src_peer_id evt entry m =
     (case entry of (pid, i) \<Rightarrow>
        if src = Link_Source i then m
        else if src_peer_id = Some pid then m
        else change_link i (link_send_event E reg evt) m)"

definition on_outbound :: "py_env \<Rightarrow> registry option \<Rightarrow> source \<Rightarrow> event \<Rightarrow> manager \<Rightarrow> manager" where
  "on_outbound E reg src evt m =
     (let m1 = m\<lparr> mg_clients := map (send_to_client E reg src evt) (mg_clients m) \<rparr> in
      fold (send_to_link E reg src (source_peer_id m1 src) evt) (inbound_links_snapshot m1) m1)"

text \<open>\<open>stop\<close>: every registered link and every client is told to stop.\<close>

definition manager_stop :: "manager \<Rightarrow> manager" where
  "manager_stop m =
     (let m1 = fold (\<lambda>(pid, i). change_link i link_request_stop) (inbound_links_snapshot m) m in
      m1\<lparr> mg_clients := map (\<lambda>(n, c). (n, client_request_stop c)) (mg_clients m1) \<rparr>)"

section \<open>The invariant\<close>

definition registered :: "manager \<Rightarrow> nat list" where
  "registered m = concat (map snd (mg_inbound m))"

text \<open>Every registered link exists and is registered once; no peer has an empty list.\<close>

definition manager_ok :: "manager \<Rightarrow> bool" where
  "manager_ok m =
     (dict_ok (mg_clients m) \<and> dict_ok (mg_links m) \<and> dict_ok (mg_inbound m) \<and>
      (\<forall>i. dhas (mg_links m) i \<longrightarrow> i < mg_next m) \<and>
      distinct (registered m) \<and> set (registered m) \<subseteq> fst ` set (mg_links m) \<and> [] \<notin> snd ` set (mg_inbound m))"

lemma snapshot_links: "map snd (inbound_links_snapshot m) = registered m"
proof -
  have "map snd (concat (map (\<lambda>(pid, is). map (Pair pid) is) d)) = concat (map snd d)" for d :: "(string, nat list) dict"
    by (induction d) (auto simp: comp_def)
  then show ?thesis by (simp add: inbound_links_snapshot_def registered_def)
qed

lemma snapshot_iff:
  "dict_ok (mg_inbound m) \<Longrightarrow> (pid, i) \<in> set (inbound_links_snapshot m) \<longleftrightarrow> i \<in> set (links_of m pid)"
  by (auto simp: inbound_links_snapshot_def links_of_def dict_ok_def split: option.split dest: map_of_SomeD)

text \<open>The values of a dictionary after an update, as a multiset.\<close>

lemma mset_dset:
  "dict_ok d \<Longrightarrow> mset (concat (map snd (dset k v d))) + mset (case dget d k of None \<Rightarrow> [] | Some is \<Rightarrow> is) =
     mset (concat (map snd d)) + mset v"
  by (induction d) (auto simp: dict_ok_def map_of_eq_None_iff)

lemma mset_ddel:
  "dict_ok d \<Longrightarrow> mset (concat (map snd (ddel k d))) + mset (case dget d k of None \<Rightarrow> [] | Some is \<Rightarrow> is) =
     mset (concat (map snd d))"
proof (induction d)
  case (Cons x d)
  have "ddel k d = d" if "k \<notin> fst ` set d" using that by (rule delete_id)
  with Cons show ?case by (cases "fst x = k") (auto simp: dict_ok_def split: option.splits)
qed simp

lemma registered_register:
  "dict_ok (mg_inbound m) \<Longrightarrow> mset (registered (register_inbound_link pid i m)) = add_mset i (mset (registered m))"
  using mset_dset [of "mg_inbound m" pid "links_of m pid @ [i]"]
  by (simp add: register_inbound_link_def registered_def links_of_def)

lemma registered_deregister:
  assumes "dict_ok (mg_inbound m)" "i \<in> set (links_of m pid)"
  shows "add_mset i (mset (registered (deregister_inbound_link pid i m))) = mset (registered m)"
proof -
  obtain js where js: "dget (mg_inbound m) pid = Some js" "i \<in> set js" "links_of m pid = js"
    using assms(2) by (cases "dget (mg_inbound m) pid") (auto simp: links_of_def)
  then have r: "add_mset i (mset (remove1 i js)) = mset js" by simp
  show ?thesis
  proof (cases "remove1 i js = []")
    case True
    with r have "mset js = {#i#}" by simp
    with True js mset_ddel [OF assms(1), of pid] show ?thesis
      by (simp add: deregister_inbound_link_def registered_def)
  next
    case False
    define N where "N = concat (map snd (dset pid (remove1 i js) (mg_inbound m)))"
    from False js have d: "registered (deregister_inbound_link pid i m) = N"
      by (simp add: deregister_inbound_link_def registered_def N_def)
    have "mset N + mset js = mset (registered m) + mset (remove1 i js)"
      using mset_dset [OF assms(1), of pid "remove1 i js"] js(1) by (simp only: N_def registered_def option.case)
    then have "mset N + add_mset i (mset (remove1 i js)) = mset (registered m) + mset (remove1 i js)"
      by (simp only: r)
    then have "add_mset i (mset N) + mset (remove1 i js) = mset (registered m) + mset (remove1 i js)"
      by (simp only: union_mset_add_mset_left union_mset_add_mset_right)
    then show ?thesis by (simp only: d add_right_cancel)
  qed
qed

lemma registered_distinct:
  "mset (registered m') = add_mset i (mset (registered m)) \<Longrightarrow>
   distinct (registered m') \<longleftrightarrow> i \<notin> set (registered m) \<and> distinct (registered m)"
  using mset_eq_imp_distinct_iff [of "registered m'" "i # registered m"] by simp

lemma registered_set:
  "mset (registered m') = add_mset i (mset (registered m)) \<Longrightarrow> set (registered m') = insert i (set (registered m))"
  using mset_eq_setD [of "registered m'" "i # registered m"] by simp

section \<open>The operations keep the invariant\<close>

lemma registered_frame [simp]:
  "registered (m\<lparr> mg_links := x \<rparr>) = registered m" "registered (m\<lparr> mg_next := k \<rparr>) = registered m"
  "registered (m\<lparr> mg_clients := cs \<rparr>) = registered m"
  by (simp_all add: registered_def)

lemma create_link_ok:
  assumes "manager_ok m" "create_link l m = (i, m')"
  shows "manager_ok m'" "dget (mg_links m') i = Some l" "i \<notin> set (registered m)" "mg_inbound m' = mg_inbound m"
    "registered m' = registered m"
proof -
  have m': "i = mg_next m" "m' = m\<lparr> mg_links := dset i l (mg_links m), mg_next := i + 1 \<rparr>"
    using assms(2) by (auto simp: create_link_def)
  have i: "\<not> dhas (mg_links m) i" using assms(1) m'(1) by (auto simp: manager_ok_def)
  then show "i \<notin> set (registered m)" using assms(1) by (auto simp: manager_ok_def)
  show "dget (mg_links m') i = Some l" "mg_inbound m' = mg_inbound m" "registered m' = registered m"
    by (simp_all add: m')
  have "fst ` set (dset i l (mg_links m)) = insert i (fst ` set (mg_links m))"
    by (simp add: dom_update [unfolded dom_map_of_conv_image_fst])
  then show "manager_ok m'"
    using assms(1) m'(1) unfolding m'(2) manager_ok_def by (auto simp: less_Suc_eq)
qed

lemma links_of_register [simp]:
  "links_of (register_inbound_link pid i m) q = (if q = pid then links_of m pid @ [i] else links_of m q)"
  by (simp add: links_of_def register_inbound_link_def)

lemma links_of_deregister [simp]:
  "links_of (deregister_inbound_link pid i m) q = (if q = pid then remove1 i (links_of m q) else links_of m q)"
  by (auto simp: deregister_inbound_link_def links_of_def Let_def remove1_idem split: option.split)

lemma register_ok:
  assumes "manager_ok m" "dhas (mg_links m) i" "i \<notin> set (registered m)"
  shows "manager_ok (register_inbound_link pid i m)"
proof -
  have d: "dict_ok (mg_inbound m)" using assms(1) by (simp add: manager_ok_def)
  note r = registered_register [OF d, of pid i]
  have "snd ` set (dset pid (links_of m pid @ [i]) (mg_inbound m)) \<subseteq> insert (links_of m pid @ [i]) (snd ` set (mg_inbound m))"
    by (rule dset_values)
  then have "[] \<notin> snd ` set (mg_inbound (register_inbound_link pid i m))"
    using assms(1) by (auto simp: manager_ok_def register_inbound_link_def)
  moreover have "mg_links (register_inbound_link pid i m) = mg_links m" "mg_clients (register_inbound_link pid i m) = mg_clients m"
    "mg_next (register_inbound_link pid i m) = mg_next m" "dict_ok (mg_inbound (register_inbound_link pid i m))"
    using d by (simp_all add: register_inbound_link_def)
  ultimately show ?thesis
    using assms registered_distinct [OF r] registered_set [OF r] by (simp add: manager_ok_def)
qed

lemma deregister_sel [simp]:
  "mg_links (deregister_inbound_link pid i m) = mg_links m" "mg_clients (deregister_inbound_link pid i m) = mg_clients m"
  "mg_next (deregister_inbound_link pid i m) = mg_next m"
  by (cases "remove1 i (links_of m pid) = []"; simp add: deregister_inbound_link_def Let_def)+

lemma deregister_inbound:
  "i \<in> set (links_of m pid) \<Longrightarrow> mg_inbound (deregister_inbound_link pid i m) =
     (if remove1 i (links_of m pid) = [] then ddel pid (mg_inbound m)
      else dset pid (remove1 i (links_of m pid)) (mg_inbound m))"
  by (cases "remove1 i (links_of m pid) = []") (simp_all add: deregister_inbound_link_def Let_def)

lemma deregister_ok:
  assumes "manager_ok m"
  shows "manager_ok (deregister_inbound_link pid i m)"
proof (cases "i \<in> set (links_of m pid)")
  case True
  define js where "js = remove1 i (links_of m pid)"
  have d: "dict_ok (mg_inbound m)" "[] \<notin> snd ` set (mg_inbound m)" using assms by (simp_all add: manager_ok_def)
  note r = registered_deregister [OF d(1) True, symmetric]
  have v: "snd ` set (dset pid js (mg_inbound m)) \<subseteq> insert js (snd ` set (mg_inbound m))"
    "snd ` set (ddel pid (mg_inbound m)) \<subseteq> snd ` set (mg_inbound m)"
    by (rule dset_values, rule ddel_values)
  have "[] \<notin> snd ` set (mg_inbound (deregister_inbound_link pid i m))"
    using d(2) v deregister_inbound [OF True] unfolding js_def [symmetric] by (cases "js = []") auto
  moreover have "dict_ok (mg_inbound (deregister_inbound_link pid i m))"
    using d(1) deregister_inbound [OF True] unfolding js_def [symmetric] by (cases "js = []") simp_all
  moreover have "distinct (registered (deregister_inbound_link pid i m))"
      "set (registered (deregister_inbound_link pid i m)) \<subseteq> set (registered m)"
    using assms registered_distinct [OF r] registered_set [OF r] by (auto simp: manager_ok_def)
  ultimately show ?thesis
    using assms unfolding manager_ok_def deregister_sel by blast
qed (use assms in \<open>simp add: deregister_inbound_link_def\<close>)

lemma change_link_sel [simp]:
  "mg_clients (change_link i f m) = mg_clients m" "mg_inbound (change_link i f m) = mg_inbound m"
  "mg_next (change_link i f m) = mg_next m" "registered (change_link i f m) = registered m"
  "links_of (change_link i f m) = links_of m"
  "dget (mg_links (change_link i f m)) j = (if j = i then map_option f (dget (mg_links m) i) else dget (mg_links m) j)"
  by (simp_all add: change_link_def registered_def links_of_def fun_eq_iff split: option.split)

lemma change_link_keys: "fst ` set (mg_links (change_link i f m)) = fst ` set (mg_links m)"
  by (auto simp: change_link_def dom_update [unfolded dom_map_of_conv_image_fst] dhas_Some split: option.split)

lemma change_link_ok: "manager_ok m \<Longrightarrow> manager_ok (change_link i f m)"
  using change_link_keys [of i f m] by (auto simp: manager_ok_def change_link_def split: option.splits)

text \<open>The fan-out to the links, along a list that holds every link at most once.\<close>

lemma send_to_links:
  assumes "distinct (map snd xs)"
  shows "dget (mg_links (fold (send_to_link E reg src sp evt) xs m)) i =
      (if src \<noteq> Link_Source i \<and> (\<exists>pid. (pid, i) \<in> set xs \<and> sp \<noteq> Some pid)
       then map_option (link_send_event E reg evt) (dget (mg_links m) i) else dget (mg_links m) i)"
  using assms
proof (induction xs arbitrary: m)
  case Nil
  then show ?case by simp
next
  case (Cons x xs)
  obtain pid j where x: "x = (pid, j)" by (cases x)
  have "(q, j) \<notin> set xs" for q using Cons.prems x by force
  then show ?case
    using Cons.IH [of "send_to_link E reg src sp evt x m"] Cons.prems x
    by (cases "i = j") (auto simp: send_to_link_def)
qed

lemma send_to_links_frame:
  "mg_inbound (fold (send_to_link E reg src sp evt) xs m) = mg_inbound m"
  "mg_clients (fold (send_to_link E reg src sp evt) xs m) = mg_clients m"
  "registered (fold (send_to_link E reg src sp evt) xs m) = registered m"
  by (induction xs arbitrary: m) (auto simp: send_to_link_def split: prod.splits)

lemma send_to_links_ok: "manager_ok m \<Longrightarrow> manager_ok (fold (send_to_link E reg src sp evt) xs m)"
  by (induction xs arbitrary: m) (auto simp: send_to_link_def change_link_ok split: prod.splits)

lemma send_to_client_pair:
  "send_to_client E reg src evt (n, c) =
     (n, if src = Client_Source n \<or> cl_state c \<noteq> ACTIVE then c else client_send_event E reg evt c)"
  by (simp add: send_to_client_def)

lemma dget_send_to_client:
  "dget (map (send_to_client E reg src evt) cs) n =
     map_option (\<lambda>c. snd (send_to_client E reg src evt (n, c))) (dget cs n)"
proof (induction cs)
  case (Cons x cs)
  then show ?case by (cases x) (simp add: send_to_client_pair)
qed simp

lemma keys_send_to_client: "fst \<circ> send_to_client E reg src evt = fst"
  by (auto simp: send_to_client_pair)

lemma source_peer_id_sent:
  "source_peer_id (m\<lparr> mg_clients := map (send_to_client E reg src evt) (mg_clients m) \<rparr>) src = source_peer_id m src"
  by (cases src) (auto simp: source_peer_id_def dget_send_to_client send_to_client_pair split: option.split)

lemma on_outbound_steps:
  "on_outbound E reg src evt m =
     fold (send_to_link E reg src (source_peer_id m src) evt) (inbound_links_snapshot m)
       (m\<lparr> mg_clients := map (send_to_client E reg src evt) (mg_clients m) \<rparr>)"
  by (simp add: on_outbound_def Let_def source_peer_id_sent inbound_links_snapshot_def)

lemma on_outbound_ok:
  assumes "manager_ok m"
  shows "manager_ok (on_outbound E reg src evt m)"
proof -
  have "manager_ok (m\<lparr> mg_clients := map (send_to_client E reg src evt) (mg_clients m) \<rparr>)"
    using assms unfolding manager_ok_def dict_ok_def by (simp add: keys_send_to_client)
  then show ?thesis unfolding on_outbound_steps by (rule send_to_links_ok)
qed

lemma on_outbound_registered:
  "registered (on_outbound E reg src evt m) = registered m" "links_of (on_outbound E reg src evt m) = links_of m"
  unfolding on_outbound_steps by (simp_all add: send_to_links_frame links_of_def fun_eq_iff)

lemma on_outbound_client:
  "map_option cl_outq (dget (mg_clients (on_outbound E reg src evt m)) n) =
     map_option (\<lambda>c. cl_outq c @ (if src = Client_Source n then []
        else case client_gate E reg c evt of None \<Rightarrow> [] | Some p \<Rightarrow> [p])) (dget (mg_clients m) n)"
  unfolding on_outbound_steps send_to_links_frame
  by (cases "dget (mg_clients m) n")
    (auto simp: dget_send_to_client send_to_client_pair dialed.send_queue client_gate_def)

text \<open>The links that an event from \<open>src\<close> goes to.\<close>

definition fanned_to :: "manager \<Rightarrow> source \<Rightarrow> nat \<Rightarrow> bool" where
  "fanned_to m src i =
     (src \<noteq> Link_Source i \<and> (\<exists>pid. i \<in> set (links_of m pid) \<and> source_peer_id m src \<noteq> Some pid))"

lemma on_outbound_link:
  assumes "manager_ok m"
  shows "dget (mg_links (on_outbound E reg src evt m)) i =
    (if fanned_to m src i then map_option (link_send_event E reg evt) (dget (mg_links m) i) else dget (mg_links m) i)"
proof -
  let ?m1 = "m\<lparr> mg_clients := map (send_to_client E reg src evt) (mg_clients m) \<rparr>"
  have "distinct (map snd (inbound_links_snapshot m))" "dict_ok (mg_inbound m)"
    using assms by (simp_all add: snapshot_links manager_ok_def)
  with send_to_links [OF this(1), of E reg src "source_peer_id m src" evt ?m1 i] snapshot_iff [OF this(2)]
  show ?thesis by (auto simp: on_outbound_steps fanned_to_def)
qed

text \<open>
  C12. The fan-out reaches everyone else exactly once: every client but the source appends
  what its gate makes of the event (nothing unless it is active); every link that is
  registered, is not the source and is not registered under the peer the event came from
  appends what its gate makes of it; no other queue changes, and the tables stay
  consistent.
\<close>

theorem fan_out:
  assumes "manager_ok m"
  shows "manager_ok (on_outbound E reg src evt m) \<and>
    map_option cl_outq (dget (mg_clients (on_outbound E reg src evt m)) n) =
      map_option (\<lambda>c. cl_outq c @ (if src = Client_Source n then []
         else case client_gate E reg c evt of None \<Rightarrow> [] | Some p \<Rightarrow> [p])) (dget (mg_clients m) n) \<and>
    map_option il_outq (dget (mg_links (on_outbound E reg src evt m)) i) =
      map_option (\<lambda>l. il_outq l @
         (if src \<noteq> Link_Source i \<and> (\<exists>pid. i \<in> set (links_of m pid) \<and> source_peer_id m src \<noteq> Some pid)
          then case link_gate E reg l evt of None \<Rightarrow> [] | Some p \<Rightarrow> [p] else [])) (dget (mg_links m) i)"
  unfolding on_outbound_link [OF assms] fanned_to_def [symmetric]
  by (cases "dget (mg_links m) i") (simp_all add: on_outbound_ok [OF assms] on_outbound_client inbound.send_queue)

definition one_link :: manager where
  "one_link = register_inbound_link ''p'' 0
     (snd (create_link sample_link \<lparr> mg_clients = [], mg_links = [], mg_next = 0, mg_inbound = [] \<rparr>))"

lemma one_link: "one_link = \<lparr> mg_clients = [], mg_links = [(0, sample_link)], mg_next = 1, mg_inbound = [(''p'', [0])] \<rparr>"
  by (simp add: one_link_def create_link_def register_inbound_link_def links_of_def)

theorem fan_out_witness:
  "map_option (\<lambda>l. length (il_outq l)) (dget (mg_links (on_outbound epoch_env (Some sample_registry) No_Source sample_out one_link)) 0) = Some 1 \<and>
   map_option (\<lambda>l. length (il_outq l)) (dget (mg_links (on_outbound epoch_env (Some sample_registry) (Link_Source 0) sample_out one_link)) 0) = Some 0"
proof -
  obtain p where p: "prepare_outbound_event epoch_env sample_out ''n'' 3 (Some sample_registry) ''p'' = Inr (Some p)"
    using sample_out_prepared by blast
  then have g: "link_gate epoch_env (Some sample_registry) sample_link sample_out = Some p"
    by (simp add: link_gate_def link_registry_def sample_link_def new_inbound_link_def)
  have q: "il_outq sample_link = []" by (simp add: sample_link_def new_inbound_link_def)
  have "manager_ok one_link" by (simp add: one_link manager_ok_def registered_def dict_ok_def)
  note f = fan_out [OF this, THEN conjunct2, THEN conjunct2, of epoch_env "Some sample_registry" _ sample_out 0]
  have a: "map_option il_outq (dget (mg_links (on_outbound epoch_env (Some sample_registry) No_Source sample_out one_link)) 0) = Some [p]"
    and b: "map_option il_outq (dget (mg_links (on_outbound epoch_env (Some sample_registry) (Link_Source 0) sample_out one_link)) 0) = Some []"
    unfolding f by (simp_all add: one_link links_of_def source_peer_id_def g q)
  show ?thesis
    using arg_cong [OF a, of "map_option length"] arg_cong [OF b, of "map_option length"]
    by (simp add: option.map_comp comp_def)
qed

text \<open>A manager that was just built is consistent.\<close>

lemma add_clients_ok: "dict_ok cs \<Longrightarrow> dict_ok (fold (add_client cfg) ps cs)"
  by (induction ps arbitrary: cs) (simp_all add: add_client_def)

lemma new_manager_ok: "manager_ok (new_manager cfg)"
  using add_clients_ok [of "[]" cfg "fc_peers cfg"] by (simp add: new_manager_def manager_ok_def registered_def)

text \<open>Stopping tells every link of a connection, and no queue changes.\<close>

lemma stop_links:
  assumes "distinct (map snd xs)"
  shows "dget (mg_links (fold (\<lambda>(pid, i). change_link i link_request_stop) xs m)) j =
    (if j \<in> snd ` set xs then map_option link_request_stop (dget (mg_links m) j) else dget (mg_links m) j)"
  using assms by (induction xs arbitrary: m) (force split: prod.split)+

lemma manager_stop_link:
  assumes "manager_ok m" "i \<in> set (registered m)" "dget (mg_links m) i = Some l"
  shows "dget (mg_links (manager_stop m)) i = Some (link_request_stop l)"
proof -
  have "distinct (map snd (inbound_links_snapshot m))" "i \<in> snd ` set (inbound_links_snapshot m)"
    using assms(1,2) by (simp_all add: snapshot_links manager_ok_def flip: set_map)
  with stop_links [OF this(1), of m i] assms(3) show ?thesis by (simp add: manager_stop_def Let_def)
qed

end
