(* ===== verification/Session_Setup.thy ===== *)
theory Session_Setup
  imports Config Py_Int Wire
begin

text \<open>
  What a session is set up with: the credentials of tls.py, the identity and version that
  both sides announce (\<open>_build_ots_version\<close>, \<open>_build_identity\<close>, \<open>getIdentity\<close>), the
  decision of the listener between mutual TLS and plain text (\<open>FederationServer.start\<close>,
  \<open>FederationManager._start_fed_server\<close>). The ssl module, the files and the port are
  arguments.
\<close>

section \<open>Credentials\<close>

text \<open>The temporary \<open>SSLContext\<close> the material is checked with.\<close>

record ssl_context =
  sc_server_side :: bool
  sc_min_tls12 :: bool
  sc_cert_required :: bool
  sc_check_hostname :: bool

text \<open>
  \<open>te_load_ca\<close> and \<open>te_load_chain\<close> are \<open>load_verify_locations\<close> and \<open>load_cert_chain\<close>, with
  what they raise; \<open>te_read\<close> is the contents of a file.
\<close>

record tls_env =
  te_load_ca :: "ssl_context \<Rightarrow> string \<Rightarrow> py_error option"
  te_load_chain :: "ssl_context \<Rightarrow> string \<Rightarrow> string \<Rightarrow> string option \<Rightarrow> py_error option"
  te_read :: "string \<Rightarrow> py_error + string"

definition read_pem_bytes :: "tls_env \<Rightarrow> string \<Rightarrow> py_error + string" where
  "read_pem_bytes T path = te_read T path"

definition check_with :: "tls_env \<Rightarrow> ssl_context \<Rightarrow> string \<Rightarrow> string \<Rightarrow> string \<Rightarrow> string option \<Rightarrow> py_error + unit" where
  "check_with T ctx ca cert key pw =
     (case te_load_ca T ctx ca of
        Some e \<Rightarrow> Inl e
      | None \<Rightarrow> (case te_load_chain T ctx cert key pw of Some e \<Rightarrow> Inl e | None \<Rightarrow> Inr ()))"

definition validate_pem_with_ssl :: "tls_env \<Rightarrow> string \<Rightarrow> string \<Rightarrow> string \<Rightarrow> string option \<Rightarrow> py_error + unit" where
  "validate_pem_with_ssl T =
     check_with T \<lparr> sc_server_side = False, sc_min_tls12 = True, sc_cert_required = True, sc_check_hostname = True \<rparr>"

definition validate_server_pem_with_ssl :: "tls_env \<Rightarrow> string \<Rightarrow> string \<Rightarrow> string \<Rightarrow> string option \<Rightarrow> py_error + unit" where
  "validate_server_pem_with_ssl T =
     check_with T \<lparr> sc_server_side = True, sc_min_tls12 = True, sc_cert_required = True, sc_check_hostname = False \<rparr>"

datatype channel_credentials =
    Ssl_Channel string string string \<comment> \<open>root certificates, private key, certificate chain\<close>
  | Local_Channel

record server_credentials =
  sc_private_key :: string
  sc_chain :: string
  sc_roots :: string
  sc_require_client_auth :: bool

definition build_grpc_client_credentials ::
    "tls_env \<Rightarrow> string \<Rightarrow> string \<Rightarrow> string \<Rightarrow> string option \<Rightarrow> py_error + channel_credentials" where
  "build_grpc_client_credentials T ca cert key pw =
     rbind (validate_pem_with_ssl T ca cert key pw) (\<lambda>_.
     rbind (read_pem_bytes T ca) (\<lambda>root_certs.
     rbind (read_pem_bytes T cert) (\<lambda>certificate_chain.
     rbind (read_pem_bytes T key) (\<lambda>private_key.
       Inr (Ssl_Channel root_certs private_key certificate_chain)))))"

definition build_grpc_server_credentials ::
    "tls_env \<Rightarrow> string \<Rightarrow> string \<Rightarrow> string \<Rightarrow> string option \<Rightarrow> bool \<Rightarrow> py_error + server_credentials" where
  "build_grpc_server_credentials T ca cert key pw require_client_auth =
     rbind (validate_server_pem_with_ssl T ca cert key pw) (\<lambda>_.
     rbind (read_pem_bytes T ca) (\<lambda>root_certs.
     rbind (read_pem_bytes T cert) (\<lambda>certificate_chain.
     rbind (read_pem_bytes T key) (\<lambda>private_key.
       Inr \<lparr> sc_private_key = private_key, sc_chain = certificate_chain, sc_roots = root_certs,
             sc_require_client_auth = require_client_auth \<rparr>))))"

text \<open>The credentials of a client: without certificates, local ones.\<close>

definition build_credentials :: "tls_env \<Rightarrow> peer_config \<Rightarrow> py_error + channel_credentials" where
  "build_credentials T pc =
     (if pc_ca_cert pc \<noteq> [] \<and> pc_client_cert pc \<noteq> [] \<and> pc_client_key pc \<noteq> []
      then build_grpc_client_credentials T (pc_ca_cert pc) (pc_client_cert pc) (pc_client_key pc) None
      else Inr Local_Channel)"

section \<open>Identity and version\<close>

record ots_version =
  ov_major :: int
  ov_minor :: int
  ov_patch :: int
  ov_branch :: string

record identity =
  id_server_id :: string
  id_name :: string

record subscription_msg =
  sub_identity :: identity
  sub_version :: ots_version

text \<open>\<open>s.partition(sep)\<close> for a separator of any length: the parts around its first occurrence.\<close>

fun py_partition :: "string \<Rightarrow> string \<Rightarrow> string \<times> string" where
  "py_partition sep [] = ([], [])"
| "py_partition sep (c # s) =
     (if prefix sep (c # s) then ([], drop (length sep) (c # s))
      else (case py_partition sep s of (a, b) \<Rightarrow> (c # a, b)))"

text \<open>
  The numbers of the first three parts: a part that is no number ends the reading, and what
  was read before it stays.
\<close>

fun version_numbers :: "string list \<Rightarrow> int list" where
  "version_numbers [] = []"
| "version_numbers (p # ps) = (case py_int p of None \<Rightarrow> [] | Some i \<Rightarrow> i # version_numbers ps)"

definition nth_or_zero :: "int list \<Rightarrow> nat \<Rightarrow> int" where
  "nth_or_zero xs i = (if i < length xs then xs ! i else 0)"

definition build_ots_version :: "string \<Rightarrow> py_error + ots_version" where
  "build_ots_version ver_str =
     (let base = hd (py_split (CHR ''-'') (hd (py_split (CHR ''+'') ver_str)));
          (base', branch) =
            (if sublist ''dev'' base
             then (case py_partition ''.dev'' base of (b, dev_suffix) \<Rightarrow> (b, ''dev'' @ dev_suffix))
             else (base, []));
          ns = version_numbers (take 3 (py_split (CHR ''.'') base'))
      in if list_all int32_ok ns
         then Inr \<lparr> ov_major = nth_or_zero ns 0, ov_minor = nth_or_zero ns 1, ov_patch = nth_or_zero ns 2,
                    ov_branch = branch \<rparr>
         else Inl ValueError)"

definition build_identity :: "peer_config \<Rightarrow> string \<Rightarrow> identity" where
  "build_identity pc node_id =
     \<lparr> id_server_id = node_id, id_name = (if pc_display_name pc \<noteq> [] then pc_display_name pc else node_id) \<rparr>"

definition build_subscription :: "string \<Rightarrow> peer_config \<Rightarrow> string \<Rightarrow> py_error + subscription_msg" where
  "build_subscription ver_str pc node_id =
     rbind (build_ots_version ver_str)
       (\<lambda>v. Inr \<lparr> sub_identity = build_identity pc node_id, sub_version = v \<rparr>)"

section \<open>The listener\<close>

datatype listener = Secure_Port server_credentials | Insecure_Port

text \<open>\<open>FederationServer.start\<close>; \<open>bind\<close> is \<open>add_secure_port\<close> or \<open>add_insecure_port\<close>, 0 when it failed.\<close>

definition choose_port :: "server_credentials option \<Rightarrow> bool \<Rightarrow> py_error + listener" where
  "choose_port creds insecure_listen =
     (case creds of
        Some c \<Rightarrow> Inr (Secure_Port c)
      | None \<Rightarrow> if insecure_listen then Inr Insecure_Port else Inl ValueError)"

definition federation_server_start ::
    "(listener \<Rightarrow> py_error + nat) \<Rightarrow> server_credentials option \<Rightarrow> bool \<Rightarrow> py_error + listener \<times> nat" where
  "federation_server_start bind creds insecure_listen =
     rbind (choose_port creds insecure_listen) (\<lambda>l.
     rbind (bind l) (\<lambda>bound_port. if bound_port = 0 then Inl OSError else Inr (l, bound_port)))"

text \<open>\<open>_start_fed_server\<close>: the credentials from the configuration, or none by opt-in.\<close>

definition listener_credentials :: "tls_env \<Rightarrow> fed_config \<Rightarrow> py_error + server_credentials option" where
  "listener_credentials T cfg =
     (let ssl = fc_ssl cfg in
      if ssl_fed_ca_bundle ssl \<noteq> [] \<and> ssl_fed_cert ssl \<noteq> [] \<and> ssl_fed_key ssl \<noteq> []
      then rbind (build_grpc_server_credentials T (ssl_fed_ca_bundle ssl) (ssl_fed_cert ssl) (ssl_fed_key ssl)
             (if ssl_fed_key_pw ssl \<noteq> [] then Some (ssl_fed_key_pw ssl) else None) True) (\<lambda>c. Inr (Some c))
      else if fc_insecure_listen cfg then Inr None
      else Inl ValueError)"

definition start_fed_server ::
    "tls_env \<Rightarrow> (listener \<Rightarrow> py_error + nat) \<Rightarrow> fed_config \<Rightarrow> py_error + listener \<times> nat" where
  "start_fed_server T bind cfg =
     rbind (listener_credentials T cfg) (\<lambda>creds. federation_server_start bind creds (fc_insecure_listen cfg))"

text \<open>What the manager starts: nothing unless listening is enabled.\<close>

definition start_listener ::
    "tls_env \<Rightarrow> (listener \<Rightarrow> py_error + nat) \<Rightarrow> fed_config \<Rightarrow> py_error + (listener \<times> nat) option" where
  "start_listener T bind cfg =
     (if fc_listen_enabled cfg then rbind (start_fed_server T bind cfg) (\<lambda>l. Inr (Some l)) else Inr None)"

section \<open>What the credentials and the version are\<close>

lemma server_credentials_contents:
  assumes "build_grpc_server_credentials T ca cert key pw auth = Inr c"
  shows "te_read T ca = Inr (sc_roots c)" "te_read T cert = Inr (sc_chain c)" "te_read T key = Inr (sc_private_key c)"
    "sc_require_client_auth c = auth" "validate_server_pem_with_ssl T ca cert key pw = Inr ()"
  using assms by (auto simp: build_grpc_server_credentials_def read_pem_bytes_def rbind_Inr_iff)

text \<open>
  The password only checks the key: the credentials hold the bytes of the file as they are,
  whatever password opened it.
\<close>

lemma key_password_is_not_used:
  "build_grpc_server_credentials T ca cert key (Some pw) auth = Inr c \<Longrightarrow>
   validate_server_pem_with_ssl T ca cert key None = Inr () \<Longrightarrow>
   build_grpc_server_credentials T ca cert key None auth = Inr c"
  by (simp add: build_grpc_server_credentials_def rbind_Inr_iff)

lemma set_py_join: "c \<in> set (py_join sep xs) \<Longrightarrow> c = sep \<or> (\<exists>x \<in> set xs. c \<in> set x)"
  by (induction sep xs rule: py_join.induct) auto

lemma release_chars: "c \<in> set (py_join (CHR ''.'') (map nat_str ns)) \<Longrightarrow> c = CHR ''.'' \<or> (\<exists>d < 10. c = digit_char d)"
  using set_py_join [of c "CHR ''.''" "map nat_str ns"] nat_str_digits [of c] by (auto simp del: map_map)

lemma digit_char_code: "d < 10 \<Longrightarrow> digit_char d = c \<Longrightarrow> (of_char c :: nat) = 48 + d"
  using of_char_digit_char by blast

text \<open>A release \<open>a.b.c\<close>, printed and read.\<close>

lemma release_version:
  assumes "a < 2 ^ 31" "b < 2 ^ 31" "c < 2 ^ 31"
  shows "build_ots_version (py_join (CHR ''.'') (map nat_str [a, b, c])) =
    Inr \<lparr> ov_major = int a, ov_minor = int b, ov_patch = int c, ov_branch = [] \<rparr>"
proof -
  define s where "s = py_join (CHR ''.'') (map nat_str [a, b, c])"
  have no: "ch \<notin> set s" if "ch \<noteq> CHR ''.''" "(of_char ch :: nat) < 48 \<or> 57 < (of_char ch :: nat)" for ch
    using release_chars [of ch "[a, b, c]", folded s_def] digit_char_code [of _ ch] that by fastforce
  have "CHR ''d'' \<notin> set s" by (rule no) simp_all
  then have dev: "\<not> sublist ''dev'' s" by (auto dest: set_mono_sublist)
  have "CHR ''+'' \<notin> set s" "CHR ''-'' \<notin> set s" by (rule no; simp)+
  then have base: "hd (py_split (CHR ''-'') (hd (py_split (CHR ''+'') s))) = s" by (simp add: py_split_no_sep)
  have "CHR ''.'' \<noteq> digit_char d" if "d < 10" for d
    using digit_char_code [OF that, of "CHR ''.''"] by auto
  then have "CHR ''.'' \<notin> set (nat_str n)" for n by (auto dest!: nat_str_digits)
  then have parts: "py_split (CHR ''.'') s = map nat_str [a, b, c]"
    unfolding s_def by (intro py_split_join) auto
  have i: "py_int (nat_str n) = Some (int n)" for n
    using py_int_str [of "int n"] by (simp add: py_str_def)
  have ns: "version_numbers (take 3 (map nat_str [a, b, c])) = [int a, int b, int c]" by (simp add: i)
  have "list_all int32_ok [int a, int b, int c]" using assms by (simp add: int32_ok_def)
  then show ?thesis
    unfolding s_def [symmetric] build_ots_version_def Let_def base if_not_P [OF dev] prod.case parts ns
    by (simp add: nth_or_zero_def)
qed

text \<open>
  C20. A federation listener is never unauthenticated by accident: when one starts, it
  listens on a bound port, and either it requires client certificates, checked against the
  contents of the configured CA bundle and presented next to the configured certificate and
  key, or \<open>insecure_listen\<close> was set and the material is incomplete. Without both it does not
  start.
\<close>

theorem listener_needs_mtls_or_opt_in:
  "(case start_listener T bind cfg of
      Inr (Some (Secure_Port c, port)) \<Rightarrow>
        fc_listen_enabled cfg \<and> port \<noteq> 0 \<and> sc_require_client_auth c \<and>
        te_read T (ssl_fed_ca_bundle (fc_ssl cfg)) = Inr (sc_roots c) \<and>
        te_read T (ssl_fed_cert (fc_ssl cfg)) = Inr (sc_chain c) \<and>
        te_read T (ssl_fed_key (fc_ssl cfg)) = Inr (sc_private_key c)
    | Inr (Some (Insecure_Port, port)) \<Rightarrow>
        fc_listen_enabled cfg \<and> port \<noteq> 0 \<and> fc_insecure_listen cfg \<and>
        [] \<in> {ssl_fed_ca_bundle (fc_ssl cfg), ssl_fed_cert (fc_ssl cfg), ssl_fed_key (fc_ssl cfg)}
    | Inr None \<Rightarrow> \<not> fc_listen_enabled cfg
    | Inl _ \<Rightarrow> fc_listen_enabled cfg)"
proof (cases "start_listener T bind cfg")
  case (Inl e)
  then show ?thesis by (auto simp: start_listener_def split: if_splits)
next
  case (Inr r)
  show ?thesis
  proof (cases r)
    case None
    with Inr show ?thesis by (auto simp: start_listener_def rbind_Inr_iff split: if_splits)
  next
    case (Some lp)
    obtain l port where lp: "lp = (l, port)" by (cases lp)
    with Inr Some have e: "fc_listen_enabled cfg" and s: "start_fed_server T bind cfg = Inr (l, port)"
      by (auto simp: start_listener_def rbind_Inr_iff split: if_splits)
    then obtain creds where c: "listener_credentials T cfg = Inr creds"
      and st: "federation_server_start bind creds (fc_insecure_listen cfg) = Inr (l, port)"
      by (auto simp: start_fed_server_def rbind_Inr_iff)
    from st have p: "port \<noteq> 0" and ch: "choose_port creds (fc_insecure_listen cfg) = Inr l"
      by (auto simp: federation_server_start_def rbind_Inr_iff split: if_splits)
    show ?thesis
    proof (cases creds)
      case None
      with ch c have "l = Insecure_Port" "fc_insecure_listen cfg"
        "[] \<in> {ssl_fed_ca_bundle (fc_ssl cfg), ssl_fed_cert (fc_ssl cfg), ssl_fed_key (fc_ssl cfg)}"
        by (auto simp: choose_port_def listener_credentials_def Let_def rbind_Inr_iff split: if_splits)
      with Inr Some lp e p show ?thesis by simp
    next
      case (Some sc)
      with c have "\<exists>pw. build_grpc_server_credentials T (ssl_fed_ca_bundle (fc_ssl cfg)) (ssl_fed_cert (fc_ssl cfg))
          (ssl_fed_key (fc_ssl cfg)) pw True = Inr sc"
        by (auto simp: listener_credentials_def Let_def rbind_Inr_iff split: if_splits)
      moreover have "l = Secure_Port sc" using ch Some by (simp add: choose_port_def)
      ultimately show ?thesis using Inr \<open>r = Some lp\<close> lp e p by (auto dest: server_credentials_contents)
    qed
  qed
qed

end
