(* ===== verification/Fed_Server.thy ===== *)
theory Fed_Server
  imports Fed_Manager Session_Setup Cert_Identity "HOL-Library.Word"
begin

text \<open>
  \<open>FederatedChannelServicer\<close> of fed_server.py: the handlers of the calls of peers that
  connect to us. \<open>servicer\<close> is its state; the context of a call is the address of the
  transport and what its TLS layer reports. A call that streams is a record of its locals
  with one operation for the opening, one per message and one for the end.
\<close>

section \<open>State\<close>

text \<open>\<open>ctx_peer\<close> is \<open>context.peer()\<close>, none where it raises; \<open>ctx_pem\<close> is the certificate entry.\<close>

record grpc_ctx =
  ctx_peer :: "string option"
  ctx_pem :: "py_error + auth_entry list option"

record servicer =
  sv_server_id :: string
  sv_server_name :: string
  sv_max_hops :: int
  sv_registry :: "registry option"
  sv_allow_delete :: bool
  sv_rol_sink :: string
  sv_addr :: "(string, string) dict"

definition new_servicer :: "fed_config \<Rightarrow> registry option \<Rightarrow> servicer" where
  "new_servicer cfg reg =
     \<lparr> sv_server_id = fc_server_id cfg, sv_server_name = fc_server_name cfg, sv_max_hops = fc_max_hops cfg,
       sv_registry = reg, sv_allow_delete = fc_allow_federated_delete cfg, sv_rol_sink = fc_rol_log_sink cfg,
       sv_addr = [] \<rparr>"

section \<open>Who is calling\<close>

definition our_identity :: "servicer \<Rightarrow> identity" where
  "our_identity sv =
     \<lparr> id_server_id = sv_server_id sv,
       id_name = (if sv_server_name sv \<noteq> [] then sv_server_name sv else sv_server_id sv) \<rparr>"

definition getIdentity :: "servicer \<Rightarrow> identity" where
  "getIdentity sv =
     \<lparr> id_server_id = sv_server_id sv,
       id_name = (if sv_server_name sv \<noteq> [] then sv_server_name sv else sv_server_id sv) \<rparr>"

definition our_subscription :: "string \<Rightarrow> servicer \<Rightarrow> py_error + subscription_msg" where
  "our_subscription ver_str sv =
     rbind (build_ots_version ver_str) (\<lambda>v. Inr \<lparr> sub_identity = our_identity sv, sub_version = v \<rparr>)"

definition peer_id_from_context :: "grpc_ctx \<Rightarrow> string" where
  "peer_id_from_context ctx =
     (case ctx_peer ctx of None \<Rightarrow> ''unknown-peer'' | Some p \<Rightarrow> if p = [] then ''unknown-peer'' else p)"

definition resolve_peer_id :: "servicer \<Rightarrow> grpc_ctx \<Rightarrow> string" where
  "resolve_peer_id sv ctx =
     (case ctx_peer ctx of
        None \<Rightarrow> ''unknown-peer''
      | Some p \<Rightarrow>
          (let tcp_addr = (if p = [] then ''unknown-peer'' else p) in
           case dget (sv_addr sv) tcp_addr of None \<Rightarrow> tcp_addr | Some sid \<Rightarrow> sid))"

definition register_peer_addr :: "grpc_ctx \<Rightarrow> string \<Rightarrow> servicer \<Rightarrow> servicer" where
  "register_peer_addr ctx server_id sv =
     (if server_id = [] then sv
      else
        (case ctx_peer ctx of
           None \<Rightarrow> sv
         | Some addr \<Rightarrow> if addr = [] then sv else sv\<lparr> sv_addr := dset addr server_id (sv_addr sv) \<rparr>))"

text \<open>
  \<open>sub\<close>: no subscription, one without an identity, one with a server id. \<open>D\<close> is the digest
  of a certificate, from the cryptography package.
\<close>

definition legacy_candidate :: "servicer \<Rightarrow> grpc_ctx \<Rightarrow> string option option \<Rightarrow> string" where
  "legacy_candidate sv ctx sub =
     (let candidate = (case sub of Some (Some sid) \<Rightarrow> sid | _ \<Rightarrow> []) in
      if candidate = [] then resolve_peer_id sv ctx else candidate)"

definition resolve_authenticated_peer ::
    "(string \<Rightarrow> py_error + nat list) \<Rightarrow> servicer \<Rightarrow> grpc_ctx \<Rightarrow> string option option \<Rightarrow> string \<times> bool" where
  "resolve_authenticated_peer D sv ctx sub =
     (case peer_fingerprint_from_grpc_context D (ctx_pem ctx) of
        None \<Rightarrow> (legacy_candidate sv ctx sub, False)
      | Some fp \<Rightarrow>
          (case sv_registry sv of
             None \<Rightarrow> (legacy_candidate sv ctx sub, False)
           | Some r \<Rightarrow>
               (case resolve_peer_id_by_fingerprint r fp of
                  None \<Rightarrow> (''unconfigured-cert:'' @ fp, True)
                | Some pid \<Rightarrow> (pid, False))))"

section \<open>Events from the peer\<close>

text \<open>The group policy of an inbound event, nothing for a quarantined identity.\<close>

definition inbound_policy :: "servicer \<Rightarrow> string \<times> bool \<Rightarrow> string list \<Rightarrow> string set option" where
  "inbound_policy sv peer remote_groups =
     (case peer of (peer_id, quarantined) \<Rightarrow>
        if quarantined then None
        else (case sv_registry sv of None \<Rightarrow> None | Some r \<Rightarrow> map_inbound_groups r peer_id remote_groups))"

definition admit_event ::
    "py_env \<Rightarrow> servicer \<Rightarrow> string \<times> bool \<Rightarrow> fed_event \<Rightarrow> event \<Rightarrow> fed_meta \<Rightarrow> event option" where
  "admit_event E sv peer proto evt fed_meta =
     (if sv_registry sv \<noteq> None then
        (case inbound_policy sv peer (fe_groups proto) of
           None \<Rightarrow> None
         | Some gs \<Rightarrow> Some ((with_groups E gs evt)\<lparr> ev_fed_meta := Some fed_meta \<rparr>))
      else Some (evt\<lparr> ev_fed_meta := Some fed_meta \<rparr>))"

text \<open>
  The call \<open>ServerEventStream\<close>: the link that stands in as the source of the events (one
  object, whose id every message refreshes), the local \<open>peer_id\<close>, unbound before the first
  message, and what was put on the bridge.
\<close>

record event_call =
  ec_src :: inbound_link
  ec_peer :: "string option"
  ec_enqueued :: "event list"

definition event_call_open :: "servicer \<Rightarrow> grpc_ctx \<Rightarrow> event_call" where
  "event_call_open sv ctx =
     \<lparr> ec_src = new_inbound_link (resolve_peer_id sv ctx) (sv_server_id sv) (sv_max_hops sv) False,
       ec_peer = None, ec_enqueued = [] \<rparr>"

text \<open>The servicer is the one at the time of the message.\<close>

definition stream_event :: "py_env \<Rightarrow> servicer \<Rightarrow> string \<times> bool \<Rightarrow> fed_event \<Rightarrow> event option" where
  "stream_event E sv peer proto =
     (case decode_federated_event E proto (sv_max_hops sv) of
        Inl _ \<Rightarrow> None
      | Inr (None, _) \<Rightarrow> None
      | Inr (Some evt, fed_meta) \<Rightarrow>
          if \<not> sv_allow_delete sv \<and> is_delete evt then None
          else admit_event E sv peer proto evt fed_meta)"

definition event_call_message ::
    "py_env \<Rightarrow> (string \<Rightarrow> py_error + nat list) \<Rightarrow> grpc_ctx \<Rightarrow> servicer \<times> fed_event \<Rightarrow> event_call \<Rightarrow> event_call" where
  "event_call_message E D ctx msg c =
     (case msg of (sv, proto) \<Rightarrow>
        (let peer = resolve_authenticated_peer D sv ctx None;
             c1 = c\<lparr> ec_src := (ec_src c)\<lparr> il_peer := fst peer \<rparr>, ec_peer := Some (fst peer) \<rparr>
         in case stream_event E sv peer proto of
              None \<Rightarrow> c1
            | Some evt \<Rightarrow> c1\<lparr> ec_enqueued := ec_enqueued c1 @ [evt] \<rparr>))"

text \<open>
  The end: \<open>ended\<close> is what the iterator raised, if anything. The \<open>finally\<close> reads \<open>peer_id\<close>,
  and raises when no message bound it.
\<close>

definition event_call_end ::
    "string \<Rightarrow> servicer \<Rightarrow> py_error option \<Rightarrow> event_call \<Rightarrow> py_error + subscription_msg" where
  "event_call_end ver_str sv ended c =
     (case ec_peer c of
        None \<Rightarrow> Inl UnboundLocalError
      | Some _ \<Rightarrow> (case ended of Some e \<Rightarrow> Inl e | None \<Rightarrow> our_subscription ver_str sv))"

definition ServerEventStream ::
    "py_env \<Rightarrow> (string \<Rightarrow> py_error + nat list) \<Rightarrow> string \<Rightarrow> grpc_ctx \<Rightarrow> servicer \<Rightarrow> (servicer \<times> fed_event) list \<Rightarrow>
     py_error option \<Rightarrow> event list \<times> (py_error + subscription_msg)" where
  "ServerEventStream E D ver_str ctx sv msgs ended =
     (let c = fold (event_call_message E D ctx) msgs (event_call_open sv ctx)
      in (ec_enqueued c, event_call_end ver_str sv ended c))"

text \<open>\<open>SendOneEvent\<close>: the event put on the bridge, if any. It has no guard for DELETE events.\<close>

definition SendOneEvent ::
    "py_env \<Rightarrow> (string \<Rightarrow> py_error + nat list) \<Rightarrow> grpc_ctx \<Rightarrow> servicer \<Rightarrow> fed_event \<Rightarrow> (inbound_link \<times> event) option" where
  "SendOneEvent E D ctx sv request =
     (let peer = resolve_authenticated_peer D sv ctx None in
      case decode_federated_event E request (sv_max_hops sv) of
        Inl _ \<Rightarrow> None
      | Inr (None, _) \<Rightarrow> None
      | Inr (Some evt, fed_meta) \<Rightarrow>
          map_option
            (Pair (new_inbound_link (fst peer) (sv_server_id sv) (sv_max_hops sv) (sv_registry sv \<noteq> None)))
            (admit_event E sv peer request evt fed_meta))"

section \<open>Events to the peer\<close>

text \<open>The call \<open>ClientEventStream\<close>: its peer and its link, an object of the manager.\<close>

record client_call =
  cc_peer :: string
  cc_quarantined :: bool
  cc_link :: nat

definition client_call_open ::
    "(string \<Rightarrow> py_error + nat list) \<Rightarrow> grpc_ctx \<Rightarrow> string option option \<Rightarrow> servicer \<times> manager \<Rightarrow>
     client_call \<times> servicer \<times> manager" where
  "client_call_open D ctx sub sm =
     (case sm of (sv, m) \<Rightarrow>
        (case resolve_authenticated_peer D sv ctx sub of
           (peer_id, quarantined) \<Rightarrow>
             (let sv1 = register_peer_addr ctx peer_id sv in
              case create_link (new_inbound_link peer_id (sv_server_id sv1) (sv_max_hops sv1) (sv_registry sv1 \<noteq> None)) m of
                (i, m1) \<Rightarrow>
                  (\<lparr> cc_peer = peer_id, cc_quarantined = quarantined, cc_link = i \<rparr>, sv1,
                   if quarantined then m1 else register_inbound_link peer_id i m1))))"

text \<open>\<open>n\<close> turns of the generator, the callback of gRPC at the end of the call, and the end.\<close>

definition client_call_turns :: "nat \<Rightarrow> client_call \<Rightarrow> manager \<Rightarrow> fed_event list \<times> manager" where
  "client_call_turns n c m =
     (case dget (mg_links m) (cc_link c) of
        None \<Rightarrow> ([], m)
      | Some l \<Rightarrow> (case drain_outbound n l of (ps, l') \<Rightarrow> (ps, change_link (cc_link c) (\<lambda>_. l') m)))"

definition client_call_done :: "client_call \<Rightarrow> manager \<Rightarrow> manager" where
  "client_call_done c = change_link (cc_link c) link_request_stop"

definition client_call_close :: "client_call \<Rightarrow> manager \<Rightarrow> manager" where
  "client_call_close c m = (if cc_quarantined c then m else deregister_inbound_link (cc_peer c) (cc_link c) m)"

section \<open>Groups\<close>

definition ClientFederateGroupsStream ::
    "(string \<Rightarrow> py_error + nat list) \<Rightarrow> string \<Rightarrow> grpc_ctx \<Rightarrow> string list list \<Rightarrow> py_error option \<Rightarrow> servicer \<Rightarrow>
     servicer \<times> (py_error + subscription_msg)" where
  "ClientFederateGroupsStream D ver_str ctx msgs ended sv =
     (case resolve_authenticated_peer D sv ctx None of
        (peer_id, quarantined) \<Rightarrow>
          (let sv1 = fold (\<lambda>remote_groups sv.
                 case sv_registry sv of
                   None \<Rightarrow> sv
                 | Some r \<Rightarrow>
                     if quarantined then sv
                     else sv\<lparr> sv_registry := Some (update_from_federate_groups peer_id remote_groups r) \<rparr>) msgs sv
           in (sv1,
               case ended of
                 None \<Rightarrow> our_subscription ver_str sv1
               | Some e \<Rightarrow> if e = RpcError then our_subscription ver_str sv1 else Inl e)))"

text \<open>What we announce to the peer; the address is bound as a side effect.\<close>

definition ServerFederateGroupsStream ::
    "(string \<Rightarrow> py_error + nat list) \<Rightarrow> grpc_ctx \<Rightarrow> string option option \<Rightarrow> servicer \<Rightarrow> string list \<times> servicer" where
  "ServerFederateGroupsStream D ctx sub sv =
     (case resolve_authenticated_peer D sv ctx sub of
        (peer_id, _) \<Rightarrow>
          (let sv1 = register_peer_addr ctx peer_id sv in
           (outbound_values (sv_registry sv1) peer_id, sv1)))"

section \<open>The log of ROL messages\<close>

text \<open>\<open>len(raw).to_bytes(4, "big")\<close>.\<close>

definition to_bytes4 :: "nat \<Rightarrow> py_error + 8 word list" where
  "to_bytes4 n =
     (if n < 2 ^ 32
      then Inr [word_of_nat (n div 2 ^ 24), word_of_nat (n div 2 ^ 16), word_of_nat (n div 2 ^ 8), word_of_nat n]
      else Inl OverflowError)"

text \<open>
  One message: its bytes, and how the write goes. A file that does not open, or a write that
  fails after \<open>k\<close> bytes, is an \<open>OSError\<close>, which is logged.
\<close>

datatype write_outcome = Written | Open_Fails | Write_Fails nat

definition log_rol :: "string \<Rightarrow> 8 word list \<times> write_outcome \<Rightarrow> 8 word list \<Rightarrow> py_error + 8 word list" where
  "log_rol sink msg contents =
     (if sink = [] \<or> snd msg = Open_Fails then Inr contents
      else rbind (to_bytes4 (length (fst msg))) (\<lambda>len.
        let frame = len @ fst msg in
        Inr (contents @ (case snd msg of Write_Fails k \<Rightarrow> take k frame | _ \<Rightarrow> frame))))"

text \<open>All messages of a stream; the contents of the file are kept when one raises.\<close>

fun log_rols :: "string \<Rightarrow> (8 word list \<times> write_outcome) list \<Rightarrow> 8 word list \<Rightarrow> 8 word list \<times> py_error option" where
  "log_rols sink [] contents = (contents, None)"
| "log_rols sink (m # ms) contents =
     (case log_rol sink m contents of
        Inl e \<Rightarrow> (contents, Some e)
      | Inr contents' \<Rightarrow> log_rols sink ms contents')"

definition ServerROLStream ::
    "string \<Rightarrow> servicer \<Rightarrow> (8 word list \<times> write_outcome) list \<Rightarrow> py_error option \<Rightarrow> 8 word list \<Rightarrow>
     8 word list \<times> (py_error + subscription_msg)" where
  "ServerROLStream ver_str sv msgs ended contents =
     (case log_rols (sv_rol_sink sv) msgs contents of
        (contents', Some e) \<Rightarrow> (contents', Inl e)
      | (contents', None) \<Rightarrow>
          (contents',
           case ended of
             None \<Rightarrow> our_subscription ver_str sv
           | Some e \<Rightarrow> if e = RpcError then our_subscription ver_str sv else Inl e))"

section \<open>The contract of an inbound path\<close>

text \<open>
  \<open>admit s p\<close> is the event that a path in state \<open>s\<close> puts on the bridge for a message.
  Where a policy governs the path, an admitted event is restricted to exactly the groups
  that the policy makes of those of the message, for delivery and for relaying, and it
  carries the provenance of the message.
\<close>

locale inbound_gate =
  fixes admit :: "'s \<Rightarrow> fed_event \<Rightarrow> event option"
    and policy :: "'s \<Rightarrow> string list \<Rightarrow> string set option"
    and governed :: "'s \<Rightarrow> fed_event \<Rightarrow> bool"
    and order :: "string set \<Rightarrow> string list"
  assumes admit_groups: "governed s p \<Longrightarrow> admit s p = Some e \<Longrightarrow>
      \<exists>gs. policy s (fe_groups p) = Some gs \<and>
        ev_inbound_local_groups e = Some (order gs) \<and> ev_local_acl_groups e = Some (order gs)"
    and admit_provenance: "governed s p \<Longrightarrow> admit s p = Some e \<Longrightarrow>
      \<exists>m. ev_fed_meta e = Some m \<and> fm_seen m = fe_provenance p"
begin

lemma no_policy_nothing: "governed s p \<Longrightarrow> policy s (fe_groups p) = None \<Longrightarrow> admit s p = None"
  using admit_groups [of s p] by (cases "admit s p") auto

lemma admitted_from:
  assumes "\<forall>(s, p) \<in> set msgs. governed s p" "e \<in> set (List.map_filter (\<lambda>(s, p). admit s p) msgs)"
  shows "\<exists>s p gs. (s, p) \<in> set msgs \<and> admit s p = Some e \<and> policy s (fe_groups p) = Some gs \<and>
    ev_inbound_local_groups e = Some (order gs) \<and> ev_local_acl_groups e = Some (order gs)"
proof -
  obtain s p where sp: "(s, p) \<in> set msgs" "admit s p = Some e"
    using assms(2) by (auto simp: map_filter_def)
  with assms(1) have "governed s p" by auto
  from admit_groups [OF this sp(2)] sp show ?thesis by blast
qed

text \<open>An event that already passed through a server is blocked on every link that server runs.\<close>

lemma admitted_not_sent_back:
  assumes "governed s p" "admit s p = Some e" "node \<in> set (fe_provenance p)"
  shows "loop_drop node (ev_fed_meta e)"
  using admit_provenance [OF assms(1,2)] assms(3) by (auto simp: loop_drop_def)

end

lemma with_groups_sel [simp]:
  "ev_inbound_local_groups (with_groups E gs e) = Some (env_it E gs)"
  "ev_local_acl_groups (with_groups E gs e) = Some (env_it E gs)" "ev_etype (with_groups E gs e) = ev_etype e"
  by (simp_all add: with_groups_def)

lemma admit_event_Some:
  "admit_event E sv peer p evt m = Some e \<Longrightarrow> sv_registry sv \<noteq> None \<Longrightarrow>
   \<exists>gs. inbound_policy sv peer (fe_groups p) = Some gs \<and> e = (with_groups E gs evt)\<lparr> ev_fed_meta := Some m \<rparr>"
  by (auto simp: admit_event_def split: option.splits)

lemma decoded_provenance: "decode_federated_event E p h = Inr (Some evt, m) \<Longrightarrow> fm_seen m = fe_provenance p"
  by (auto simp: decode_federated_event_def Let_def rbind_Inr_iff split: option.split_asm if_split_asm sum.split_asm)
    (simp_all add: meta_of_def)

lemma stream_event_Some:
  "stream_event E sv peer p = Some e \<Longrightarrow>
   \<exists>evt m. decode_federated_event E p (sv_max_hops sv) = Inr (Some evt, m) \<and> admit_event E sv peer p evt m = Some e"
  by (auto simp: stream_event_def split: sum.splits option.splits if_splits)

lemma SendOneEvent_Some:
  "SendOneEvent E D ctx sv p = Some (l, e) \<Longrightarrow>
   \<exists>evt m. decode_federated_event E p (sv_max_hops sv) = Inr (Some evt, m) \<and>
     admit_event E sv (resolve_authenticated_peer D sv ctx None) p evt m = Some e"
  by (auto simp: SendOneEvent_def Let_def split: sum.splits option.splits)

interpretation streamed: inbound_gate "\<lambda>(sv, peer). stream_event E sv peer" "\<lambda>(sv, peer). inbound_policy sv peer"
  "\<lambda>(sv, peer) p. sv_registry sv \<noteq> None" "env_it E"
  for E
  by unfold_locales (auto dest!: stream_event_Some admit_event_Some dest: decoded_provenance)

interpretation single: inbound_gate "\<lambda>(D, ctx, sv) p. map_option snd (SendOneEvent E D ctx sv p)"
  "\<lambda>(D, ctx, sv). inbound_policy sv (resolve_authenticated_peer D sv ctx None)"
  "\<lambda>(D, ctx, sv) p. sv_registry sv \<noteq> None" "env_it E"
  for E
  by unfold_locales (auto dest!: SendOneEvent_Some admit_event_Some dest: decoded_provenance)

text \<open>The path of the client, for messages without a contact: those skip its policy.\<close>

lemma handle_inbound_Some:
  "handle_inbound E reg now p c = Inr (Some e) \<Longrightarrow> decode_contact_entry p = None \<Longrightarrow> reg = Some r \<Longrightarrow>
   cl_remote_id c = Some pid \<Longrightarrow> pid \<noteq> [] \<Longrightarrow>
   \<exists>evt m gs. decode_federated_event E p (cl_local_max_hops c) = Inr (Some evt, m) \<and>
     map_inbound_groups r pid (fe_groups p) = Some gs \<and> e = (with_groups E gs evt)\<lparr> ev_fed_meta := Some m \<rparr>"
  by (auto simp: handle_inbound_def contact_event_def or_empty_def split: sum.splits option.splits if_splits prod.splits)

definition client_policy :: "registry \<Rightarrow> fed_client \<Rightarrow> string list \<Rightarrow> string set option" where
  "client_policy r c = map_inbound_groups r (or_empty (cl_remote_id c))"

definition client_admits :: "py_env \<Rightarrow> registry \<Rightarrow> datetime \<Rightarrow> fed_client \<Rightarrow> fed_event \<Rightarrow> event option" where
  "client_admits E r now c p = (case handle_inbound E (Some r) now p c of Inl _ \<Rightarrow> None | Inr e \<Rightarrow> e)"

definition client_governs :: "fed_client \<Rightarrow> fed_event \<Rightarrow> bool" where
  "client_governs c p = (or_empty (cl_remote_id c) \<noteq> [] \<and> decode_contact_entry p = None)"

interpretation dialed_in: inbound_gate "\<lambda>(r, now, c). client_admits E r now c" "\<lambda>(r, now, c). client_policy r c"
  "\<lambda>(r, now, c). client_governs c" "env_it E"
  for E
proof unfold_locales
  fix s :: "registry \<times> datetime \<times> fed_client" and p e
  obtain r now c where s: "s = (r, now, c)" by (cases s)
  assume "(case s of (r, now, c) \<Rightarrow> client_governs c) p" "(case s of (r, now, c) \<Rightarrow> client_admits E r now c) p = Some e"
  then show "\<exists>gs. (case s of (r, now, c) \<Rightarrow> client_policy r c) (fe_groups p) = Some gs \<and>
      ev_inbound_local_groups e = Some (env_it E gs) \<and> ev_local_acl_groups e = Some (env_it E gs)"
    "\<exists>m. ev_fed_meta e = Some m \<and> fm_seen m = fe_provenance p"
    by (cases "cl_remote_id c"; auto simp: s client_governs_def client_admits_def client_policy_def or_empty_def
        dest!: handle_inbound_Some dest: decoded_provenance split: sum.splits)+
qed

section \<open>Samples\<close>

text \<open>A message with an event of type \<open>t\<close>, tagged with group \<open>g\<close>, and a caller whose certificate is configured for a peer.\<close>

definition sample_message :: "string \<Rightarrow> string \<Rightarrow> fed_event" where
  "sample_message t g = empty_fed_event\<lparr> fe_event := Some
     \<lparr> ge_uid = ''u1'', ge_type = t, ge_coordSource = ''m-g'', ge_sendTime = 0, ge_startTime = 0, ge_staleTime = 0,
       ge_lat = Fin 0, ge_lon = Fin 0, ge_hae = Fin 0, ge_ce = Fin 1, ge_le = Fin 1, ge_other = [], ge_battery = 0,
       ge_screenName = [], ge_groupName = [], ge_groupRole = [], ge_phone = [], ge_speed = Fin 0, ge_course = Fin 0 \<rparr>,
     fe_groups := [g] \<rparr>"

definition sample_digest :: "string \<Rightarrow> py_error + nat list" where
  "sample_digest pem = Inr (replicate 32 0)"

definition caller_fp :: string where
  "caller_fp = leaf_fingerprint_sha256_colon_hex (replicate 32 0)"

definition sample_caller :: grpc_ctx where
  "sample_caller = \<lparr> ctx_peer = Some ''ipv4:1'', ctx_pem = Inr (Some [AuthBytes ''pem'']) \<rparr>"

definition caller_registry :: registry where
  "caller_registry = empty_registry\<lparr> r_inbound := [(''p'', [(''A'', Some ''X'')])],
     r_fingerprint_to_peer := [(caller_fp, ''p'')] \<rparr>"

definition sample_servicer :: servicer where
  "sample_servicer = \<lparr> sv_server_id = ''n'', sv_server_name = [], sv_max_hops = 3, sv_registry = Some caller_registry,
     sv_allow_delete = False, sv_rol_sink = ''log'', sv_addr = [] \<rparr>"

lemma caller_fingerprint: "peer_fingerprint_from_grpc_context sample_digest (ctx_pem sample_caller) = Some caller_fp"
  by (simp add: peer_fingerprint_from_grpc_context_def fingerprint_from_pem_def sample_digest_def sample_caller_def
      caller_fp_def)

lemma caller_resolves: "resolve_peer_id_by_fingerprint caller_registry caller_fp = Some ''p''"
  by (simp add: resolve_peer_id_by_fingerprint_def caller_registry_def)

lemma sample_sel [simp]:
  "sv_registry sample_servicer = Some caller_registry" "fe_groups (sample_message t g) = [g]"
  "sv_max_hops sample_servicer = 3"
  by (simp_all add: sample_servicer_def sample_message_def)

lemma sample_decodes:
  assumes "t \<noteq> []"
  shows "\<exists>evt m. decode_federated_event epoch_env (sample_message t g) 3 = Inr (Some evt, m) \<and> ev_etype evt = Some t"
proof -
  have "ms_to_dt 0 = Inr 0" using ms_to_dt_exact [of 0] by simp
  with assms show ?thesis
    by (simp add: decode_federated_event_def sample_message_def empty_fed_event_def new_event_def)
qed

lemma sample_authenticated: "resolve_authenticated_peer sample_digest sample_servicer sample_caller x = (''p'', False)"
  by (simp add: resolve_authenticated_peer_def caller_fingerprint sample_servicer_def caller_resolves)

lemma sample_streamed:
  "\<exists>evt. stream_event epoch_env sample_servicer (''p'', False) (sample_message ''a-f-G'' ''A'') = Some evt"
proof -
  obtain evt m where d: "decode_federated_event epoch_env (sample_message ''a-f-G'' ''A'') 3 = Inr (Some evt, m)"
    "ev_etype evt = Some ''a-f-G''" using sample_decodes [of "''a-f-G''" "''A''"] by auto
  have "map_inbound_groups caller_registry ''p'' [''A''] = Some {''X''}"
    by (simp add: map_inbound_groups_def map_inbound_def caller_registry_def lookup_in_table_def)
  with d show ?thesis
    by (simp add: stream_event_def sample_servicer_def admit_event_def inbound_policy_def is_delete_def or_empty_def
        COT_DELETE_PREFIX_def sample_message_def)
qed

section \<open>The stream of events from a peer\<close>

text \<open>The messages of a call, with the state of the servicer and the identity each was handled under.\<close>

definition identified :: "(string \<Rightarrow> py_error + nat list) \<Rightarrow> grpc_ctx \<Rightarrow> servicer \<times> fed_event \<Rightarrow> (servicer \<times> string \<times> bool) \<times> fed_event" where
  "identified D ctx = (\<lambda>(sv, p). ((sv, resolve_authenticated_peer D sv ctx None), p))"

lemma event_call_enqueued:
  "ec_enqueued (fold (event_call_message E D ctx) msgs c) =
     ec_enqueued c @ List.map_filter (\<lambda>((sv, peer), p). stream_event E sv peer p) (map (identified D ctx) msgs)"
  by (induction msgs arbitrary: c)
    (auto simp: event_call_message_def identified_def Let_def map_filter_simps split: option.split prod.split)

lemma event_call_peer: "(ec_peer (fold (event_call_message E D ctx) msgs c) = None) = (msgs = [] \<and> ec_peer c = None)"
  by (induction msgs arbitrary: c) (auto simp: event_call_message_def Let_def split: option.split prod.split)

lemma stream_enqueued:
  "fst (ServerEventStream E D v ctx sv msgs ended) =
     List.map_filter (\<lambda>((sv, peer), p). stream_event E sv peer p) (map (identified D ctx) msgs)"
  by (simp add: ServerEventStream_def Let_def event_call_enqueued event_call_open_def)

lemma authenticated_by_certificate:
  assumes "peer_fingerprint_from_grpc_context D (ctx_pem ctx) = Some fp" "sv_registry sv = Some r"
  shows "inbound_policy sv (resolve_authenticated_peer D sv ctx sub) gs =
    (case resolve_peer_id_by_fingerprint r fp of None \<Rightarrow> None | Some pid \<Rightarrow> map_inbound_groups r pid gs)"
  using assms by (simp add: resolve_authenticated_peer_def inbound_policy_def split: option.split)

text \<open>
  C3. The policy of an inbound event is the policy of the certificate: on a transport
  with a certificate, every event of the stream comes from a message that arrived while the
  fingerprint of that certificate was configured for a peer, and is restricted, for
  delivery and for relaying, to exactly the groups that the policy of this peer makes of
  those of the message. Address, announced server id and bindings of the address play no part.
\<close>

theorem inbound_groups_follow_the_certificate:
  assumes "peer_fingerprint_from_grpc_context D (ctx_pem ctx) = Some fp"
    and "\<forall>(sv, p) \<in> set msgs. sv_registry sv \<noteq> None"
    and "evt \<in> set (fst (ServerEventStream E D v ctx sv0 msgs ended))"
  shows "\<exists>sv p r pid gs. (sv, p) \<in> set msgs \<and> sv_registry sv = Some r \<and>
    resolve_peer_id_by_fingerprint r fp = Some pid \<and> map_inbound_groups r pid (fe_groups p) = Some gs \<and>
    ev_inbound_local_groups evt = Some (env_it E gs) \<and> ev_local_acl_groups evt = Some (env_it E gs)"
proof -
  let ?m = "map (identified D ctx) msgs"
  have "\<forall>(s, p) \<in> set ?m. case s of (sv, peer) \<Rightarrow> sv_registry sv \<noteq> None"
    using assms(2) by (auto simp: identified_def)
  moreover have "evt \<in> set (List.map_filter (\<lambda>(s, p). (case s of (sv, peer) \<Rightarrow> stream_event E sv peer) p) ?m)"
    using assms(3) by (simp add: stream_enqueued split_def)
  ultimately obtain sv p gs where g: "(sv, p) \<in> set msgs"
    "inbound_policy sv (resolve_authenticated_peer D sv ctx None) (fe_groups p) = Some gs"
    "ev_inbound_local_groups evt = Some (env_it E gs)" "ev_local_acl_groups evt = Some (env_it E gs)"
    using streamed.admitted_from [of ?m evt E] by (fastforce simp: identified_def)
  then obtain r where r: "sv_registry sv = Some r" using assms(2) by auto
  with g authenticated_by_certificate [OF assms(1) r] show ?thesis
    by (metis (no_types, lifting) option.case_eq_if option.collapse option.distinct(1))
qed

theorem inbound_groups_follow_the_certificate_witness:
  "\<exists>evt. fst (ServerEventStream epoch_env sample_digest ''0.1'' sample_caller sample_servicer
     [(sample_servicer, sample_message ''a-f-G'' ''A'')] None) = [evt] \<and> ev_inbound_local_groups evt = Some [''X'']"
proof -
  let ?S = "fst (ServerEventStream epoch_env sample_digest ''0.1'' sample_caller sample_servicer
     [(sample_servicer, sample_message ''a-f-G'' ''A'')] None)"
  obtain evt where e: "?S = [evt]"
    using sample_streamed by (auto simp: stream_enqueued identified_def sample_authenticated map_filter_simps)
  then have i: "evt \<in> set ?S" by simp
  have "\<forall>(sv, p) \<in> set [(sample_servicer, sample_message ''a-f-G'' ''A'')]. sv_registry sv \<noteq> None" by simp
  from inbound_groups_follow_the_certificate [OF caller_fingerprint this i]
  obtain gs where "map_inbound_groups caller_registry ''p'' [''A''] = Some gs"
    "ev_inbound_local_groups evt = Some (env_it epoch_env gs)"
    by (auto simp: caller_resolves)
  moreover from this have "gs = {''X''}"
    by (auto simp: map_inbound_groups_def map_inbound_def caller_registry_def lookup_in_table_def)
  ultimately have "ev_inbound_local_groups evt = Some [''X'']" by (simp add: epoch_env_def py_sorted_def)
  with e show ?thesis by blast
qed

text \<open>
  The stream acknowledges only calls that brought a message: the version of this server
  is returned exactly when at least one message arrived and the iterator did not raise; a
  call that ends without any message raises \<open>UnboundLocalError\<close> instead, whatever ended it.
\<close>

theorem stream_acknowledgement:
  "(\<exists>s. snd (ServerEventStream E D v ctx sv msgs ended) = Inr s) =
     (msgs \<noteq> [] \<and> ended = None \<and> (\<exists>s. our_subscription v sv = Inr s)) \<and>
   snd (ServerEventStream E D v ctx sv [] ended) = Inl UnboundLocalError"
  using event_call_peer [of E D ctx msgs "event_call_open sv ctx"]
  by (auto simp: ServerEventStream_def event_call_end_def event_call_open_def Let_def split: option.splits)

text \<open>
  C37. A single event is treated as one message of a stream, except that the guard of the
  stream for DELETE events is missing.
\<close>

theorem single_event_equals_stream:
  "fst (ServerEventStream E D v ctx sv0 [(sv, p)] ended) =
     (case SendOneEvent E D ctx sv p of
        None \<Rightarrow> []
      | Some (_, evt) \<Rightarrow> if \<not> sv_allow_delete sv \<and> is_delete evt then [] else [evt])"
proof -
  have d: "is_delete e = is_delete evt" if "admit_event E sv peer p evt m = Some e" for peer evt m e
    using that by (auto simp: admit_event_def is_delete_def split: option.splits if_splits)
  show ?thesis
    by (auto simp: stream_enqueued identified_def map_filter_simps stream_event_def SendOneEvent_def Let_def d
        split: sum.split option.split prod.split)
qed

text \<open>
  C21. Both inbound paths agree: a client bound to a peer and a servicer that resolved the
  caller to the same peer, with the same settings, put the same event on the bridge for a
  message that decodes to an event; they differ for messages without an event, where only
  the client makes an event of a contact.
\<close>

theorem inbound_paths_agree:
  assumes "cl_local_max_hops c = sv_max_hops sv" "cl_allow_delete c = sv_allow_delete sv"
    and "cl_remote_id c = Some pid" "pid \<noteq> []"
  shows "handle_inbound E (sv_registry sv) now p c =
    (case decode_federated_event E p (sv_max_hops sv) of
       Inr (None, _) \<Rightarrow> contact_event now p
     | _ \<Rightarrow> Inr (stream_event E sv (pid, False) p))"
  using assms
  by (auto simp: handle_inbound_def stream_event_def admit_event_def inbound_policy_def or_empty_def
      split: sum.split option.split prod.split)

theorem inbound_paths_agree_witness:
  "\<exists>evt. handle_inbound epoch_env (Some caller_registry) 0 (sample_message ''a-f-G'' ''A'')
     ((new_fed_client ''c'' sample_peer ''n'' False 3)\<lparr> cl_remote_id := Some ''p'' \<rparr>) = Inr (Some evt)"
proof -
  let ?c = "(new_fed_client ''c'' sample_peer ''n'' False 3)\<lparr> cl_remote_id := Some ''p'' \<rparr>"
  have "cl_local_max_hops ?c = sv_max_hops sample_servicer" "cl_allow_delete ?c = sv_allow_delete sample_servicer"
    "cl_remote_id ?c = Some ''p''" "''p'' \<noteq> []"
    by (simp_all add: new_fed_client_def sample_servicer_def)
  note agree = inbound_paths_agree [OF this, of epoch_env 0 "sample_message ''a-f-G'' ''A''"]
  from agree sample_streamed sample_decodes [of "''a-f-G''" "''A''"] show ?thesis by auto
qed

section \<open>Unknown certificates\<close>

text \<open>
  C4. A certificate that is configured for no peer gets nothing, whatever the call claims:
  no event of its streams or single calls is put on the bridge, its groups are not stored,
  no link of it is registered, so that nothing is ever fanned out to it.
\<close>

theorem unknown_certificate_gets_nothing:
  assumes "peer_fingerprint_from_grpc_context D (ctx_pem ctx) = Some fp"
    and "sv_registry sv = Some r" "resolve_peer_id_by_fingerprint r fp = None"
  shows "fst (ServerEventStream E D v ctx sv0 (map (Pair sv) ps) ended) = [] \<and>
    SendOneEvent E D ctx sv p = None \<and>
    fst (ClientFederateGroupsStream D v ctx gs ended sv) = sv \<and>
    mg_inbound (snd (snd (client_call_open D ctx sub (sv, m)))) = mg_inbound m \<and>
    mg_inbound (client_call_close (fst (client_call_open D ctx sub (sv, m))) m') = mg_inbound m'"
proof -
  have q: "resolve_authenticated_peer D sv ctx x = (''unconfigured-cert:'' @ fp, True)" for x
    using assms by (simp add: resolve_authenticated_peer_def)
  have n: "admit_event E sv (''unconfigured-cert:'' @ fp, True) p evt m = None" for p evt m
    using assms(2) by (simp add: admit_event_def inbound_policy_def)
  then have "stream_event E sv (''unconfigured-cert:'' @ fp, True) p = None" for p
    by (auto simp: stream_event_def split: sum.split option.split prod.split)
  then have 1: "fst (ServerEventStream E D v ctx sv0 (map (Pair sv) ps) ended) = []"
    unfolding stream_enqueued by (induction ps) (simp_all add: identified_def q map_filter_simps)
  have 2: "SendOneEvent E D ctx sv p = None"
    using n by (auto simp: SendOneEvent_def q Let_def split: sum.split option.split prod.split)
  have 3: "fst (ClientFederateGroupsStream D v ctx gs ended sv) = sv"
  proof -
    have "fold (\<lambda>remote_groups sv. case sv_registry sv of None \<Rightarrow> sv
      | Some r \<Rightarrow> if True then sv else sv\<lparr> sv_registry := Some (update_from_federate_groups x remote_groups r) \<rparr>) gs sv = sv" for x
      by (induction gs) (simp_all split: option.split)
    then show ?thesis by (simp add: ClientFederateGroupsStream_def q Let_def)
  qed
  show ?thesis
    using 1 2 3 by (simp add: client_call_open_def client_call_close_def q Let_def create_link_def)
qed

theorem unknown_certificate_gets_nothing_witness:
  "SendOneEvent epoch_env sample_digest sample_caller (sample_servicer\<lparr> sv_registry := Some empty_registry \<rparr>)
     (sample_message ''a-f-G'' ''A'') = None \<and>
   SendOneEvent epoch_env sample_digest sample_caller sample_servicer (sample_message ''a-f-G'' ''A'') \<noteq> None"
proof
  show "SendOneEvent epoch_env sample_digest sample_caller (sample_servicer\<lparr> sv_registry := Some empty_registry \<rparr>)
     (sample_message ''a-f-G'' ''A'') = None"
    using unknown_certificate_gets_nothing [OF caller_fingerprint, of "sample_servicer\<lparr> sv_registry := Some empty_registry \<rparr>"]
    by (simp add: resolve_peer_id_by_fingerprint_def empty_registry_def)
  show "SendOneEvent epoch_env sample_digest sample_caller sample_servicer (sample_message ''a-f-G'' ''A'') \<noteq> None"
    using sample_streamed
    by (auto simp: SendOneEvent_def sample_authenticated stream_event_def Let_def
        split: sum.splits option.splits prod.splits if_splits)
qed

text \<open>
  Without a certificate there is no quarantine, even when policies are configured: the
  server id of the subscription is the identity.
\<close>

lemma no_certificate_trusts_the_wire:
  "peer_fingerprint_from_grpc_context D (ctx_pem ctx) = None \<Longrightarrow> sid \<noteq> [] \<Longrightarrow>
   resolve_authenticated_peer D sv ctx (Some (Some sid)) = (sid, False)"
  by (simp add: resolve_authenticated_peer_def legacy_candidate_def)

section \<open>Reading the log of ROL messages\<close>

text \<open>A reader of the format: a length of four bytes, the most significant first, and that many bytes.\<close>

definition bytes4 :: "8 word \<Rightarrow> 8 word \<Rightarrow> 8 word \<Rightarrow> 8 word \<Rightarrow> nat" where
  "bytes4 a b c d = unat a * 2 ^ 24 + unat b * 2 ^ 16 + unat c * 2 ^ 8 + unat d"

function read_frames :: "8 word list \<Rightarrow> 8 word list list option" where
  "read_frames [] = Some []"
| "read_frames [a] = None"
| "read_frames [a, b] = None"
| "read_frames [a, b, c] = None"
| "read_frames (a # b # c # d # bs) =
     (if length bs < bytes4 a b c d then None
      else map_option ((#) (take (bytes4 a b c d) bs)) (read_frames (drop (bytes4 a b c d) bs)))"
  by pat_completeness auto
termination by (relation "measure length") auto

lemma base256: "n div 2 ^ 24 * 2 ^ 24 + n div 2 ^ 16 mod 2 ^ 8 * 2 ^ 16 + n div 2 ^ 8 mod 2 ^ 8 * 2 ^ 8 + n mod 2 ^ 8 = (n :: nat)"
proof -
  define q1 q2 where "q1 = n div 256" and "q2 = q1 div 256"
  have "n div 2 ^ 16 = q2" "n div 2 ^ 24 = q2 div 256" "n div 2 ^ 8 = q1"
    by (simp_all add: q1_def q2_def flip: div_mult2_eq)
  moreover have "q2 div 256 * 16777216 + q2 mod 256 * 65536 + q1 mod 256 * 256 + n mod 256 = n"
    using div_mult_mod_eq [of q2 256] div_mult_mod_eq [of q1 256, folded q2_def] div_mult_mod_eq [of n 256, folded q1_def]
    by linarith
  ultimately show ?thesis by simp
qed

lemma to_bytes4_read:
  assumes "n < 2 ^ 32"
  shows "\<exists>a b c d. to_bytes4 n = Inr [a, b, c, d] \<and> bytes4 a b c d = n"
proof -
  have "n div 2 ^ 24 < 2 ^ 8" using assms by (simp add: less_mult_imp_div_less)
  then have "bytes4 (word_of_nat (n div 2 ^ 24)) (word_of_nat (n div 2 ^ 16)) (word_of_nat (n div 2 ^ 8)) (word_of_nat n) = n"
    using base256 [of n] by (simp add: bytes4_def unat_of_nat)
  then show ?thesis using assms by (simp add: to_bytes4_def)
qed

lemma read_frame:
  assumes "length raw < 2 ^ 32" "to_bytes4 (length raw) = Inr len"
  shows "read_frames (len @ raw @ rest) = map_option ((#) raw) (read_frames rest)"
  using to_bytes4_read [OF assms(1)] assms(2) by auto

fun frames :: "8 word list list \<Rightarrow> 8 word list" where
  "frames [] = []"
| "frames (raw # raws) = (case to_bytes4 (length raw) of Inl _ \<Rightarrow> [] | Inr len \<Rightarrow> len @ raw @ frames raws)"

lemma read_frames_of: "\<forall>raw \<in> set raws. length raw < 2 ^ 32 \<Longrightarrow> read_frames (frames raws) = Some raws"
proof (induction raws)
  case (Cons raw raws)
  then obtain len where "to_bytes4 (length raw) = Inr len" using to_bytes4_read [of "length raw"] by auto
  with Cons show ?case by (simp add: read_frame)
qed simp

lemma log_written:
  assumes "sink \<noteq> []" "\<forall>raw \<in> set raws. length raw < 2 ^ 32"
  shows "log_rols sink (map (\<lambda>raw. (raw, Written)) raws) contents = (contents @ frames raws, None)"
  using assms(2)
proof (induction raws arbitrary: contents)
  case (Cons raw raws)
  then obtain len where "to_bytes4 (length raw) = Inr len" using to_bytes4_read [of "length raw"] by auto
  with Cons assms(1) show ?case by (simp add: log_rol_def Let_def)
qed simp

lemma read_frames_append:
  "read_frames xs = Some as \<Longrightarrow> read_frames ys = Some bs \<Longrightarrow> read_frames (xs @ ys) = Some (as @ bs)"
  by (induction xs arbitrary: as rule: read_frames.induct) (auto split: if_splits)

text \<open>
  What a peer streams as ROL can be read back: when the sink is configured, every write
  succeeds and no message reaches 2^32 bytes, then the file holds, after the frames it
  held, one frame per message, in order, byte for byte, and the call is acknowledged.
\<close>

theorem rol_log_roundtrip:
  assumes "sv_rol_sink sv \<noteq> []" "\<forall>raw \<in> set raws. length raw < 2 ^ 32" "read_frames contents = Some old"
    and "our_subscription v sv = Inr s"
  shows "\<exists>contents'. ServerROLStream v sv (map (\<lambda>raw. (raw, Written)) raws) None contents = (contents', Inr s) \<and>
    read_frames contents' = Some (old @ raws)"
  using assms by (simp add: ServerROLStream_def log_written read_frames_append read_frames_of)

theorem rol_log_roundtrip_witness:
  "\<exists>contents'. ServerROLStream ''0.1.2'' sample_servicer [([1, 2], Written), ([], Written)] None [0, 0, 0, 1, 7] =
     (contents', Inr \<lparr> sub_identity = \<lparr> id_server_id = ''n'', id_name = ''n'' \<rparr>,
        sub_version = \<lparr> ov_major = 0, ov_minor = 1, ov_patch = 2, ov_branch = [] \<rparr> \<rparr>) \<and>
   read_frames contents' = Some [[7], [1, 2], []]"
proof -
  have v: "build_ots_version ''0.1.2'' = Inr \<lparr> ov_major = 0, ov_minor = 1, ov_patch = 2, ov_branch = [] \<rparr>"
    by code_simp
  have "sv_rol_sink sample_servicer \<noteq> []" by (simp add: sample_servicer_def)
  moreover have "\<forall>raw \<in> set [[1, 2], [] :: 8 word list]. length raw < 2 ^ 32" by simp
  moreover have "read_frames [0, 0, 0, 1, 7] = Some [[7]]" by (simp add: bytes4_def)
  moreover have "our_subscription ''0.1.2'' sample_servicer = Inr \<lparr> sub_identity = \<lparr> id_server_id = ''n'', id_name = ''n'' \<rparr>,
      sub_version = \<lparr> ov_major = 0, ov_minor = 1, ov_patch = 2, ov_branch = [] \<rparr> \<rparr>"
    by (simp add: our_subscription_def v our_identity_def sample_servicer_def)
  ultimately show ?thesis
    using rol_log_roundtrip [of sample_servicer "[[1, 2], []]" "[0, 0, 0, 1, 7]" "[[7]]" "''0.1.2''"] by simp
qed

text \<open>Not every log can be read back: a write that fails half way leaves a frame without its end.\<close>

lemma partial_write_breaks_the_log:
  "read_frames (fst (log_rols ''log'' [([1, 2], Write_Fails 3), ([3], Written)] [])) \<noteq> Some [[3]]"
  by (simp add: log_rol_def to_bytes4_def bytes4_def)

end
