(* ===== verification/Fed_Service.thy ===== *)
theory Fed_Service
  imports Fed_Server
begin

text \<open>
  The servicer and the manager at work: calls of peers open, are served and close in any
  order, events are fanned out, clients come and go. \<open>service_reach\<close> is every state that can
  arise; the properties say who is served.
\<close>

record service =
  se_servicer :: servicer
  se_manager :: manager
  se_calls :: "client_call list" \<comment> \<open>the calls of \<open>ClientEventStream\<close> that are open\<close>

definition new_service :: "fed_config \<Rightarrow> registry option \<Rightarrow> service" where
  "new_service cfg reg = \<lparr> se_servicer = new_servicer cfg reg, se_manager = new_manager cfg, se_calls = [] \<rparr>"

definition service_open ::
    "(string \<Rightarrow> py_error + nat list) \<Rightarrow> grpc_ctx \<Rightarrow> string option option \<Rightarrow> service \<Rightarrow> service" where
  "service_open D ctx sub S =
     (case client_call_open D ctx sub (se_servicer S, se_manager S) of
        (c, sv, m) \<Rightarrow> \<lparr> se_servicer = sv, se_manager = m, se_calls = c # se_calls S \<rparr>)"

definition service_close :: "client_call \<Rightarrow> service \<Rightarrow> service" where
  "service_close c S =
     S\<lparr> se_manager := client_call_close c (se_manager S), se_calls := remove1 c (se_calls S) \<rparr>"

definition with_manager :: "(manager \<Rightarrow> manager) \<Rightarrow> service \<Rightarrow> service" where
  "with_manager f S = S\<lparr> se_manager := f (se_manager S) \<rparr>"

definition change_clients :: "(string \<Rightarrow> fed_client \<Rightarrow> fed_client) \<Rightarrow> manager \<Rightarrow> manager" where
  "change_clients f m = m\<lparr> mg_clients := map (\<lambda>(n, c). (n, f n c)) (mg_clients m) \<rparr>"

inductive service_step ::
    "py_env \<Rightarrow> (string \<Rightarrow> py_error + nat list) \<Rightarrow> service \<Rightarrow> service \<Rightarrow> bool" for E D where
  st_open: "service_step E D S (service_open D ctx sub S)"
| st_turns: "c \<in> set (se_calls S) \<Longrightarrow> service_step E D S (with_manager (\<lambda>m. snd (client_call_turns n c m)) S)"
| st_done: "c \<in> set (se_calls S) \<Longrightarrow> service_step E D S (with_manager (client_call_done c) S)"
| st_close: "c \<in> set (se_calls S) \<Longrightarrow> service_step E D S (service_close c S)"
| st_fan: "service_step E D S (with_manager (on_outbound E (sv_registry (se_servicer S)) src evt) S)"
| st_groups_in: "service_step E D S
     (S\<lparr> se_servicer := fst (ClientFederateGroupsStream D v ctx msgs ended (se_servicer S)) \<rparr>)"
| st_groups_out: "service_step E D S
     (S\<lparr> se_servicer := snd (ServerFederateGroupsStream D ctx sub (se_servicer S)) \<rparr>)"
| st_clients: "service_step E D S (with_manager (change_clients f) S)"

inductive service_reach ::
    "py_env \<Rightarrow> (string \<Rightarrow> py_error + nat list) \<Rightarrow> service \<Rightarrow> service \<Rightarrow> bool" for E D where
  sr_refl: "service_reach E D S S"
| sr_step: "service_reach E D S T \<Longrightarrow> service_step E D T U \<Longrightarrow> service_reach E D S U"

inductive_cases service_stepE: "service_step E D S T"

text \<open>The link of an open call: made for its peer, silent when the call is in quarantine.\<close>

definition call_ok :: "manager \<Rightarrow> client_call \<Rightarrow> bool" where
  "call_ok m c =
     (\<exists>l. dget (mg_links m) (cc_link c) = Some l \<and> il_peer l = cc_peer c \<and> (cc_quarantined c \<longrightarrow> il_outq l = []))"

definition service_ok :: "service \<Rightarrow> bool" where
  "service_ok S =
     (manager_ok (se_manager S) \<and> distinct (map cc_link (se_calls S)) \<and>
      (\<forall>c \<in> set (se_calls S). call_ok (se_manager S) c) \<and>
      (\<forall>pid i. i \<in> set (links_of (se_manager S) pid) \<longleftrightarrow>
         (\<exists>c \<in> set (se_calls S). \<not> cc_quarantined c \<and> cc_peer c = pid \<and> cc_link c = i)))"

lemma links_of_registered: "manager_ok m \<Longrightarrow> i \<in> set (links_of m pid) \<Longrightarrow> i \<in> set (registered m)"
  using snapshot_iff [of m pid i] by (force simp: manager_ok_def simp flip: snapshot_links)

text \<open>Replacing the manager by one with the same tables whose links of calls are still right.\<close>

lemma service_ok_manager:
  assumes "service_ok S" "manager_ok (f (se_manager S))" "\<And>pid. links_of (f (se_manager S)) pid = links_of (se_manager S) pid"
    and "\<And>c. c \<in> set (se_calls S) \<Longrightarrow> call_ok (f (se_manager S)) c"
  shows "service_ok (with_manager f S)"
  using assms by (simp add: service_ok_def with_manager_def)

lemma service_ok_servicer: "service_ok (S\<lparr> se_servicer := sv \<rparr>) = service_ok S"
  by (simp add: service_ok_def)

lemma service_ok_call: "service_ok S \<Longrightarrow> c \<in> set (se_calls S) \<Longrightarrow> call_ok (se_manager S) c"
  by (simp add: service_ok_def)

lemma change_link_call:
  assumes "call_ok m c" "\<And>l. dget (mg_links m) (cc_link c) = Some l \<Longrightarrow> il_peer (f l) = il_peer l \<and>
     (il_outq l = [] \<longrightarrow> il_outq (f l) = [])"
  shows "call_ok (change_link i f m) c"
  using assms by (auto simp: call_ok_def)

lemma drain_peer: "drain_outbound n l = (ps, l') \<Longrightarrow> il_peer l' = il_peer l \<and> (il_outq l = [] \<longrightarrow> il_outq l' = [])"
  by (induction n arbitrary: l ps l') (auto split: if_splits list.splits prod.splits)

lemma turns_ok: "manager_ok m \<Longrightarrow> manager_ok (snd (client_call_turns n c m))"
  "links_of (snd (client_call_turns n c m)) pid = links_of m pid"
  by (auto simp: client_call_turns_def change_link_ok split: option.split prod.split)

lemma turns_call: "call_ok m c' \<Longrightarrow> call_ok (snd (client_call_turns n c m)) c'"
  by (auto simp: client_call_turns_def split: option.split prod.split dest: drain_peer)
    (auto simp: call_ok_def dest: drain_peer)

lemma change_clients_sel [simp]:
  "links_of (change_clients f m) pid = links_of m pid" "mg_links (change_clients f m) = mg_links m"
  "call_ok (change_clients f m) c = call_ok m c"
  by (simp_all add: change_clients_def links_of_def call_ok_def)

lemma change_clients_ok: "manager_ok m \<Longrightarrow> manager_ok (change_clients f m)"
proof -
  have "fst \<circ> (\<lambda>(n, c). (n, f n c)) = fst" by auto
  then show "manager_ok m \<Longrightarrow> manager_ok (change_clients f m)"
    by (simp add: manager_ok_def change_clients_def dict_ok_def)
qed

lemma fan_call:
  assumes "manager_ok m" "call_ok m c" "cc_quarantined c \<longrightarrow> cc_link c \<notin> set (registered m)"
  shows "call_ok (on_outbound E reg src evt m) c"
proof -
  obtain l where l: "dget (mg_links m) (cc_link c) = Some l" "il_peer l = cc_peer c" "cc_quarantined c \<longrightarrow> il_outq l = []"
    using assms(2) by (auto simp: call_ok_def)
  have "il_peer (link_send_event E reg evt l) = il_peer l"
    by (simp add: link_send_event_def split: sum.split option.split)
  moreover have "fanned_to m src (cc_link c) \<Longrightarrow> cc_link c \<in> set (registered m)"
    using links_of_registered [OF assms(1)] by (auto simp: fanned_to_def)
  ultimately show ?thesis using l assms(3) by (auto simp: call_ok_def on_outbound_link [OF assms(1)])
qed

text \<open>Opening and closing.\<close>

lemma quarantined_unregistered:
  assumes "service_ok S" "c \<in> set (se_calls S)" "cc_quarantined c"
  shows "cc_link c \<notin> set (registered (se_manager S))"
proof
  assume "cc_link c \<in> set (registered (se_manager S))"
  then obtain pid where "cc_link c \<in> set (links_of (se_manager S) pid)"
    using assms(1) snapshot_iff [of "se_manager S"] unfolding service_ok_def manager_ok_def
    by (metis (no_types, lifting) imageE list.set_map prod.collapse snapshot_links)
  then obtain c' where "c' \<in> set (se_calls S)" "\<not> cc_quarantined c'" "cc_link c' = cc_link c"
    using assms(1) by (auto simp: service_ok_def)
  with assms show False by (auto simp: service_ok_def distinct_map dest: inj_onD)
qed

lemma service_open_ok:
  assumes "service_ok S"
  shows "service_ok (service_open D ctx sub S)"
proof -
  let ?m = "se_manager S"
  obtain pid q where r: "resolve_authenticated_peer D (se_servicer S) ctx sub = (pid, q)" by fastforce
  define sv where "sv = register_peer_addr ctx pid (se_servicer S)"
  define l where "l = new_inbound_link pid (sv_server_id sv) (sv_max_hops sv) (sv_registry sv \<noteq> None)"
  obtain i m1 where cl: "create_link l ?m = (i, m1)" by fastforce
  define m2 where "m2 = (if q then m1 else register_inbound_link pid i m1)"
  define c where "c = \<lparr> cc_peer = pid, cc_quarantined = q, cc_link = i \<rparr>"
  have S': "service_open D ctx sub S = \<lparr> se_servicer = sv, se_manager = m2, se_calls = c # se_calls S \<rparr>"
    using cl by (simp add: service_open_def client_call_open_def r Let_def m2_def c_def l_def sv_def)
  have ok: "manager_ok ?m" using assms by (simp add: service_ok_def)
  note k = create_link_ok [OF ok cl]
  have lk: "links_of m1 = links_of ?m" using k(4) by (simp add: links_of_def fun_eq_iff)
  have other: "dget (mg_links m1) j = dget (mg_links ?m) j" if "j \<noteq> i" for j
    using cl that by (auto simp: create_link_def)
  have new: "\<not> dhas (mg_links ?m) i" using cl ok by (auto simp: create_link_def manager_ok_def)
  have m2: "manager_ok m2" "mg_links m2 = mg_links m1"
    using k register_ok [OF k(1), of i pid] by (auto simp: m2_def register_inbound_link_def dhas_Some)
  have fresh: "cc_link c' \<noteq> i" if "c' \<in> set (se_calls S)" for c'
    using assms that new by (auto simp: service_ok_def call_ok_def dhas_Some)
  have "call_ok m2 c'" if "c' \<in> set (se_calls S)" for c'
    using assms that other [OF fresh [OF that]] m2(2) by (auto simp: service_ok_def call_ok_def)
  moreover have "call_ok m2 c"
    using k(2) m2(2) by (simp add: call_ok_def c_def l_def new_inbound_link_def)
  moreover have "j \<in> set (links_of m2 pid') \<longleftrightarrow> (\<exists>c' \<in> set (c # se_calls S). \<not> cc_quarantined c' \<and> cc_peer c' = pid' \<and> cc_link c' = j)" for j pid'
    using assms by (auto simp: service_ok_def m2_def c_def lk)
  moreover have "distinct (map cc_link (c # se_calls S))"
    using assms fresh by (auto simp: service_ok_def c_def)
  ultimately show ?thesis using m2(1) by (simp add: service_ok_def S')
qed

lemma service_close_ok:
  assumes "service_ok S" "c \<in> set (se_calls S)"
  shows "service_ok (service_close c S)"
proof -
  let ?m = "se_manager S" and ?m' = "client_call_close c (se_manager S)"
  have ok: "manager_ok ?m" "distinct (se_calls S)" using assms(1) by (auto simp: service_ok_def distinct_map)
  then have "manager_ok ?m'" by (simp add: client_call_close_def deregister_ok)
  moreover have "call_ok ?m' c'" if "c' \<in> set (se_calls S)" for c'
    using service_ok_call [OF assms(1) that] by (simp add: call_ok_def client_call_close_def)
  moreover have "j \<in> set (links_of ?m' pid) \<longleftrightarrow>
      (\<exists>c' \<in> set (remove1 c (se_calls S)). \<not> cc_quarantined c' \<and> cc_peer c' = pid \<and> cc_link c' = j)" for j pid
  proof -
    have "distinct (links_of ?m pid)"
      using ok(1) by (auto simp: manager_ok_def links_of_def registered_def distinct_concat_iff split: option.split dest!: map_of_SomeD)
    moreover have "c' = c" if "c' \<in> set (se_calls S)" "cc_link c' = cc_link c" for c'
      using assms that by (auto simp: service_ok_def distinct_map dest: inj_onD)
    moreover have "j \<in> set (links_of ?m pid) \<longleftrightarrow>
      (\<exists>c' \<in> set (se_calls S). \<not> cc_quarantined c' \<and> cc_peer c' = pid \<and> cc_link c' = j)"
      using assms(1) by (simp add: service_ok_def)
    ultimately show ?thesis using ok(2) assms(2) by (auto simp: client_call_close_def)
  qed
  moreover have "distinct (map cc_link (remove1 c (se_calls S)))"
    using assms(1) by (auto simp: service_ok_def distinct_map intro: inj_on_diff)
  ultimately show ?thesis by (auto simp: service_ok_def service_close_def dest: notin_set_remove1)
qed

lemma service_step_ok: "service_step E D S T \<Longrightarrow> service_ok S \<Longrightarrow> service_ok T"
proof (induction rule: service_step.induct)
  case (st_fan S src evt)
  then show ?case
    by (intro service_ok_manager fan_call)
      (auto simp: on_outbound_ok on_outbound_registered service_ok_call quarantined_unregistered service_ok_def)
next
  case (st_turns c S n)
  then show ?case by (intro service_ok_manager) (auto simp: turns_ok turns_call service_ok_call service_ok_def)
next
  case (st_done c S)
  then show ?case
    unfolding client_call_done_def
    by (intro service_ok_manager change_link_call)
      (auto simp: change_link_ok service_ok_call link_request_stop_def service_ok_def)
next
  case (st_clients S f)
  then show ?case by (intro service_ok_manager) (auto simp: change_clients_ok service_ok_call service_ok_def)
qed (simp_all add: service_open_ok service_close_ok service_ok_servicer)

lemma service_reach_ok: "service_reach E D S T \<Longrightarrow> service_ok S \<Longrightarrow> service_ok T"
  by (induction rule: service_reach.induct) (auto intro: service_step_ok)

lemma new_service_ok: "service_ok (new_service cfg reg)"
  using new_manager_ok [of cfg] by (simp add: service_ok_def new_service_def new_manager_def links_of_def)

section \<open>Who is served\<close>

text \<open>
  C9. The links that events are fanned out to are the open calls of peers whose identity is
  bound: whatever opens, closes, is sent or announced, in any order, a link is registered
  under a peer exactly when a call of this peer that is not in quarantine is open on it;
  every open call has a link of its own, and that of a call in quarantine holds no message.
\<close>

theorem open_authenticated_calls_are_served:
  assumes "service_reach E D (new_service cfg reg) S"
  shows "(i \<in> set (links_of (se_manager S) pid) \<longleftrightarrow>
      (\<exists>c. c \<in> set (se_calls S) \<and> \<not> cc_quarantined c \<and> cc_peer c = pid \<and> cc_link c = i)) \<and>
    distinct (map cc_link (se_calls S)) \<and>
    list_all (\<lambda>c. \<exists>l. dget (mg_links (se_manager S)) (cc_link c) = Some l \<and>
      (il_outq l = [] \<or> \<not> cc_quarantined c)) (se_calls S)"
proof -
  have "service_ok S" using service_reach_ok [OF assms new_service_ok] .
  then show ?thesis by (auto simp: service_ok_def call_ok_def list_all_iff)
qed

text \<open>The caller of the samples, configured for a peer that is sent group \<open>a\<close> as \<open>b\<close>.\<close>

definition served_registry :: registry where
  "served_registry = sample_registry\<lparr> r_fingerprint_to_peer := [(caller_fp, ''p'')] \<rparr>"

definition idle :: service where
  "idle = new_service (sample_config\<lparr> fc_server_id := ''n'', fc_max_hops := 3 \<rparr>) (Some served_registry)"

definition opened :: service where
  "opened = service_open sample_digest sample_caller None idle"

definition sample_call :: client_call where
  "sample_call = \<lparr> cc_peer = ''p'', cc_quarantined = False, cc_link = 0 \<rparr>"

lemma idle_sel:
  "mg_next (se_manager idle) = 0" "mg_links (se_manager idle) = []" "se_calls idle = []"
  "sv_registry (se_servicer idle) = Some served_registry" "sv_server_id (se_servicer idle) = ''n''"
  "sv_max_hops (se_servicer idle) = 3"
  by (simp_all add: idle_def new_service_def new_manager_def new_servicer_def)

lemma opened_reach: "service_reach E sample_digest idle opened"
  unfolding opened_def by (intro sr_step [OF sr_refl] st_open)

lemma opened_state:
  "se_calls opened = [sample_call]" "dget (mg_links (se_manager opened)) 0 = Some sample_link"
  "sv_registry (se_servicer opened) = Some served_registry"
proof -
  have r: "resolve_authenticated_peer sample_digest (se_servicer idle) sample_caller None = (''p'', False)"
    by (simp add: resolve_authenticated_peer_def caller_fingerprint idle_sel)
      (simp add: served_registry_def resolve_peer_id_by_fingerprint_def)
  have c: "ctx_peer sample_caller = Some ''ipv4:1''" by (simp add: sample_caller_def)
  show "se_calls opened = [sample_call]" "dget (mg_links (se_manager opened)) 0 = Some sample_link"
    "sv_registry (se_servicer opened) = Some served_registry"
    by (simp_all add: opened_def service_open_def client_call_open_def r c create_link_def Let_def sample_link_def
        register_inbound_link_def register_peer_addr_def sample_call_def idle_sel)
qed

theorem open_authenticated_calls_are_served_witness:
  "0 \<in> set (links_of (se_manager opened) ''p'') \<and>
   0 \<notin> set (links_of (se_manager (service_close sample_call opened)) ''p'')"
proof
  show "0 \<in> set (links_of (se_manager opened) ''p'')"
    using open_authenticated_calls_are_served [OF opened_reach [unfolded idle_def]]
    by (simp add: opened_state) (simp add: sample_call_def)
  have "service_reach epoch_env sample_digest idle (service_close sample_call opened)"
    by (intro sr_step [OF opened_reach] st_close) (simp add: opened_state)
  from open_authenticated_calls_are_served [OF this [unfolded idle_def]]
  show "0 \<notin> set (links_of (se_manager (service_close sample_call opened)) ''p'')"
    by (simp add: service_close_def opened_state)
qed

lemma call_link: "service_ok S \<Longrightarrow> c \<in> set (se_calls S) \<Longrightarrow> \<not> cc_quarantined c \<Longrightarrow> cc_link c \<in> set (links_of (se_manager S) (cc_peer c))"
  by (auto simp: service_ok_def)

text \<open>
  C13. A served peer gets what is fanned out: in every reachable state, an event that does
  not come from the peer itself and that the gate of an open call lets through as a
  message is streamed to that peer once its generator has taken the messages that were
  queued before, unless the call was told to end.
\<close>

theorem fanned_event_is_streamed:
  assumes "service_reach E D (new_service cfg reg) S" "c \<in> set (se_calls S)" "\<not> cc_quarantined c"
    and "dget (mg_links (se_manager S)) (cc_link c) = Some l" "\<not> il_stop l"
    and "source_peer_id (se_manager S) src \<noteq> Some (cc_peer c)" "src \<noteq> Link_Source (cc_link c)"
    and "link_gate E (sv_registry (se_servicer S)) l evt = Some p" "length (il_outq l) < n"
  shows "fst (client_call_turns n c (on_outbound E (sv_registry (se_servicer S)) src evt (se_manager S))) = il_outq l @ [p]"
proof -
  let ?reg = "sv_registry (se_servicer S)" and ?l' = "link_send_event E (sv_registry (se_servicer S)) evt l"
  have ok: "service_ok S" using service_reach_ok [OF assms(1) new_service_ok] .
  then have m: "manager_ok (se_manager S)" by (simp add: service_ok_def)
  have "fanned_to (se_manager S) src (cc_link c)"
    using call_link [OF ok assms(2,3)] assms(6,7) by (auto simp: fanned_to_def)
  then have d: "dget (mg_links (on_outbound E ?reg src evt (se_manager S))) (cc_link c) = Some ?l'"
    using assms(4) by (simp add: on_outbound_link [OF m])
  have "\<not> il_stop ?l'" using send_keeps_stop [of E ?reg "[evt]" l] assms(5) by simp
  moreover have q: "il_outq ?l' = il_outq l @ [p]" using assms(8) by (simp add: inbound.send_queue)
  ultimately have "drain_outbound n ?l' = (il_outq ?l', ?l'\<lparr> il_outq := [] \<rparr>)"
    using assms(9) by (intro drain_outbound_all) auto
  then show ?thesis by (simp add: client_call_turns_def d q)
qed

theorem fanned_event_is_streamed_witness:
  "\<exists>p. fst (client_call_turns 1 sample_call (on_outbound epoch_env (Some served_registry) No_Source sample_out (se_manager opened))) = [p]"
proof -
  have "map_outbound served_registry ''p'' = map_outbound sample_registry ''p''"
    by (simp add: fun_eq_iff served_registry_def map_outbound_def split: option.split)
  then have "map_outbound_groups served_registry ''p'' ls = map_outbound_groups sample_registry ''p'' ls" for ls
    by (simp add: map_outbound_groups_map_filter)
  then have "outbound_groups (Some served_registry) ''p'' a = outbound_groups (Some sample_registry) ''p'' a" for a
    by (simp only: outbound_groups_def option.case)
  then have "prepare_outbound_event epoch_env sample_out ''n'' 3 (Some served_registry) ''p'' =
      prepare_outbound_event epoch_env sample_out ''n'' 3 (Some sample_registry) ''p''"
    by (simp only: prepare_outbound_event_def)
  then obtain p where p: "link_gate epoch_env (Some served_registry) sample_link sample_out = Some p"
    using sample_out_prepared by (auto simp: link_gate_def link_registry_def sample_link_def new_inbound_link_def)
  have l: "\<not> il_stop sample_link" "il_outq sample_link = []" by (simp_all add: sample_link_def new_inbound_link_def)
  have c: "cc_link sample_call = 0" "\<not> cc_quarantined sample_call" by (simp_all add: sample_call_def)
  show ?thesis
    using fanned_event_is_streamed [OF opened_reach [unfolded idle_def], of sample_call sample_link No_Source epoch_env sample_out p 1]
    by (simp add: opened_state p l c source_peer_id_def)
qed

end
