(* ===== verification/Plugin.thy ===== *)
theory Plugin
  imports Config
begin

text \<open>
  plugin.py: the plugin of the host that starts the engine as a child process, watches it
  and restarts it, and default_config.py: its keys in the configuration of the host. The
  restart of the watchdog sleeps before it starts the engine, so that it is two steps
  (\<open>watchdog_check\<close>, \<open>watchdog_spawn\<close>) with anything in between. The operating system and
  the scheduler are inputs: what \<open>Popen\<close>, the signals and the waits do.
\<close>

section \<open>The configuration of the host\<close>

datatype conf_val = CBool bool | CInt int | CStr string | COther

type_synonym app_config = "(string, conf_val) dict"

text \<open>The attributes of \<open>DefaultConfig\<close> that are upper case, in the order of \<open>dir\<close>.\<close>

definition default_config :: "(string \<times> conf_val) list" where
  "default_config =
     [(''OTS_FEDERATION_CONFIG'', CStr []), (''OTS_FEDERATION_ENABLED'', CBool True),
      (''OTS_FEDERATION_LOG_LEVEL'', CStr ''INFO'')]"

definition load_default_config :: "app_config \<Rightarrow> app_config" where
  "load_default_config app = fold (\<lambda>(k, v). dsetdefault k v) default_config app"

text \<open>
  \<open>validate\<close>. \<open>dunder\<close> is the other names in the dictionary of the class, which the test for
  a valid key also accepts, as it does the name \<open>validate\<close>; \<open>F\<close> answers for a path: no such
  file, a parse error, or the sections read.
\<close>

datatype ini_file = No_File | Bad_Ini | Ini_Sections "string list"

datatype validation =
    Valid
  | Bad_Key | Not_Bool | Bad_Level | Not_Str | No_Ini_File | Invalid_Ini | No_Federation_Section

definition log_levels :: "string list" where
  "log_levels = [''CRITICAL'', ''ERROR'', ''WARNING'', ''INFO'', ''DEBUG'', ''NOTSET'']"

text \<open>\<open>str(value).upper()\<close> is the name of a level only for a string that is one, in any case.\<close>

definition upper_char :: "char \<Rightarrow> char" where
  "upper_char c = (if 97 \<le> (of_char c :: nat) \<and> (of_char c :: nat) \<le> 122 then char_of (of_char c - 32 :: nat) else c)"

definition is_level :: "conf_val \<Rightarrow> bool" where
  "is_level v = (case v of CStr s \<Rightarrow> map upper_char s \<in> set log_levels | _ \<Rightarrow> False)"

definition validate_config_path :: "(string \<Rightarrow> ini_file) \<Rightarrow> string \<Rightarrow> validation" where
  "validate_config_path F path =
     (if path = [] then Valid
      else (case F path of
              No_File \<Rightarrow> No_Ini_File
            | Bad_Ini \<Rightarrow> Invalid_Ini
            | Ini_Sections ss \<Rightarrow> if ''federation'' \<in> set ss then Valid else No_Federation_Section))"

definition validate_entry :: "string list \<Rightarrow> (string \<Rightarrow> ini_file) \<Rightarrow> string \<Rightarrow> conf_val \<Rightarrow> validation" where
  "validate_entry dunder F key v =
     (if key \<notin> set (map fst default_config @ ''validate'' # dunder) then Bad_Key
      else if key = ''OTS_FEDERATION_ENABLED'' then (case v of CBool _ \<Rightarrow> Valid | _ \<Rightarrow> Not_Bool)
      else if key = ''OTS_FEDERATION_LOG_LEVEL'' then (if is_level v then Valid else Bad_Level)
      else if key = ''OTS_FEDERATION_CONFIG'' then
        (case v of CStr path \<Rightarrow> validate_config_path F path | _ \<Rightarrow> Not_Str)
      else Valid)"

fun validate :: "string list \<Rightarrow> (string \<Rightarrow> ini_file) \<Rightarrow> (string \<times> conf_val) list \<Rightarrow> validation" where
  "validate dunder F [] = Valid"
| "validate dunder F ((key, v) # config) =
     (case validate_entry dunder F key v of Valid \<Rightarrow> validate dunder F config | e \<Rightarrow> e)"

text \<open>\<open>str(v)\<close>; of an object that is neither, the text is given.\<close>

definition conf_str :: "string \<Rightarrow> conf_val \<Rightarrow> string" where
  "conf_str other v =
     (case v of CStr s \<Rightarrow> s | CInt i \<Rightarrow> py_str i | CBool b \<Rightarrow> (if b then ''True'' else ''False'') | COther \<Rightarrow> other)"

definition conf_get :: "string \<Rightarrow> app_config \<Rightarrow> string \<Rightarrow> conf_val \<Rightarrow> string" where
  "conf_get other app key dflt = conf_str other (case dget app key of None \<Rightarrow> dflt | Some v \<Rightarrow> v)"

definition rmq_env :: "string \<Rightarrow> (string, string) dict \<Rightarrow> app_config \<Rightarrow> (string, string) dict" where
  "rmq_env other environ app =
     dset ''OTS_FED_DBURI'' (conf_get other app ''SQLALCHEMY_DATABASE_URI'' (CStr []))
    (dset ''OTS_FED_LOG_LEVEL'' (conf_get other app ''OTS_FEDERATION_LOG_LEVEL'' (CStr ''INFO''))
    (dset ''OTS_RMQPASS'' (conf_get other app ''OTS_RABBITMQ_PASSWORD'' (CStr ''guest''))
    (dset ''OTS_RMQUSER'' (conf_get other app ''OTS_RABBITMQ_USERNAME'' (CStr ''guest''))
    (dset ''OTS_RMQPORT'' (conf_get other app ''OTS_RABBITMQ_PORT'' (CInt 5672))
    (dset ''OTS_RMQHOST'' (conf_get other app ''OTS_RABBITMQ_SERVER_ADDRESS'' (CStr ''127.0.0.1'')) environ)))))"

text \<open>\<open>_get_default_fed_config_path\<close>; \<open>os.path.join\<close> with a relative name.\<close>

definition join_name :: "string \<Rightarrow> string \<Rightarrow> string" where
  "join_name folder name =
     (if folder = [] \<or> last folder = CHR ''/'' then folder @ name else folder @ CHR ''/'' # name)"

definition fed_config_path :: "app_config \<Rightarrow> string" where
  "fed_config_path app =
     (case dget app ''OTS_FEDERATION_CONFIG'' of
        Some (CStr s) \<Rightarrow> if s \<noteq> [] then s
          else join_name (conf_get [] app ''OTS_DATA_FOLDER'' (CStr ''/opt/ots/data'')) ''federation.ini''
      | _ \<Rightarrow> join_name (conf_get [] app ''OTS_DATA_FOLDER'' (CStr ''/opt/ots/data'')) ''federation.ini'')"

section \<open>The configuration file on the status page\<close>

definition SECRET_WORDS :: "string list" where
  "SECRET_WORDS = [''key'', ''pass'', ''password'', ''secret'']"

definition redact :: "string \<times> string \<Rightarrow> string \<times> string" where
  "redact kv = (case kv of (key, val) \<Rightarrow> (key, if list_ex (\<lambda>k. sublist k key) SECRET_WORDS then ''***'' else val))"

definition config_page :: "(string \<times> (string \<times> string) list) list \<Rightarrow> (string \<times> (string \<times> string) list) list" where
  "config_page sections = map (\<lambda>(section, items). (section, map redact items)) sections"

section \<open>The supervisor\<close>

text \<open>The child: its process id and, once it has exited, its return code.\<close>

record child =
  ch_pid :: nat
  ch_rc :: "int option"

datatype watchdog_pc = Wd_Idle | Wd_Sleeping int

record plugin =
  pl_proc :: "child option"
  pl_start_time :: "int option"
  pl_restart_count :: nat
  pl_watchdog :: bool      \<comment> \<open>the job is registered\<close>
  pl_pc :: watchdog_pc

definition MAX_RESTART_COUNT :: nat where "MAX_RESTART_COUNT = 5"

definition new_plugin :: plugin where
  "new_plugin = \<lparr> pl_proc = None, pl_start_time = None, pl_restart_count = 0, pl_watchdog = False, pl_pc = Wd_Idle \<rparr>"

text \<open>\<open>r\<close> is the process id that \<open>Popen\<close> returns, or what it raises.\<close>

definition spawn_engine :: "py_error + nat \<Rightarrow> int \<Rightarrow> plugin \<Rightarrow> py_error option \<times> plugin" where
  "spawn_engine r now p =
     (case r of
        Inl e \<Rightarrow> (Some e, p)
      | Inr pid \<Rightarrow> (None, p\<lparr> pl_proc := Some \<lparr> ch_pid = pid, ch_rc = None \<rparr>, pl_start_time := Some now \<rparr>))"

text \<open>\<open>activate\<close>: \<open>sched\<close> says whether there is a scheduler that takes the job.\<close>

definition activate :: "bool \<Rightarrow> bool \<Rightarrow> bool \<Rightarrow> py_error + nat \<Rightarrow> int \<Rightarrow> plugin \<Rightarrow> plugin" where
  "activate enabled config_exists sched r now p =
     (if \<not> enabled then p
      else if \<not> config_exists then p
      else (let p1 = snd (spawn_engine r now p) in if sched then p1\<lparr> pl_watchdog := True \<rparr> else p1))"

text \<open>The watchdog up to the sleep, and after it.\<close>

definition restart_backoff :: "nat \<Rightarrow> int" where
  "restart_backoff n = min (2 ^ (n - 1)) 60"

definition watchdog_check :: "plugin \<Rightarrow> plugin" where
  "watchdog_check p =
     (case pl_proc p of
        None \<Rightarrow> p
      | Some c \<Rightarrow>
          (case ch_rc c of
             None \<Rightarrow> p
           | Some _ \<Rightarrow>
               (let p1 = p\<lparr> pl_proc := None, pl_start_time := None \<rparr> in
                if pl_restart_count p1 \<ge> MAX_RESTART_COUNT then p1
                else p1\<lparr> pl_restart_count := pl_restart_count p1 + 1,
                         pl_pc := Wd_Sleeping (restart_backoff (pl_restart_count p1 + 1)) \<rparr>)))"

definition watchdog_spawn :: "py_error + nat \<Rightarrow> int \<Rightarrow> plugin \<Rightarrow> plugin" where
  "watchdog_spawn r now p = (snd (spawn_engine r now p))\<lparr> pl_pc := Wd_Idle \<rparr>"

text \<open>
  \<open>stop\<close>: whether the job was removed, and how the signal and the waits went: the child was
  gone already, exited in time, or was killed.
\<close>

datatype stop_outcome = Already_Gone | Exited_In_Time | Killed

definition plugin_stop :: "bool \<Rightarrow> stop_outcome \<Rightarrow> plugin \<Rightarrow> plugin" where
  "plugin_stop removed out p =
     (let p1 = (if removed then p\<lparr> pl_watchdog := False \<rparr> else p) in
      case pl_proc p1 of
        None \<Rightarrow> p1
      | Some _ \<Rightarrow>
          (case out of
             Already_Gone \<Rightarrow> p1\<lparr> pl_proc := None \<rparr>
           | _ \<Rightarrow> p1\<lparr> pl_proc := None, pl_start_time := None \<rparr>))"

datatype status = Stopped | Running | Exited_With int

record plugin_info =
  in_pid :: "nat option"
  in_status :: status
  in_uptime :: "int option"
  in_restarts :: nat

definition get_info :: "int \<Rightarrow> plugin \<Rightarrow> plugin_info" where
  "get_info now p =
     (case pl_proc p of
        None \<Rightarrow> \<lparr> in_pid = None, in_status = Stopped, in_uptime = None, in_restarts = pl_restart_count p \<rparr>
      | Some c \<Rightarrow>
          (case ch_rc c of
             None \<Rightarrow> \<lparr> in_pid = Some (ch_pid c), in_status = Running,
                       in_uptime = map_option (\<lambda>t. now - t) (pl_start_time p), in_restarts = pl_restart_count p \<rparr>
           | Some rc \<Rightarrow> \<lparr> in_pid = None, in_status = Exited_With rc, in_uptime = None,
                          in_restarts = pl_restart_count p \<rparr>))"

definition child_exits :: "int \<Rightarrow> plugin \<Rightarrow> plugin" where
  "child_exits rc p = p\<lparr> pl_proc := map_option (\<lambda>c. if ch_rc c = None then c\<lparr> ch_rc := Some rc \<rparr> else c) (pl_proc p) \<rparr>"

text \<open>
  \<open>plugin_reach p n q\<close>: from \<open>p\<close> to \<open>q\<close> with \<open>n\<close> processes started on the way. The scheduler
  runs the watchdog when the job is registered and no run of it is still asleep; a run that
  sleeps goes on whether or not the job was removed meanwhile.
\<close>

inductive plugin_reach :: "plugin \<Rightarrow> nat \<Rightarrow> plugin \<Rightarrow> bool" for p where
  pr_refl: "plugin_reach p 0 p"
| pr_exit: "plugin_reach p n q \<Longrightarrow> plugin_reach p n (child_exits rc q)"
| pr_check: "plugin_reach p n q \<Longrightarrow> pl_watchdog q \<Longrightarrow> pl_pc q = Wd_Idle \<Longrightarrow> plugin_reach p n (watchdog_check q)"
| pr_spawn: "plugin_reach p n q \<Longrightarrow> pl_pc q = Wd_Sleeping d \<Longrightarrow>
    plugin_reach p (if isl r then n else Suc n) (watchdog_spawn r now q)"
| pr_stop: "plugin_reach p n q \<Longrightarrow> plugin_reach p n (plugin_stop removed out q)"

section \<open>The configuration\<close>

lemma validate_entry_dunder:
  "key \<in> set (''validate'' # dunder) \<Longrightarrow> key \<notin> set (map fst default_config) \<Longrightarrow> validate_entry dunder F key v = Valid"
  by (auto simp: validate_entry_def default_config_def)

lemma validate_iff: "validate dunder F config = Valid \<longleftrightarrow> (\<forall>(k, v) \<in> set config. validate_entry dunder F k v = Valid)"
  by (induction config) (auto split: validation.splits)

text \<open>What the operator set survives the seeding of the defaults, and every default key is there.\<close>

lemma dget_setdefault: "dget (dsetdefault k v d) x = (if x = k \<and> dget d k = None then Some v else dget d x)"
  by (auto simp: dsetdefault_def dhas_Some map_add_def split: option.split)

lemma load_default_config_get:
  "dget (load_default_config app) k =
     (case dget app k of Some v \<Rightarrow> Some v | None \<Rightarrow> map_of default_config k)"
  by (auto simp: load_default_config_def default_config_def dget_setdefault split: option.split)

text \<open>The password of RabbitMQ reaches the engine by its environment, whatever that held before.\<close>

lemma rmq_env_password:
  "dget (rmq_env other environ app) ''OTS_RMQPASS'' = Some (conf_get other app ''OTS_RABBITMQ_PASSWORD'' (CStr ''guest''))"
  by (simp add: rmq_env_def)

text \<open>The status page hides keys and passwords, but not the connection token of a peer.\<close>

lemma config_page_hides: "sublist ''key'' k \<or> sublist ''pass'' k \<or> sublist ''secret'' k \<Longrightarrow> redact (k, v) = (k, ''***'')"
  by (auto simp: redact_def SECRET_WORDS_def)

lemma connection_token_is_shown: "redact (''connection_token'', v) = (''connection_token'', v)"
  by (simp add: redact_def SECRET_WORDS_def sublist_code)

section \<open>Restarts\<close>

lemmas plugin_defs = child_exits_def watchdog_check_def watchdog_spawn_def spawn_engine_def Let_def

definition restarts_ok :: "plugin \<Rightarrow> nat \<Rightarrow> plugin \<Rightarrow> bool" where
  "restarts_ok p n q =
     (pl_restart_count q \<le> MAX_RESTART_COUNT \<and>
      (case pl_pc q of
         Wd_Idle \<Rightarrow> pl_restart_count p + n \<le> pl_restart_count q
       | Wd_Sleeping d \<Rightarrow> pl_restart_count p + n < pl_restart_count q \<and> d = restart_backoff (pl_restart_count q)))"

lemma plugin_stop_sel [simp]:
  "pl_restart_count (plugin_stop removed out p) = pl_restart_count p" "pl_pc (plugin_stop removed out p) = pl_pc p"
  "pl_proc (plugin_stop removed out p) = None" "pl_watchdog (plugin_stop removed out p) = (\<not> removed \<and> pl_watchdog p)"
  by (auto simp: plugin_stop_def Let_def split: option.split stop_outcome.split)

lemma plugin_reach_ok:
  "plugin_reach p n q \<Longrightarrow> pl_pc p = Wd_Idle \<Longrightarrow> pl_restart_count p \<le> MAX_RESTART_COUNT \<Longrightarrow> restarts_ok p n q"
  by (induction rule: plugin_reach.induct) (auto simp: restarts_ok_def plugin_defs split: option.splits sum.splits watchdog_pc.splits)

text \<open>
  C38. The engine is restarted at most five times: from any state in which the watchdog is
  awake (as after the activation), under any sequence of crashes, runs of the watchdog,
  failures to start and stops, the processes started are at most the restarts counted
  since, and at most \<open>MAX_RESTART_COUNT\<close> less those counted before; the \<open>k\<close>-th restart first
  sleeps exactly \<open>2 ^ (k - 1)\<close> seconds, so that the cap of sixty is never reached.
\<close>

theorem restarts_are_bounded:
  assumes "plugin_reach p n q" "pl_pc p = Wd_Idle" "pl_restart_count p \<le> MAX_RESTART_COUNT"
  shows "pl_restart_count p + n \<le> pl_restart_count q \<and> pl_restart_count q \<le> MAX_RESTART_COUNT \<and>
    (case pl_pc q of Wd_Idle \<Rightarrow> True
     | Wd_Sleeping d \<Rightarrow> pl_restart_count p + n < pl_restart_count q \<and> d = 2 ^ (pl_restart_count q - 1) \<and> d \<le> 16)"
proof -
  have ok: "restarts_ok p n q" by (rule plugin_reach_ok [OF assms])
  have b: "restart_backoff k = 2 ^ (k - 1) \<and> (2 :: int) ^ (k - 1) \<le> 16" if "k \<le> 5" for k
  proof -
    have "(2 :: int) ^ (k - 1) \<le> 2 ^ 4" using that by (intro power_increasing) auto
    then show ?thesis by (simp add: restart_backoff_def)
  qed
  show ?thesis
  proof (cases "pl_pc q")
    case (Wd_Sleeping d)
    with ok b [of "pl_restart_count q"] show ?thesis by (simp add: restarts_ok_def MAX_RESTART_COUNT_def)
  qed (use ok in \<open>simp add: restarts_ok_def\<close>)
qed

definition crashed :: plugin where
  "crashed = child_exits 1 (activate True True True (Inr 7) 0 new_plugin)"

lemma crashed: "crashed = \<lparr> pl_proc = Some \<lparr> ch_pid = 7, ch_rc = Some 1 \<rparr>, pl_start_time = Some 0,
    pl_restart_count = 0, pl_watchdog = True, pl_pc = Wd_Idle \<rparr>"
  by (simp add: crashed_def activate_def new_plugin_def spawn_engine_def child_exits_def)

text \<open>The second restart, after the first process and its successor crashed.\<close>

theorem restarts_are_bounded_witness:
  "let q = watchdog_check (child_exits 1 (watchdog_spawn (Inr 8) 1 (watchdog_check crashed)))
   in plugin_reach crashed 1 q \<and> pl_pc q = Wd_Sleeping 2 \<and> 1 < pl_restart_count q"
proof -
  let ?s = "watchdog_check crashed"
  let ?q = "watchdog_check (child_exits 1 (watchdog_spawn (Inr 8) 1 ?s))"
  have s: "pl_pc ?s = Wd_Sleeping 1" by (simp add: crashed watchdog_check_def MAX_RESTART_COUNT_def restart_backoff_def)
  have c: "pl_watchdog crashed" "pl_pc crashed = Wd_Idle" "pl_restart_count crashed = 0" by (simp_all add: crashed)
  have "plugin_reach crashed 0 ?s" by (intro pr_check pr_refl c)
  from pr_spawn [OF this s, of "Inr 8" 1] have "plugin_reach crashed 1 (watchdog_spawn (Inr 8) 1 ?s)" by simp
  then have r: "plugin_reach crashed 1 ?q"
    by (intro pr_check pr_exit) (simp_all add: crashed plugin_defs MAX_RESTART_COUNT_def)
  moreover have "pl_pc ?q = Wd_Sleeping 2"
    by (simp add: crashed plugin_defs MAX_RESTART_COUNT_def restart_backoff_def)
  ultimately show ?thesis using restarts_are_bounded [OF r] c by (simp add: Let_def)
qed

text \<open>Without a child and with the watchdog awake, nothing starts the engine again.\<close>

lemma no_child_stays:
  "plugin_reach p n q \<Longrightarrow> pl_proc p = None \<Longrightarrow> pl_pc p = Wd_Idle \<Longrightarrow>
   n = 0 \<and> pl_proc q = None \<and> pl_pc q = Wd_Idle \<and> pl_restart_count q = pl_restart_count p"
  by (induction rule: plugin_reach.induct) (auto simp: plugin_defs split: sum.splits)

text \<open>
  A restart that fails is the last one: when the process cannot be started, at the
  activation or in a restart, the watchdog, still registered, never tries again, however
  few restarts were counted.
\<close>

theorem failed_start_is_final:
  assumes "pl_proc p = None" "plugin_reach p0 n q"
    and "p0 \<in> {watchdog_spawn (Inl e) now p, activate True True True (Inl e) now new_plugin}"
  shows "n = 0 \<and> pl_proc q = None \<and> pl_restart_count q = pl_restart_count p0"
proof -
  have "pl_proc p0 = None \<and> pl_pc p0 = Wd_Idle"
    using assms(1,3) by (auto simp: watchdog_spawn_def activate_def spawn_engine_def new_plugin_def)
  with no_child_stays [OF assms(2)] show ?thesis by simp
qed

theorem failed_start_is_final_witness:
  "let p = watchdog_spawn (Inl OSError) 1 (watchdog_check crashed)
   in pl_watchdog p \<and> pl_restart_count p = 1 \<and> pl_proc (watchdog_check p) = None \<and> pl_restart_count (watchdog_check p) = 1"
proof -
  let ?s = "watchdog_check crashed"
  let ?p = "watchdog_spawn (Inl OSError) 1 ?s"
  have s: "pl_proc ?s = None" "pl_restart_count ?s = 1" "pl_watchdog ?s"
    by (simp_all add: crashed watchdog_check_def MAX_RESTART_COUNT_def)
  have p: "pl_watchdog ?p" "pl_restart_count ?p = 1" "pl_pc ?p = Wd_Idle"
    using s by (simp_all add: watchdog_spawn_def spawn_engine_def)
  have "plugin_reach ?p 0 (watchdog_check ?p)" by (intro pr_check pr_refl p)
  from failed_start_is_final [OF s(1) this, of OSError 1] p show ?thesis by (simp add: Let_def)
qed

text \<open>
  Stopping is final only when no restart is under way: stopped while the watchdog is
  awake, the plugin never starts the engine again; stopped while the watchdog sleeps
  before a restart, the engine is started after the stop and runs on, without a watchdog.
\<close>

theorem stop_is_final_unless_restarting:
  "(pl_pc p = Wd_Idle \<and> plugin_reach (plugin_stop removed out p) n q \<longrightarrow> n = 0 \<and> pl_proc q = None) \<and>
   (pl_pc p = Wd_Sleeping d \<longrightarrow>
     (let q = watchdog_spawn (Inr pid) now (plugin_stop True out p)
      in plugin_reach (plugin_stop True out p) 1 q \<and> pl_proc q = Some \<lparr> ch_pid = pid, ch_rc = None \<rparr> \<and> \<not> pl_watchdog q))"
proof (intro conjI impI)
  assume a: "pl_pc p = Wd_Idle \<and> plugin_reach (plugin_stop removed out p) n q"
  with no_child_stays [OF conjunct2 [OF a]] show "n = 0" "pl_proc q = None" by simp_all
next
  assume s: "pl_pc p = Wd_Sleeping d"
  then have "pl_pc (plugin_stop True out p) = Wd_Sleeping d" by simp
  from pr_spawn [OF pr_refl this, of "Inr pid" now]
  show "let q = watchdog_spawn (Inr pid) now (plugin_stop True out p)
      in plugin_reach (plugin_stop True out p) 1 q \<and> pl_proc q = Some \<lparr> ch_pid = pid, ch_rc = None \<rparr> \<and> \<not> pl_watchdog q"
    by (simp add: watchdog_spawn_def spawn_engine_def)
qed

theorem stop_is_final_unless_restarting_witness:
  "pl_proc (watchdog_spawn (Inr 9) 2 (plugin_stop True Killed (watchdog_check crashed))) = Some \<lparr> ch_pid = 9, ch_rc = None \<rparr> \<and>
   pl_proc (watchdog_check (plugin_stop False Killed crashed)) = None"
proof -
  have s: "pl_pc (watchdog_check crashed) = Wd_Sleeping 1" "pl_pc crashed = Wd_Idle" "pl_watchdog crashed"
    by (simp_all add: crashed watchdog_check_def MAX_RESTART_COUNT_def restart_backoff_def)
  then have "plugin_reach (plugin_stop False Killed crashed) 0 (watchdog_check (plugin_stop False Killed crashed))"
    by (intro pr_check pr_refl) simp_all
  with stop_is_final_unless_restarting [of crashed False Killed 0] s
    stop_is_final_unless_restarting [of "watchdog_check crashed" False Killed 0 _ 1 9 2]
  show ?thesis by (simp add: Let_def)
qed

end
