(* ===== verification/Engine.thy ===== *)
theory Engine
  imports Ots_Bus Fed_Service Plugin
begin

text \<open>
  engine_main.py: the child process, from its arguments to its exit code, the thread that
  drains the bridge into the bus, and the consumer of the firehose together with the
  manager it hands events to.
\<close>

section \<open>The environment\<close>

definition env_get :: "(string, string) dict \<Rightarrow> string \<Rightarrow> string \<Rightarrow> string" where
  "env_get environ key dflt = (case dget environ key of None \<Rightarrow> dflt | Some v \<Rightarrow> v)"

text \<open>\<open>EnvironmentError\<close> is \<open>OSError\<close>.\<close>

definition read_rmq_env :: "(string, string) dict \<Rightarrow> py_error + string \<times> int \<times> string \<times> string" where
  "read_rmq_env environ =
     (case dget environ ''OTS_RMQPASS'' of
        None \<Rightarrow> Inl OSError
      | Some password \<Rightarrow>
          (case py_int (env_get environ ''OTS_RMQPORT'' ''5672'') of
             None \<Rightarrow> Inl OSError
           | Some port \<Rightarrow>
               Inr (env_get environ ''OTS_RMQHOST'' ''127.0.0.1'', port, env_get environ ''OTS_RMQUSER'' ''guest'', password)))"

section \<open>The thread that drains the bridge\<close>

text \<open>
  A turn of the loop: what was put on the bridge since the last turn (and whether the send
  of its byte failed), then what \<open>select\<close> answers; an error of either call is logged. The
  loop ends when the stop event is set.
\<close>

datatype select_answer = Readable | Timed_Out | Select_Raises

record 'src drain_turn =
  dt_stop :: bool
  dt_puts :: "(bool \<times> 'src \<times> event) list"
  dt_select :: select_answer
  dt_read :: read_result

definition enqueue_all :: "nat \<Rightarrow> (bool \<times> 'src \<times> event) list \<Rightarrow> 'src bridge \<Rightarrow> 'src bridge" where
  "enqueue_all cap = fold (\<lambda>(fails, src, evt). enqueue fails cap src evt)"

fun bridge_drain_loop :: "('src, 's) sink \<Rightarrow> nat \<Rightarrow> 'src drain_turn list \<Rightarrow> 'src bridge \<Rightarrow> 's \<Rightarrow> 'src bridge \<times> 's" where
  "bridge_drain_loop bus cap [] b s = (b, s)"
| "bridge_drain_loop bus cap (t # ts) b s =
     (if dt_stop t then (b, s)
      else (let b1 = enqueue_all cap (dt_puts t) b in
            case dt_select t of
              Readable \<Rightarrow> (case drain bus (dt_read t) b1 s of (_, b2, s') \<Rightarrow> bridge_drain_loop bus cap ts b2 s')
            | _ \<Rightarrow> bridge_drain_loop bus cap ts b1 s))"

section \<open>The consumer of the firehose\<close>

text \<open>
  One message, with the group registry at that time: the callback hands the event to the
  manager.
\<close>

record delivery =
  de_registry :: registry
  de_now :: rat
  de_db :: "json \<Rightarrow> db_attempt \<times> db_attempt" \<comment> \<open>what the database has for a uid\<close>
  de_body :: body

definition consume_one ::
    "py_env \<Rightarrow> delivery \<Rightarrow> rmq_bus \<times> manager \<Rightarrow> py_error + rmq_bus \<times> manager" where
  "consume_one E d bm =
     (case bm of (b, m) \<Rightarrow>
        rbind (on_firehose_message E (de_now d) (de_db d) (de_body d) b) (\<lambda>(handed, b').
          case handed of
            None \<Rightarrow> Inr (b', m)
          | Some evt \<Rightarrow> Inr (b', on_outbound E (Some (de_registry d)) No_Source evt m)))"

fun consume_all ::
    "py_env \<Rightarrow> delivery list \<Rightarrow> rmq_bus \<times> manager \<Rightarrow> py_error option \<times> rmq_bus \<times> manager" where
  "consume_all E [] bm = (None, bm)"
| "consume_all E (d # ds) bm =
     (case consume_one E d bm of
        Inl e \<Rightarrow> (Some e, bm)
      | Inr bm' \<Rightarrow> consume_all E ds bm')"

text \<open>
  \<open>start_consuming\<close>: a turn of its loop reads the stop event (set by a signal or another
  thread, \<open>ct_stop\<close>, or by the bus itself), then handles the messages that
  \<open>process_data_events\<close> delivers and what that call raises itself. What the callback
  raises comes out of that call as well, and ends the consumer. The turns are those taken
  until the stop event is set.
\<close>

record consumer_turn =
  ct_stop :: bool
  ct_deliveries :: "delivery list"
  ct_error :: "py_error option"

fun consume_turns ::
    "py_env \<Rightarrow> consumer_turn list \<Rightarrow> rmq_bus \<times> manager \<Rightarrow> py_error option \<times> rmq_bus \<times> manager" where
  "consume_turns E [] bm = (None, bm)"
| "consume_turns E (t # ts) bm =
     (if ct_stop t \<or> bus_stop (fst bm) then (None, bm)
      else
        (case consume_all E (ct_deliveries t) bm of
           (Some e, bm') \<Rightarrow> (Some e, bm')
         | (None, bm') \<Rightarrow>
             (case ct_error t of Some e \<Rightarrow> (Some e, bm') | None \<Rightarrow> consume_turns E ts bm')))"

definition start_consuming ::
    "py_env \<Rightarrow> consumer_turn list \<Rightarrow> rmq_bus \<times> manager \<Rightarrow> py_error option \<times> rmq_bus \<times> manager" where
  "start_consuming E ts bm = consume_turns E ts (begin_consuming (fst bm), snd bm)"

section \<open>The process\<close>

text \<open>
  What the outside answers: the arguments or the exit code of the parser of the command
  line; the configuration file, none when it is missing; the environment; whether the
  connection to RabbitMQ raises; the files and ports of the listener; what the consumer is
  delivered; whether stopping the manager raises.
\<close>

record engine_env =
  ee_args :: "int + string"
  ee_read :: "string \<Rightarrow> py_error + ini option"
  ee_environ :: "(string, string) dict"
  ee_connect :: "py_error option"
  ee_tls :: tls_env
  ee_bind :: "listener \<Rightarrow> py_error + nat"
  ee_py :: py_env
  ee_turns :: "consumer_turn list"
  ee_stop :: "py_error option"

datatype engine_action =
    Connected | Clients_Started "string list" | Manager_Started "(listener \<times> nat) option" | Groups_Subscribed | Drain_Started
  | Consumer_Ended "py_error option" | Stop_Set | Manager_Stopped "py_error option" | Drain_Joined | Bus_Closed

definition engine_bus :: "(string, string) dict \<Rightarrow> fed_config \<Rightarrow> rmq_bus" where
  "engine_bus environ cfg =
     new_bus (new_loop_filter (fc_server_id cfg) (fc_max_hops cfg) 0) (new_eud_cache 300) 5 (fc_inject_cot_parser cfg)
       (Some (new_group_resolver (case dget environ ''OTS_FED_DBURI'' of Some u \<Rightarrow> if u = [] then None else Some u | None \<Rightarrow> None)))"

text \<open>
  \<open>manager.start\<close>: the thread of every client is started, in this order, and then the
  listener, if there is one, which may not come up: what was started, and what this raises.
\<close>

definition manager_start ::
    "tls_env \<Rightarrow> (listener \<Rightarrow> py_error + nat) \<Rightarrow> fed_config \<Rightarrow> string list \<times> (py_error + (listener \<times> nat) option)" where
  "manager_start T bind cfg = (map fst (mg_clients (new_manager cfg)), start_listener T bind cfg)"

text \<open>
  After the configuration: the bus is connected, the manager started, the threads and the
  consumer run, then everything is shut down in this order. When the start of the manager
  raises, only the bus is closed.
\<close>

definition engine_run :: "engine_env \<Rightarrow> fed_config \<Rightarrow> engine_action list \<times> int" where
  "engine_run A cfg =
     (case ee_connect A of
        Some _ \<Rightarrow> ([], 1)
      | None \<Rightarrow>
          (case manager_start (ee_tls A) (ee_bind A) cfg of
             (clients, Inl _) \<Rightarrow> ([Connected, Clients_Started clients, Bus_Closed], 1)
           | (clients, Inr l) \<Rightarrow>
               (let ended = fst (start_consuming (ee_py A) (ee_turns A)
                      (bus_connect (engine_bus (ee_environ A) cfg), new_manager cfg)) in
                ([Connected, Clients_Started clients, Manager_Started l, Groups_Subscribed, Drain_Started, Consumer_Ended ended,
                  Stop_Set, Manager_Stopped (ee_stop A), Drain_Joined, Bus_Closed],
                 if ended = None then 0 else 1))))"

definition engine_main :: "engine_env \<Rightarrow> engine_action list \<times> int" where
  "engine_main A =
     (case ee_args A of
        Inl code \<Rightarrow> ([], code)
      | Inr path \<Rightarrow>
          (case ee_read A path of
             Inl _ \<Rightarrow> ([], 1)
           | Inr None \<Rightarrow> ([], 1)
           | Inr (Some C) \<Rightarrow>
               (case get_federation_config C of
                  Inl _ \<Rightarrow> ([], 1)
                | Inr cfg \<Rightarrow>
                    if \<not> fc_enabled cfg then ([], 1)
                    else (case read_rmq_env (ee_environ A) of
                            Inl _ \<Rightarrow> ([], 1)
                          | Inr _ \<Rightarrow> engine_run A cfg))))"

section \<open>Lemmas on the consumer\<close>

lemma consume_one_steps:
  assumes "consume_one E d (b, m) = Inr (b', m')"
  shows "m' = m \<and> on_firehose_message E (de_now d) (de_db d) (de_body d) b = Inr (None, b') \<or>
    (\<exists>evt. m' = on_outbound E (Some (de_registry d)) No_Source evt m \<and>
       on_firehose_message E (de_now d) (de_db d) (de_body d) b = Inr (Some evt, b'))"
proof (cases "on_firehose_message E (de_now d) (de_db d) (de_body d) b")
  case (Inr x)
  then show ?thesis using assms by (cases x; cases "fst x") (auto simp: consume_one_def)
qed (use assms in \<open>simp add: consume_one_def\<close>)

text \<open>The consumer changes neither what was published nor the settings of the bus.\<close>

lemma acl_groups_frame:
  assumes "acl_groups_of now db uid b = Inr (r, b')"
  shows "bus_published b' = bus_published b \<and> bus_inject_cot b' = bus_inject_cot b \<and> bus_stop b' = bus_stop b \<and>
    bus_filter b' = bus_filter b"
proof (cases "cache_get_groups now uid (bus_cache b)")
  case (Inr x)
  obtain cached c where x: "x = (cached, c)" by (cases x)
  have h: "hashable uid" using assms by (auto simp: acl_groups_of_def split: if_splits)
  show ?thesis
  proof (cases "cached = None \<and> bus_resolver b \<noteq> None")
    case False
    then show ?thesis using assms Inr x h
      by (cases cached; cases "bus_resolver b") (auto simp: acl_groups_of_def Let_def)
  next
    case True
    then obtain r0 where r0: "cached = None" "bus_resolver b = Some r0" by auto
    obtain q r' where "resolve (fst (db uid)) (snd (db uid)) r0 = (q, r')" by fastforce
    then show ?thesis using assms Inr x r0 h
      by (cases q) (auto simp: acl_groups_of_def Let_def split: if_splits)
  qed
qed (use assms in \<open>simp add: acl_groups_of_def split: if_splits\<close>)

lemma firehose_frame:
  assumes "on_firehose_message E now db body b = Inr (r, b')"
  shows "bus_published b' = bus_published b \<and> bus_inject_cot b' = bus_inject_cot b \<and> bus_stop b' = bus_stop b"
proof (cases "relayed_event E now (bus_filter b) body")
  case None
  from assms [unfolded firehose_unrelayed [OF None]] show ?thesis
    by (auto split: option.splits body.splits json.splits if_splits)
next
  case (Some evt)
  from firehose_relayed [OF this, of db] obtain lf where
    f: "on_firehose_message E now db body b = rbind (acl_groups_of now db (body_uid body) (b\<lparr> bus_filter := lf \<rparr>))
      (\<lambda>(acl_groups, b2). Inr (map_option (\<lambda>gs. evt\<lparr> ev_local_acl_groups := Some (env_it E gs) \<rparr>) acl_groups, b2))" by blast
  obtain acl where "acl_groups_of now db (body_uid body) (b\<lparr> bus_filter := lf \<rparr>) = Inr (acl, b')"
    using assms [unfolded f rbind_Inr_iff] by auto
  from acl_groups_frame [OF this] show ?thesis by simp
qed

text \<open>Without a window for duplicates, as the engine has it, the loop filter never changes.\<close>

lemma relay_keeps_filter: "lf_window lf \<le> 0 \<Longrightarrow> should_relay_outbound L lf now cot_xml = (ok, lf') \<Longrightarrow> lf' = lf"
  by (auto simp: should_relay_outbound_def dedup_step_def split: sum.splits)

lemma firehose_keeps_filter:
  assumes "on_firehose_message E now db body b = Inr (r, b')" "lf_window (bus_filter b) \<le> 0"
  shows "bus_filter b' = bus_filter b"
proof (cases "\<exists>u cot_xml. body = Message u (Some (Text cot_xml)) \<and> cot_xml \<noteq> []")
  case True
  then obtain u cot_xml where m: "body = Message u (Some (Text cot_xml))" "cot_xml \<noteq> []" by blast
  obtain ok lf where f: "should_relay_outbound (env_xml E) (bus_filter b) now cot_xml = (ok, lf)" by fastforce
  then have "lf = bus_filter b" using relay_keeps_filter assms(2) by blast
  with assms(1) m f show ?thesis
    by (cases ok) (auto simp: on_firehose_message_def Let_def rbind_Inr_iff split: option.splits dest: acl_groups_frame)
next
  case False
  with assms(1) have "b' = b"
    by (auto simp: on_firehose_message_def split: body.splits option.splits json.splits if_splits)
  then show ?thesis by simp
qed

lemma firehose_cache:
  assumes "cache_inv (bus_cache b)" "on_firehose_message E now db body b = Inr (r, b')"
  shows "cache_inv (bus_cache b')"
  using firehose_answer [OF assms(1), of E now db body] assms(2) by (auto split: option.splits)

text \<open>What a message raises; the first error of a list of them.\<close>

definition delivery_error :: "py_env \<Rightarrow> loop_filter \<Rightarrow> delivery \<Rightarrow> py_error option" where
  "delivery_error E lf d = body_error E (de_now d) lf (de_body d)"

fun first_error :: "('a \<Rightarrow> py_error option) \<Rightarrow> 'a list \<Rightarrow> py_error option" where
  "first_error f [] = None"
| "first_error f (x # xs) = (case f x of Some e \<Rightarrow> Some e | None \<Rightarrow> first_error f xs)"

lemma first_error_append: "first_error f (xs @ ys) = (case first_error f xs of Some e \<Rightarrow> Some e | None \<Rightarrow> first_error f ys)"
  by (induction xs) (auto split: option.splits)

text \<open>The state of the bus that matters here.\<close>

definition consuming :: "loop_filter \<Rightarrow> rmq_bus \<times> manager \<Rightarrow> bool" where
  "consuming lf bm =
     (cache_inv (bus_cache (fst bm)) \<and> bus_filter (fst bm) = lf \<and> lf_window lf \<le> 0 \<and> \<not> bus_stop (fst bm))"

lemma consume_one_error:
  assumes "consuming lf bm"
  shows "case delivery_error E lf d of Some e \<Rightarrow> consume_one E d bm = Inl e
    | None \<Rightarrow> \<exists>bm'. consume_one E d bm = Inr bm' \<and> consuming lf bm'"
proof -
  obtain b m where bm: "bm = (b, m)" by (cases bm)
  with assms have c: "cache_inv (bus_cache b)" "bus_filter b = lf" "lf_window (bus_filter b) \<le> 0" "\<not> bus_stop b"
    by (auto simp: consuming_def)
  note f = firehose_answer [OF c(1), of E "de_now d" "de_db d" "de_body d"]
  show ?thesis
  proof (cases "delivery_error E lf d")
    case None
    with f c(2) obtain r b' where
      r: "on_firehose_message E (de_now d) (de_db d) (de_body d) b = Inr (r, b')" "cache_inv (bus_cache b')"
      by (auto simp: delivery_error_def)
    with None c bm firehose_frame [OF r(1)] firehose_keeps_filter [OF r(1) c(3)] show ?thesis
      by (cases r) (simp_all add: consume_one_def consuming_def)
  qed (use f c(2) bm in \<open>simp add: delivery_error_def consume_one_def\<close>)
qed

lemma consume_all_error:
  "consuming lf bm \<Longrightarrow>
   (case first_error (delivery_error E lf) ds of Some e \<Rightarrow> fst (consume_all E ds bm) = Some e
    | None \<Rightarrow> \<exists>bm'. consume_all E ds bm = (None, bm') \<and> consuming lf bm')"
proof (induction ds arbitrary: bm)
  case (Cons d ds)
  show ?case
  proof (cases "delivery_error E lf d")
    case None
    with consume_one_error [OF Cons.prems, of E d] obtain bm' where "consume_one E d bm = Inr bm'" "consuming lf bm'"
      by auto
    with Cons.IH [of bm'] None show ?thesis by (simp split: option.splits)
  next
    case (Some e)
    with consume_one_error [OF Cons.prems, of E d] have "consume_one E d bm = Inl e" by simp
    with Some show ?thesis by simp
  qed
qed simp

lemma consume_turns_error:
  "consuming lf bm \<Longrightarrow> list_all (\<lambda>t. ct_error t = None) ts \<Longrightarrow> fst (consume_turns E ts bm) =
     first_error (delivery_error E lf) (concat (map ct_deliveries (takeWhile (\<lambda>t. \<not> ct_stop t) ts)))"
proof (induction ts arbitrary: bm)
  case (Cons t ts)
  show ?case
  proof (cases "ct_stop t")
    case False
    then have turn: "fst (consume_turns E (t # ts) bm) = (case consume_all E (ct_deliveries t) bm of
        (Some e, bm') \<Rightarrow> Some e | (None, bm') \<Rightarrow> fst (consume_turns E ts bm'))"
      using Cons.prems by (auto simp: consuming_def split: prod.splits option.splits)
    show ?thesis
    proof (cases "first_error (delivery_error E lf) (ct_deliveries t)")
      case None
      with consume_all_error [OF Cons.prems(1), of E "ct_deliveries t"] obtain bm' where
        "consume_all E (ct_deliveries t) bm = (None, bm')" "consuming lf bm'" by auto
      with Cons.IH [of bm'] Cons.prems(2) turn None False show ?thesis by (simp add: first_error_append)
    next
      case (Some e)
      with consume_all_error [OF Cons.prems(1), of E "ct_deliveries t"] obtain bm' where
        "consume_all E (ct_deliveries t) bm = (Some e, bm')" by (cases "consume_all E (ct_deliveries t) bm") auto
      with turn Some False show ?thesis by (simp add: first_error_append)
    qed
  qed simp
qed simp

section \<open>Properties\<close>

text \<open>
  C40. One message can end the engine: while \<open>pika\<close> itself does not fail and with the loop
  filter as the engine builds it (no window for duplicates), the consumer raises exactly
  what the first message raises, delivered before the stop event is read, that is JSON but no object, or
  nested too deep, or has a list or an object as its uid and a text that is relayed; no
  other message, of whatever content, makes it raise.
\<close>

theorem consumer_ends_on_foreign_json:
  assumes "cache_inv (bus_cache b)" "\<not> bus_stop b" "lf_window (bus_filter b) \<le> 0" "list_all (\<lambda>t. ct_error t = None) ts"
  shows "fst (start_consuming E ts (b, m)) =
    first_error (\<lambda>d.
       if de_body d = Not_Object then Some AttributeError
       else if de_body d = Too_Deep then Some RecursionError
       else if relayed_event E (de_now d) (bus_filter b) (de_body d) \<noteq> None \<and> \<not> hashable (body_uid (de_body d))
       then Some TypeError else None)
     (concat (map ct_deliveries (takeWhile (\<lambda>t. \<not> ct_stop t) ts)))"
proof -
  have "consuming (bus_filter b) (begin_consuming b, m)"
    using assms(1-3) by (simp add: consuming_def begin_consuming_def)
  from consume_turns_error [OF this assms(4), of E] show ?thesis
    by (simp add: start_consuming_def delivery_error_def [abs_def] body_error_def)
qed

text \<open>A message without JSON, one whose uid is a list, and one that would be fine.\<close>

definition sample_deliveries :: "delivery list" where
  "sample_deliveries = map (\<lambda>body. \<lparr> de_registry = empty_registry, de_now = 7, de_db = no_rows, de_body = body \<rparr>)
     [Bad_Json, Message (Some (Container False)) (Some (Text local_text)), Message None None]"

lemma local_relayed:
  assumes "lf_window lf \<le> 0"
  shows "relayed_event lax_env now lf (Message u (Some (Text local_text))) \<noteq> None"
proof -
  obtain evt0 where p: "parse_cot_xml lax_env local_text = Some evt0" using local_event_reads by blast
  have clean: "clean_for_relay (env_xml lax_env) local_text = local_text"
    by (simp add: clean_for_relay_def local_text_parses local_elem_bare)
  have "not_looped sid local_elem" for sid by (simp add: not_looped_def local_elem_bare)
  then have "fst (should_relay_outbound (env_xml lax_env) lf now local_text)"
    using assms by (simp add: should_relay_outbound_def local_text_parses dedup_step_def)
  with p clean show ?thesis by (auto simp: relayed_event_def parse_cot_xml_def)
qed

definition plain_bus :: rmq_bus where
  "plain_bus = firehose_bus\<lparr> bus_filter := new_loop_filter ''s'' 3 0 \<rparr>"

theorem consumer_ends_on_foreign_json_witness:
  "fst (start_consuming lax_env [\<lparr> ct_stop = False, ct_deliveries = sample_deliveries, ct_error = None \<rparr>]
     (plain_bus, one_link)) = Some TypeError"
proof -
  have f: "cache_inv (bus_cache plain_bus)" "\<not> bus_stop plain_bus" "lf_window (bus_filter plain_bus) \<le> 0"
    using firehose_bus_view(1)
    by (simp_all add: plain_bus_def firehose_bus_def sample_bus_def bus_connect_def new_bus_def new_loop_filter_def)
  have "relayed_event lax_env 7 (bus_filter plain_bus) Bad_Json = None" by (simp add: relayed_event_def)
  with local_relayed [OF f(3)] show ?thesis
    by (subst consumer_ends_on_foreign_json [OF f])
      (simp_all add: sample_deliveries_def body_uid_def message_uid_def hashable_def del: not_None_eq)
qed

text \<open>What \<open>main\<close> reads before it connects.\<close>

definition ready :: "engine_env \<Rightarrow> fed_config \<Rightarrow> bool" where
  "ready A cfg =
     (\<exists>path C rmq. ee_args A = Inr path \<and> ee_read A path = Inr (Some C) \<and> get_federation_config C = Inr cfg \<and>
        fc_enabled cfg \<and> read_rmq_env (ee_environ A) = Inr rmq)"

lemma engine_main_cases:
  obtains (runs) cfg where "ready A cfg" "engine_main A = engine_run A cfg"
    | (exits) "\<And>cfg. \<not> ready A cfg" "engine_main A = ([], case ee_args A of Inl code \<Rightarrow> code | Inr _ \<Rightarrow> 1)"
proof (cases "\<exists>cfg. ready A cfg")
  case True
  then obtain cfg where "ready A cfg" ..
  then show thesis by (intro runs) (auto simp: ready_def engine_main_def)
next
  case False
  then have "engine_main A = ([], case ee_args A of Inl code \<Rightarrow> code | Inr _ \<Rightarrow> 1)"
    by (auto simp: ready_def engine_main_def split: sum.split option.split)
  with False show thesis by (intro exits) auto
qed

lemma ready_unique: "ready A cfg \<Longrightarrow> ready A cfg' \<Longrightarrow> cfg' = cfg"
  by (auto simp: ready_def)

text \<open>The plugin restarts the process whatever its exit code, 0 included.\<close>

lemma clean_exit_is_restarted:
  "pl_proc p = Some c \<Longrightarrow> ch_rc c = None \<Longrightarrow> pl_restart_count p < MAX_RESTART_COUNT \<Longrightarrow>
   pl_pc (watchdog_check (child_exits 0 p)) = Wd_Sleeping (restart_backoff (pl_restart_count p + 1))"
  by (simp add: watchdog_check_def child_exits_def Let_def)

text \<open>
  C39. The life of the process: it connects exactly when the configuration is enabled, the
  credentials are in the environment and the broker answers; then it starts the thread of every
  enabled client, and closing the bus is its last action. Its manager counts as started
  exactly with what the listener came up with, and is then stopped again before the bus is
  closed; a listener that may not start or cannot ends the process with 1, the threads of the
  clients started and never told to stop. It exits with 0 exactly when its consumer ended
  without an error, or when the parser of the arguments said so.
\<close>

theorem engine_lifecycle:
  assumes "engine_main A = (acts, code)"
  shows "(acts = [] \<or> last acts = Bus_Closed) \<and>
    (Connected \<in> set acts \<longleftrightarrow> ee_connect A = None \<and> (\<exists>cfg. ready A cfg)) \<and>
    (Clients_Started ns \<in> set acts \<longleftrightarrow>
       ee_connect A = None \<and> (\<exists>cfg. ready A cfg \<and> ns = map fst (mg_clients (new_manager cfg)))) \<and>
    (Manager_Started l \<in> set acts \<longleftrightarrow>
       ee_connect A = None \<and> (\<exists>cfg. ready A cfg \<and> start_listener (ee_tls A) (ee_bind A) cfg = Inr l)) \<and>
    (Manager_Started l \<in> set acts \<longrightarrow> Manager_Stopped (ee_stop A) \<in> set (dropWhile (\<lambda>x. x \<noteq> Manager_Started l) acts)) \<and>
    (\<forall>cfg e. ee_connect A = None \<and> ready A cfg \<and> start_listener (ee_tls A) (ee_bind A) cfg = Inl e \<longrightarrow>
       acts = [Connected, Clients_Started (map fst (mg_clients (new_manager cfg))), Bus_Closed] \<and> code = 1) \<and>
    (code = 0 \<longleftrightarrow> ee_args A = Inl 0 \<or> Consumer_Ended None \<in> set acts)"
proof (cases rule: engine_main_cases [of A])
  case (runs cfg)
  then have "ee_args A \<noteq> Inl 0" by (auto simp: ready_def)
  moreover have u: "ready A c = (c = cfg)" for c using runs(1) ready_unique [of A] by blast
  moreover have r: "engine_run A cfg = (acts, code)" using runs(2) assms by simp
  ultimately show ?thesis
  proof (cases "ee_connect A")
    case None
    let ?c = "Clients_Started (map fst (mg_clients (new_manager cfg)))"
    show ?thesis
    proof (cases "start_listener (ee_tls A) (ee_bind A) cfg")
      case (Inl e)
      with None r have "acts = [Connected, ?c, Bus_Closed]" "code = 1" by (simp_all add: engine_run_def manager_start_def)
      then show ?thesis using None Inl \<open>ee_args A \<noteq> Inl 0\<close> by (simp add: u)
    next
      case (Inr k)
      define ended where "ended = fst (start_consuming (ee_py A) (ee_turns A)
        (bus_connect (engine_bus (ee_environ A) cfg), new_manager cfg))"
      from None r Inr have "acts = [Connected, ?c, Manager_Started k, Groups_Subscribed, Drain_Started,
          Consumer_Ended ended, Stop_Set, Manager_Stopped (ee_stop A), Drain_Joined, Bus_Closed]"
        "code = (if ended = None then 0 else 1)"
        by (simp_all add: engine_run_def manager_start_def Let_def ended_def [symmetric])
      then show ?thesis using None Inr \<open>ee_args A \<noteq> Inl 0\<close> by (auto simp: u)
    qed
  qed (simp add: engine_run_def u)
next
  case exits
  with assms show ?thesis by (cases "ee_args A") auto
qed

text \<open>The sample configuration does not listen; its process is told to stop at once.\<close>

definition sample_process :: "tls_env \<Rightarrow> engine_env" where
  "sample_process T = \<lparr> ee_args = Inr ''f.ini'', ee_read = (\<lambda>_. Inr (Some sample_ini)),
     ee_environ = [(''OTS_RMQPASS'', ''pw'')], ee_connect = None,
     ee_tls = T, ee_bind = (\<lambda>_. Inl OSError), ee_py = lax_env, ee_turns = [], ee_stop = None \<rparr>"

lemma sample_config_enabled: "parse_enabled_config sample_ini = Inr sample_config"
proof -
  have "get_bool sample_ini ''federation'' ''enabled'' True = Inr True" by (rule sample_get_bool) simp_all
  then show ?thesis using sample_config_parses(1) by (simp add: get_federation_config_def)
qed

lemma parsed_listen:
  "parse_enabled_config C = Inr cfg \<Longrightarrow> get_bool C ''federation'' ''listen_enabled'' False = Inr (fc_listen_enabled cfg)"
  by (auto simp: parse_enabled_config_def rbind_Inr_iff Let_def split: if_splits)

lemma sample_does_not_listen: "\<not> fc_listen_enabled sample_config"
proof -
  have "get_bool sample_ini ''federation'' ''listen_enabled'' False = Inr False" by (rule sample_get_bool) simp_all
  with parsed_listen [OF sample_config_enabled] show ?thesis by simp
qed

lemma sample_ready: "ready (sample_process T) sample_config"
proof -
  have "py_int ''5672'' \<noteq> None" by code_simp
  then have "\<exists>rmq. read_rmq_env (ee_environ (sample_process T)) = Inr rmq"
    by (auto simp: sample_process_def read_rmq_env_def env_get_def)
  moreover have "fc_enabled sample_config" using parse_enabled_config_sel(1) [OF sample_config_enabled] .
  ultimately show ?thesis using sample_config_parses by (auto simp: ready_def sample_process_def)
qed

theorem engine_lifecycle_witness:
  "\<forall>T. last (fst (engine_main (sample_process T))) = Bus_Closed \<and> Manager_Started None \<in> set (fst (engine_main (sample_process T)))"
proof
  fix T
  have l: "start_listener (ee_tls (sample_process T)) (ee_bind (sample_process T)) sample_config = Inr None"
    by (simp add: start_listener_def sample_does_not_listen)
  have c: "ee_connect (sample_process T) = None" by (simp add: sample_process_def)
  obtain acts code where m: "engine_main (sample_process T) = (acts, code)" by fastforce
  note k = engine_lifecycle [OF m, of "[]" None]
  have "acts = [] \<or> last acts = Bus_Closed" using k by (elim conjE)
  moreover have "Manager_Started None \<in> set acts" using k sample_ready [of T] l c by (elim conjE) blast
  ultimately show "last (fst (engine_main (sample_process T))) = Bus_Closed \<and> Manager_Started None \<in> set (fst (engine_main (sample_process T)))"
    using m by auto
qed

end
