(* ===== verification/System.thy ===== *)
theory System
  imports Engine
begin

text \<open>
  The engine as a whole: the servicer, the manager and its clients, the bridge and the bus
  with the interleavings of their threads, and the end-to-end properties of both
  directions: what is published locally comes from an admitted message of a peer, and what
  is sent to a peer comes from a local event of a group this peer is sent.
\<close>

section \<open>The parts together\<close>

text \<open>
  An event put on the bridge: who sent it in which message, under which registry. It
  arrives by a call of the inbound server, or from the thread of a configured client: in a
  state that the thread reaches from its start, whatever it was told and however the other
  threads interleave, it takes the message from its stream and puts the event on the bridge,
  under the identity its session has then.
\<close>

record arrival =
  ar_registry :: registry
  ar_peer :: string
  ar_message :: fed_event
  ar_event :: event

definition served_arrival :: "py_env \<Rightarrow> (string \<Rightarrow> py_error + nat list) \<Rightarrow> servicer \<Rightarrow> grpc_ctx \<Rightarrow> arrival \<Rightarrow> bool" where
  "served_arrival E D sv ctx a =
     (case resolve_authenticated_peer D sv ctx None of
        (pid, q) \<Rightarrow> pid = ar_peer a \<and>
          (stream_event E sv (pid, q) (ar_message a) = Some (ar_event a) \<or>
           map_option snd (SendOneEvent E D ctx sv (ar_message a)) = Some (ar_event a)))"

definition configured_thread :: "fed_config \<Rightarrow> peer_config \<Rightarrow> client_thread" where
  "configured_thread cfg p = new_client_thread
     (new_fed_client (pc_name p) p (fc_server_id cfg) (fc_allow_federated_delete cfg) (fc_max_hops cfg))
     (Some (build_group_registry cfg))"

definition client_arrival :: "py_env \<Rightarrow> fed_config \<Rightarrow> arrival \<Rightarrow> bool" where
  "client_arrival E cfg a =
     (\<exists>p t now. p \<in> set (fc_peers cfg) \<and> pc_enabled p \<and> client_reach E (configured_thread cfg p) t \<and>
        th_pc t = Event_Loop \<and> th_reg t = Some (ar_registry a) \<and> or_empty (cl_remote_id (th_client t)) = ar_peer a \<and>
        th_inbound (thread_step E (Received now (ar_message a)) t) = th_inbound t @ [ar_event a])"

definition arrives :: "py_env \<Rightarrow> (string \<Rightarrow> py_error + nat list) \<Rightarrow> fed_config \<Rightarrow> service \<Rightarrow> arrival \<Rightarrow> bool" where
  "arrives E D cfg S a =
     (sv_registry (se_servicer S) = Some (ar_registry a) \<and> (\<exists>ctx. served_arrival E D (se_servicer S) ctx a) \<or>
      client_arrival E cfg a)"

text \<open>
  The states of the process: its service, its bridge and its bus, and every interleaving of
  their threads. A run records, in order, what arrived and what was injected, with what the
  broker and the database answered to this injection.
\<close>

datatype engine_event = Arrived arrival | Injected rmq_env string event

record engine =
  en_service :: service
  en_bridge :: "string bridge"
  en_bus :: rmq_bus

inductive engine_reach ::
    "py_env \<Rightarrow> (string \<Rightarrow> py_error + nat list) \<Rightarrow> nat \<Rightarrow> fed_config \<Rightarrow> engine \<Rightarrow> engine_event list \<Rightarrow> engine \<Rightarrow> bool"
  for E D cap cfg X where
  er_start: "engine_reach E D cap cfg X [] X"
| er_arrival: "engine_reach E D cap cfg X tr Y \<Longrightarrow> arrives E D cfg (en_service Y) a \<Longrightarrow>
    engine_reach E D cap cfg X (tr @ [Arrived a])
      (Y\<lparr> en_bridge := enqueue_put (ar_peer a) (ar_event a) (en_bridge Y) \<rparr>)"
| er_wake: "engine_reach E D cap cfg X tr Y \<Longrightarrow> 0 < br_unsent (en_bridge Y) \<Longrightarrow>
    engine_reach E D cap cfg X tr (Y\<lparr> en_bridge := enqueue_send fails cap (en_bridge Y) \<rparr>)"
| er_read: "engine_reach E D cap cfg X tr Y \<Longrightarrow> br_pc (en_bridge Y) = Drain_Idle \<Longrightarrow>
    engine_reach E D cap cfg X tr (Y\<lparr> en_bridge := drain_read res (en_bridge Y) \<rparr>)"
| er_emptied: "engine_reach E D cap cfg X tr Y \<Longrightarrow> br_pc (en_bridge Y) = Drain_Popping \<Longrightarrow>
    drain_pop (en_bridge Y) = (None, b) \<Longrightarrow> engine_reach E D cap cfg X tr (Y\<lparr> en_bridge := b \<rparr>)"
| er_inject: "engine_reach E D cap cfg X tr Y \<Longrightarrow> br_pc (en_bridge Y) = Drain_Popping \<Longrightarrow>
    drain_pop (en_bridge Y) = (Some (src, evt), b) \<Longrightarrow>
    inject E R src evt (ev_inbound_local_groups evt) (en_bus Y) = (err, bus) \<Longrightarrow>
    engine_reach E D cap cfg X (tr @ [Injected R src evt]) (Y\<lparr> en_bridge := b, en_bus := bus \<rparr>)"
| er_consume: "engine_reach E D cap cfg X tr Y \<Longrightarrow> Some (de_registry d) = sv_registry (se_servicer (en_service Y)) \<Longrightarrow>
    consume_one E d (en_bus Y, se_manager (en_service Y)) = Inr (bus, m) \<Longrightarrow>
    engine_reach E D cap cfg X tr (Y\<lparr> en_service := with_manager (\<lambda>_. m) (en_service Y), en_bus := bus \<rparr>)"
| er_groups: "engine_reach E D cap cfg X tr Y \<Longrightarrow>
    engine_reach E D cap cfg X tr (Y\<lparr> en_bus := groups_delivery now key body (en_bus Y) \<rparr>)"
| er_service: "engine_reach E D cap cfg X tr Y \<Longrightarrow> service_step E D (en_service Y) S \<Longrightarrow>
    engine_reach E D cap cfg X tr (Y\<lparr> en_service := S \<rparr>)"

text \<open>The state a process starts from, with the registry of its configuration.\<close>

definition started :: "(string, string) dict \<Rightarrow> fed_config \<Rightarrow> engine" where
  "started environ cfg =
     \<lparr> en_service = new_service cfg (Some (build_group_registry cfg)), en_bridge = new_bridge,
       en_bus = begin_consuming (bus_connect (engine_bus environ cfg)) \<rparr>"

section \<open>Invariants\<close>

lemma map_inbound_groups_some:
  "map_inbound_groups r pid gs = Some S \<Longrightarrow> finite S \<and> S \<noteq> {}"
proof (cases "gs = []")
  case False
  assume "map_inbound_groups r pid gs = Some S"
  with False have S: "S = {l. \<exists>g \<in> set gs. map_inbound r pid g = Some l}" "\<exists>g \<in> set gs. map_inbound r pid g \<noteq> None"
    by (auto simp: map_inbound_groups_Cons split: if_splits)
  have "S \<subseteq> (\<lambda>g. the (map_inbound r pid g)) ` set gs" using S(1) by force
  with S show ?thesis using finite_surj by blast
qed (auto simp: map_inbound_groups_Nil split: option.splits if_splits)

text \<open>
  An event that arrives is restricted to the groups of the policy, or is that of a contact,
  which has none attached.
\<close>

lemma synthesized_ungrouped:
  assumes "synthesize_contact_event now c = Inr (Some e)"
  shows "ev_inbound_local_groups e = None"
proof -
  obtain st where "contact_stale now (ct_operation c) = Inr st"
    using assms by (cases "contact_stale now (ct_operation c)") (simp_all add: synthesize_contact_event_def split: if_splits)
  moreover obtain x where "contact_detail c = Inr x" if "st \<noteq> None"
    using assms calculation
    by (cases "contact_detail c"; cases st) (simp_all add: synthesize_contact_event_def split: if_splits)
  ultimately show ?thesis
    using assms by (cases st) (auto simp: synthesize_contact_event_def new_event_def split: if_splits)
qed

lemma contact_event_ungrouped:
  "contact_event now p = Inr (Some e) \<Longrightarrow> decode_contact_entry p \<noteq> None \<and> ev_inbound_local_groups e = None"
  by (cases "decode_contact_entry p") (simp_all add: contact_event_def synthesized_ungrouped)

lemma handle_inbound_groups:
  assumes "handle_inbound E (Some r) now p c = Inr (Some e)" "cl_remote_id c = Some pid" "pid \<noteq> []"
  shows "(\<exists>gs. map_inbound_groups r pid (fe_groups p) = Some gs \<and> ev_inbound_local_groups e = Some (env_it E gs)) \<or>
    decode_contact_entry p \<noteq> None \<and> ev_inbound_local_groups e = None"
proof (cases "decode_federated_event E p (cl_local_max_hops c)")
  case (Inr d)
  obtain evt m where d: "d = (evt, m)" by (cases d)
  show ?thesis
  proof (cases evt)
    case None
    then have "contact_event now p = Inr (Some e)" using assms(1) Inr d by (simp add: handle_inbound_def)
    then show ?thesis using contact_event_ungrouped by blast
  next
    case (Some evt')
    with assms Inr d show ?thesis
      by (auto simp: handle_inbound_def or_empty_def split: option.splits if_splits)
  qed
qed (use assms(1) in \<open>simp add: handle_inbound_def\<close>)

lemma served_groups:
  assumes "served_arrival E D sv ctx a" "sv_registry sv = Some r"
  shows "\<exists>gs. map_inbound_groups r (ar_peer a) (fe_groups (ar_message a)) = Some gs \<and>
    ev_inbound_local_groups (ar_event a) = Some (env_it E gs)"
proof -
  obtain q where q: "resolve_authenticated_peer D sv ctx None = (ar_peer a, q)"
    using assms(1) by (auto simp: served_arrival_def split: prod.splits)
  with assms(1) have "stream_event E sv (ar_peer a, q) (ar_message a) = Some (ar_event a) \<or>
      map_option snd (SendOneEvent E D ctx sv (ar_message a)) = Some (ar_event a)"
    by (simp add: served_arrival_def)
  then obtain gs where "inbound_policy sv (ar_peer a, q) (fe_groups (ar_message a)) = Some gs"
    "ev_inbound_local_groups (ar_event a) = Some (env_it E gs)"
    using streamed.admit_groups [of "(sv, ar_peer a, q)" "ar_message a" E "ar_event a"]
      single.admit_groups [of "(D, ctx, sv)" "ar_message a" E "ar_event a"] assms(2) q by auto
  with assms(2) show ?thesis by (auto simp: inbound_policy_def split: if_splits)
qed

text \<open>
  What a client's thread puts on the bridge comes from an identity that a fingerprint of the
  configuration resolves to, and is judged by the policy of the configuration.
\<close>

lemma client_arrival_bound:
  assumes "client_arrival E cfg a"
  obtains c now fp where "handle_inbound E (Some (ar_registry a)) now (ar_message a) c = Inr (Some (ar_event a))"
    "cl_remote_id c = Some (ar_peer a)" "ar_peer a \<noteq> []" "same_policy (ar_registry a) (build_group_registry cfg)"
    "resolve_peer_id_by_fingerprint (build_group_registry cfg) fp = Some (ar_peer a)"
proof -
  from assms obtain p t now where reach: "client_reach E (configured_thread cfg p) t"
    and t: "th_pc t = Event_Loop" "th_reg t = Some (ar_registry a)" "or_empty (cl_remote_id (th_client t)) = ar_peer a"
    and step: "th_inbound (thread_step E (Received now (ar_message a)) t) = th_inbound t @ [ar_event a]"
    by (auto simp: client_arrival_def)
  have inv: "thread_inv E (build_group_registry cfg) t"
    using client_reach_inv [OF build_fingerprints_named reach] new_thread_inv by (simp add: configured_thread_def)
  then have pol: "same_policy (ar_registry a) (build_group_registry cfg)" using t(2) by (auto simp: thread_inv_def)
  have "bound_ok t" using inv by (simp add: thread_inv_def)
  with t obtain fp where fp: "cl_remote_id (th_client t) = Some (ar_peer a)"
    "resolve_peer_id_by_fingerprint (ar_registry a) fp = Some (ar_peer a)"
    by (auto simp: bound_ok_def or_empty_def)
  moreover have cfg: "resolve_peer_id_by_fingerprint (build_group_registry cfg) fp = Some (ar_peer a)"
    using fp(2) pol by (simp add: same_policy_def)
  moreover have "ar_peer a \<noteq> []" using cfg build_fingerprints_named [of cfg] by (auto simp: fingerprints_named_def)
  moreover have "handle_inbound E (Some (ar_registry a)) now (ar_message a) (th_client t) = Inr (Some (ar_event a))"
    using step t(1,2) by (auto simp: thread_step_eq event_loop_step_def split: if_splits sum.splits option.splits)
  ultimately show thesis using that pol by blast
qed

lemma arrival_groups:
  assumes "arrives E D cfg S a"
  shows "(\<exists>gs. map_inbound_groups (ar_registry a) (ar_peer a) (fe_groups (ar_message a)) = Some gs \<and>
      ev_inbound_local_groups (ar_event a) = Some (env_it E gs)) \<or>
    decode_contact_entry (ar_message a) \<noteq> None \<and> ev_inbound_local_groups (ar_event a) = None"
proof (cases "client_arrival E cfg a")
  case True
  then obtain c now where "handle_inbound E (Some (ar_registry a)) now (ar_message a) c = Inr (Some (ar_event a))"
    "cl_remote_id c = Some (ar_peer a)" "ar_peer a \<noteq> []" using client_arrival_bound by blast
  then show ?thesis by (rule handle_inbound_groups)
next
  case False
  with assms served_groups show ?thesis by (auto simp: arrives_def)
qed

lemma groups_delivery_frame:
  "bus_published (groups_delivery now key body b) = bus_published b \<and>
   bus_inject_cot (groups_delivery now key body b) = bus_inject_cot b"
  by (auto simp: groups_delivery_def on_groups_message_def Let_def split: body.splits prod.splits option.splits)

lemma groups_delivery_cache: "cache_inv (bus_cache b) \<Longrightarrow> cache_inv (bus_cache (groups_delivery now key body b))"
  by (auto simp: groups_delivery_def on_groups_message_def Let_def cache_inv_update
      split: body.splits prod.splits option.splits)

lemma engine_service: "engine_reach E D cap cfg X tr Y \<Longrightarrow> service_reach E D (en_service X) (en_service Y)"
proof (induction rule: engine_reach.induct)
  case (er_consume tr Y d bus m)
  have id: "with_manager (\<lambda>_. se_manager S) S = S" for S by (simp add: with_manager_def)
  have fan: "with_manager (\<lambda>_. on_outbound E r s e (se_manager S)) S = with_manager (on_outbound E r s e) S" for S r s e
    by (simp add: with_manager_def)
  have st: "service_step E D (en_service Y) (with_manager (on_outbound E (Some (de_registry d)) No_Source e) (en_service Y))" for e
    unfolding er_consume.hyps(2) by (rule st_fan)
  from consume_one_steps [OF er_consume.hyps(3)] show ?case
    using er_consume.IH sr_step [OF er_consume.IH st] by (auto simp: id fan)
qed (auto intro: sr_refl sr_step)

lemma engine_cache: "engine_reach E D cap cfg X tr Y \<Longrightarrow> cache_inv (bus_cache (en_bus X)) \<Longrightarrow> cache_inv (bus_cache (en_bus Y))"
proof (induction rule: engine_reach.induct)
  case (er_consume tr Y d bus m)
  from consume_one_steps [OF er_consume.hyps(3)] er_consume.IH er_consume.prems show ?case
    by (auto dest: firehose_cache)
qed (auto simp: inject_frame groups_delivery_cache)

text \<open>What waits on the bridge has arrived, while the service was in some state on the way.\<close>

definition accounted ::
    "py_env \<Rightarrow> (string \<Rightarrow> py_error + nat list) \<Rightarrow> fed_config \<Rightarrow> engine \<Rightarrow> engine_event list \<Rightarrow> string \<Rightarrow> event \<Rightarrow> arrival \<Rightarrow> bool" where
  "accounted E D cfg X tr src evt a =
     (Arrived a \<in> set tr \<and> ar_peer a = src \<and> ar_event a = evt \<and>
      (\<exists>S. service_reach E D (en_service X) S \<and> arrives E D cfg S a))"

lemma accounted_mono: "accounted E D cfg X tr src evt a \<Longrightarrow> accounted E D cfg X (tr @ us) src evt a"
  by (auto simp: accounted_def)

lemma engine_queue:
  "engine_reach E D cap cfg X tr Y \<Longrightarrow> br_queue (en_bridge X) = [] \<Longrightarrow>
   (src, evt) \<in> set (br_queue (en_bridge Y)) \<Longrightarrow> \<exists>a. accounted E D cfg X tr src evt a"
proof (induction arbitrary: src evt rule: engine_reach.induct)
  case (er_arrival tr Y a)
  show ?case
  proof (cases "(src, evt) \<in> set (br_queue (en_bridge Y))")
    case True
    from er_arrival.IH [OF er_arrival.prems(1) this] show ?thesis by (blast intro: accounted_mono)
  next
    case False
    with er_arrival.prems(2) have "accounted E D cfg X (tr @ [Arrived a]) src evt a"
      using engine_service [OF er_arrival.hyps(1)] er_arrival.hyps(2) by (auto simp: enqueue_put_def accounted_def)
    then show ?thesis ..
  qed
next
  case (er_inject tr Y s e b R err bus)
  then have "(src, evt) \<in> set (br_queue (en_bridge Y))" by (auto simp: drain_pop_def split: list.splits)
  from er_inject.IH [OF er_inject.prems(1) this] show ?case by (blast intro: accounted_mono)
qed (auto simp: bridge_steps split: if_splits list.splits read_result.splits)

definition explained ::
    "py_env \<Rightarrow> (string \<Rightarrow> py_error + nat list) \<Rightarrow> fed_config \<Rightarrow> engine \<Rightarrow> engine_event list \<Rightarrow> publication \<Rightarrow> bool" where
  "explained E D cfg X tr p =
     (\<exists>a R. accounted E D cfg X tr (ar_peer a) (ar_event a) a \<and> Injected R (ar_peer a) (ar_event a) \<in> set tr \<and>
        publication_allowed R (bus_inject_cot (en_bus X)) (ar_event a) (ev_inbound_local_groups (ar_event a)) p)"

lemma explained_mono: "explained E D cfg X tr p \<Longrightarrow> explained E D cfg X (tr @ us) p"
  unfolding explained_def by (fastforce intro: accounted_mono)

lemma engine_cot: "engine_reach E D cap cfg X tr Y \<Longrightarrow> bus_inject_cot (en_bus Y) = bus_inject_cot (en_bus X)"
proof (induction rule: engine_reach.induct)
  case (er_consume tr Y d bus m)
  with consume_one_steps [OF er_consume.hyps(3)] show ?case by (auto dest: firehose_frame)
qed (simp_all add: inject_frame groups_delivery_frame)

lemma engine_published:
  "engine_reach E D cap cfg X tr Y \<Longrightarrow> br_queue (en_bridge X) = [] \<Longrightarrow> p \<in> set (bus_published (en_bus Y)) \<Longrightarrow>
   p \<in> set (bus_published (en_bus X)) \<or> explained E D cfg X tr p"
proof (induction rule: engine_reach.induct)
  case (er_arrival tr Y a)
  then show ?case by (auto intro: explained_mono)
next
  case (er_inject tr Y src evt b R err bus)
  obtain ps where ps: "bus_published bus = bus_published (en_bus Y) @ ps"
    "\<And>p. p \<in> set ps \<Longrightarrow> publication_allowed R (bus_inject_cot (en_bus Y)) evt (ev_inbound_local_groups evt) p"
    using inject_published [OF er_inject.hyps(4)] by metis
  have "(src, evt) \<in> set (br_queue (en_bridge Y))"
    using er_inject.hyps(3) by (auto simp: drain_pop_def split: list.splits)
  from engine_queue [OF er_inject.hyps(1) er_inject.prems(1) this] obtain a where a: "accounted E D cfg X tr src evt a" ..
  then have e: "src = ar_peer a" "evt = ar_event a" by (simp_all add: accounted_def)
  have "explained E D cfg X (tr @ [Injected R src evt]) p" if "p \<in> set ps"
    using ps(2) [OF that] engine_cot [OF er_inject.hyps(1)] accounted_mono [OF a, of "[Injected R src evt]"] e
    unfolding explained_def by (intro exI [of _ a] exI [of _ R]) simp
  with ps(1) er_inject.IH er_inject.prems show ?case by (auto intro: explained_mono)
next
  case (er_consume tr Y d bus m)
  from consume_one_steps [OF er_consume.hyps(3)] have "bus_published bus = bus_published (en_bus Y)"
    by (auto dest: firehose_frame)
  with er_consume.IH er_consume.prems show ?case by simp
qed (simp_all add: groups_delivery_frame)

lemma started_sel [simp]:
  "br_queue (en_bridge (started environ cfg)) = []" "bus_published (en_bus (started environ cfg)) = []"
  "bus_inject_cot (en_bus (started environ cfg)) = fc_inject_cot_parser cfg"
  "cache_inv (bus_cache (en_bus (started environ cfg)))"
  "en_service (started environ cfg) = new_service cfg (Some (build_group_registry cfg))"
  by (simp_all add: started_def new_bridge_def begin_consuming_def bus_connect_def engine_bus_def new_bus_def cache_inv_new)

section \<open>From a peer to the local clients\<close>

text \<open>
  C1. What the engine publishes was admitted. Whatever its threads interleave, every message
  it publishes stands for an event that arrived from a peer: by a call of the inbound server,
  while the service was in a state it reached on the way, or by the thread of a configured
  client, and then the peer is an identity that a configured fingerprint resolves to, and the
  policy that of the configuration. The message goes to a group only if the event is not
  directed and the policy maps the groups of the peer's message to this group; to a
  callsign only if the event names it and the database answered, to the lookup of this name
  in the injection of this event, that it is in one of the groups mapped to; and to the parser only where
  \<open>inject_cot_parser\<close> is configured or for a contact, which no policy covers.
\<close>

theorem published_events_were_admitted:
  assumes "engine_reach E D cap cfg X tr Y" "br_queue (en_bridge X) = []" "bus_published (en_bus X) = []"
    and "p \<in> set (bus_published (en_bus Y))"
    and "\<And>S. finite S \<Longrightarrow> set (env_it E S) = S"
  shows "\<exists>a R. Arrived a \<in> set tr \<and> Injected R (ar_peer a) (ar_event a) \<in> set tr \<and> pub_uid p = ev_uid (ar_event a) \<and>
    ((\<exists>S ctx. service_reach E D (en_service X) S \<and> sv_registry (se_servicer S) = Some (ar_registry a) \<and>
        served_arrival E D (se_servicer S) ctx a) \<or>
     client_arrival E cfg a \<and> same_policy (ar_registry a) (build_group_registry cfg) \<and>
       (\<exists>fp. resolve_peer_id_by_fingerprint (build_group_registry cfg) fp = Some (ar_peer a))) \<and>
    (if pub_exchange p = Cot_Parser then bus_inject_cot (en_bus X) \<or> decode_contact_entry (ar_message a) \<noteq> None
     else \<exists>gs. map_inbound_groups (ar_registry a) (ar_peer a) (fe_groups (ar_message a)) = Some gs \<and>
       (if pub_exchange p = Groups then \<not> is_directed (ar_event a) \<and> (\<exists>g \<in> gs. pub_key p = g @ ''.OUT'')
        else \<exists>d j rows. ev_detail (ar_event a) = Some d \<and> j < length (named (marti_cs d)) \<and>
          pub_key p = named (marti_cs d) ! j \<and> set rows \<inter> gs \<noteq> {} \<and>
          (at_query (fst (re_db R j (pub_key p))) = Inr rows \<or> at_query (snd (re_db R j (pub_key p))) = Inr rows)))"
proof -
  obtain a R where acc: "accounted E D cfg X tr (ar_peer a) (ar_event a) a"
    and i: "Injected R (ar_peer a) (ar_event a) \<in> set tr"
    and al: "publication_allowed R (bus_inject_cot (en_bus X)) (ar_event a) (ev_inbound_local_groups (ar_event a)) p"
    using engine_published [OF assms(1,2,4)] assms(3) by (auto simp: explained_def)
  from acc obtain S where S: "service_reach E D (en_service X) S" "arrives E D cfg S a" and a: "Arrived a \<in> set tr"
    by (auto simp: accounted_def)
  have who: "(\<exists>S ctx. service_reach E D (en_service X) S \<and> sv_registry (se_servicer S) = Some (ar_registry a) \<and>
        served_arrival E D (se_servicer S) ctx a) \<or>
     client_arrival E cfg a \<and> same_policy (ar_registry a) (build_group_registry cfg) \<and>
       (\<exists>fp. resolve_peer_id_by_fingerprint (build_group_registry cfg) fp = Some (ar_peer a))"
    using S by (auto simp: arrives_def elim: client_arrival_bound)
  have "if pub_exchange p = Cot_Parser then bus_inject_cot (en_bus X) \<or> decode_contact_entry (ar_message a) \<noteq> None
     else \<exists>gs. map_inbound_groups (ar_registry a) (ar_peer a) (fe_groups (ar_message a)) = Some gs \<and>
       (if pub_exchange p = Groups then \<not> is_directed (ar_event a) \<and> (\<exists>g \<in> gs. pub_key p = g @ ''.OUT'')
        else \<exists>d j rows. ev_detail (ar_event a) = Some d \<and> j < length (named (marti_cs d)) \<and>
          pub_key p = named (marti_cs d) ! j \<and> set rows \<inter> gs \<noteq> {} \<and>
          (at_query (fst (re_db R j (pub_key p))) = Inr rows \<or> at_query (snd (re_db R j (pub_key p))) = Inr rows))"
    using arrival_groups [OF S(2)]
  proof
    assume "\<exists>gs. map_inbound_groups (ar_registry a) (ar_peer a) (fe_groups (ar_message a)) = Some gs \<and>
      ev_inbound_local_groups (ar_event a) = Some (env_it E gs)"
    then obtain gs where gs: "map_inbound_groups (ar_registry a) (ar_peer a) (fe_groups (ar_message a)) = Some gs"
      "ev_inbound_local_groups (ar_event a) = Some (env_it E gs)" by blast
    then have "set (env_it E gs) = gs" "env_it E gs \<noteq> []"
      using map_inbound_groups_some [OF gs(1)] assms(5) [of gs] by auto
    note gs = gs this
    show ?thesis
    proof (cases "pub_exchange p")
      case Dms
      with al gs obtain d j where d: "ev_detail (ar_event a) = Some d" "j < length (named (marti_cs d))"
        "pub_key p = named (marti_cs d) ! j" "reachable R (env_it E gs) j (pub_key p)"
        by (auto simp: publication_allowed_def)
      then obtain rows where "set rows \<inter> gs \<noteq> {}"
        "at_query (fst (re_db R j (pub_key p))) = Inr rows \<or> at_query (snd (re_db R j (pub_key p))) = Inr rows"
        unfolding reachable_def gs(3) by blast
      with d gs(1) have "\<exists>gs. map_inbound_groups (ar_registry a) (ar_peer a) (fe_groups (ar_message a)) = Some gs \<and>
        (\<exists>d j rows. ev_detail (ar_event a) = Some d \<and> j < length (named (marti_cs d)) \<and>
          pub_key p = named (marti_cs d) ! j \<and> set rows \<inter> gs \<noteq> {} \<and>
          (at_query (fst (re_db R j (pub_key p))) = Inr rows \<or> at_query (snd (re_db R j (pub_key p))) = Inr rows))"
        by blast
      with Dms show ?thesis by simp
    qed (use al gs in \<open>auto simp: publication_allowed_def\<close>)
  next
    assume "decode_contact_entry (ar_message a) \<noteq> None \<and> ev_inbound_local_groups (ar_event a) = None"
    with al show ?thesis by (cases "pub_exchange p") (auto simp: publication_allowed_def)
  qed
  moreover have "pub_uid p = ev_uid (ar_event a)" using al by (simp add: publication_allowed_def)
  ultimately show ?thesis using who a i by blast
qed

text \<open>The engine of the samples: one message of the caller, from the wire to the group.\<close>

definition quiet_engine :: engine where
  "quiet_engine = \<lparr> en_service = \<lparr> se_servicer = sample_servicer, se_manager = one_link, se_calls = [] \<rparr>,
     en_bridge = new_bridge, en_bus = sample_bus \<rparr>"

lemma sample_arrival:
  "\<exists>evt x m. stream_event epoch_env sample_servicer (''p'', False) (sample_message ''a-f-G'' ''A'') = Some evt \<and>
     event_as_element evt = Inr x \<and> \<not> is_directed evt \<and> ev_fed_meta evt = Some m \<and> fm_seen m = [] \<and>
     ev_inbound_local_groups evt = Some [''X'']"
proof -
  have t: "ms_to_dt 0 = Inr 0" using ms_to_dt_exact [of 0] by simp
  have g: "map_inbound_groups caller_registry ''p'' [''A''] = Some {''X''}"
    by (simp add: map_inbound_groups_def map_inbound_def caller_registry_def lookup_in_table_def)
  obtain evt m where d: "decode_federated_event epoch_env (sample_message ''a-f-G'' ''A'') 3 = Inr (Some evt, m)"
    "evt = (new_event (Some ''2.0'') (Some ''u1'') (Some ''a-f-G'') (Some ''m-g'') 0 0 0)
       \<lparr> ev_point := \<lparr> pt_lat = Fin 0, pt_lon = Fin 0, pt_hae = Fin 0, pt_ce = Fin 1, pt_le = Fin 1 \<rparr> \<rparr>"
    "fm_seen m = []"
    by (simp add: decode_federated_event_def sample_message_def empty_fed_event_def t or_default_error_def meta_of_def)
  have s: "stream_event epoch_env sample_servicer (''p'', False) (sample_message ''a-f-G'' ''A'') =
      Some ((with_groups epoch_env {''X''} evt)\<lparr> ev_fed_meta := Some m \<rparr>)"
    using g by (simp add: stream_event_def d(1)) (simp add: sample_servicer_def admit_event_def inbound_policy_def
        is_delete_def or_empty_def COT_DELETE_PREFIX_def d(2) new_event_def sample_message_def)
  let ?e = "(with_groups epoch_env {''X''} evt)\<lparr> ev_fed_meta := Some m \<rparr>"
  have "\<exists>x. event_as_element ?e = Inr x"
    by (simp add: d(2) with_groups_def new_event_def event_as_element_def xml_set_opt_def xml_set_def
        xml_text_ok_def xml_char_def time_text_def Let_def)
  moreover have "\<not> is_directed ?e" by (simp add: is_directed_def with_groups_def d(2) new_event_def)
  ultimately show ?thesis using s d(3) by (auto simp: epoch_env_def py_sorted_def)
qed

lemma sample_stamped:
  assumes "fm_seen m = []"
  shows "\<exists>out. stamp_inbound ref_xml sample_filter (xml_tostring ref_xml x) (Some m) = Inr out"
proof -
  have "list_all xml_text_ok (stamp_ids (Some m))" "xml_text_ok (lf_server_id sample_filter)"
    by (simp_all add: assms stamp_ids_def sample_filter_def new_loop_filter_def xml_text_ok_def xml_char_def)
  then show ?thesis
    using stamp_inbound_succeeds [of ref_xml "xml_tostring ref_xml x"]
    by (cases "xml_fromstring ref_xml (xml_tostring ref_xml x)")
      (auto simp: stamp_inbound_def ref_xml_def ref_fromstring_def split: option.splits prod.splits if_splits)
qed

lemma sample_run:
  "\<exists>a tr Y p. engine_reach epoch_env sample_digest 8 sample_config quiet_engine tr Y \<and> bus_published (en_bus Y) = [p] \<and>
     pub_exchange p = Groups \<and> pub_key p = ''X.OUT'' \<and>
     tr = [Arrived a, Injected quiet_env ''p'' (ar_event a)] \<and> ar_registry a = caller_registry \<and> ar_peer a = ''p'' \<and> ar_message a = sample_message ''a-f-G'' ''A''"
proof -
  obtain evt x m where e: "stream_event epoch_env sample_servicer (''p'', False) (sample_message ''a-f-G'' ''A'') = Some evt"
    "event_as_element evt = Inr x" "\<not> is_directed evt" "ev_fed_meta evt = Some m" "fm_seen m = []"
    "ev_inbound_local_groups evt = Some [''X'']"
    using sample_arrival by blast
  obtain out where out: "stamp_inbound ref_xml sample_filter (xml_tostring ref_xml x) (Some m) = Inr out"
    using sample_stamped [OF e(5)] by blast
  define a where "a = \<lparr> ar_registry = caller_registry, ar_peer = ''p'',
    ar_message = sample_message ''a-f-G'' ''A'', ar_event = evt \<rparr>"
  define p where "p = \<lparr> pub_exchange = Groups, pub_key = ''X.OUT'', pub_uid = ev_uid evt, pub_cot = out \<rparr>"
  have "served_arrival epoch_env sample_digest sample_servicer sample_caller a"
    by (simp add: served_arrival_def sample_authenticated a_def e(1))
  then have ar: "arrives epoch_env sample_digest sample_config (en_service quiet_engine) a"
    by (auto simp: arrives_def quiet_engine_def a_def)
  let ?q = "enqueue_send False 8 (enqueue_put ''p'' evt new_bridge)"
  let ?r = "drain_read Read_All ?q"
  have i: "inject epoch_env quiet_env ''p'' evt (ev_inbound_local_groups evt) sample_bus =
      (None, sample_bus\<lparr> bus_published := [p] \<rparr>)"
    by (simp add: inject_def evt_to_xml_def should_inject_inbound_def stamped_xml_def e out sample_bus_def epoch_env_def
        bus_connect_def new_bus_def inject_publish_def quiet_env_def Let_def message_def p_def)
  have "engine_reach epoch_env sample_digest 8 sample_config quiet_engine ([] @ [Arrived a])
      (quiet_engine\<lparr> en_bridge := enqueue_put (ar_peer a) (ar_event a) (en_bridge quiet_engine) \<rparr>)"
    by (rule er_arrival [OF er_start ar])
  then have "engine_reach epoch_env sample_digest 8 sample_config quiet_engine [Arrived a]
      (quiet_engine\<lparr> en_bridge := enqueue_put ''p'' evt new_bridge \<rparr>)"
    by (simp add: a_def quiet_engine_def)
  from er_wake [OF this, of False] have "engine_reach epoch_env sample_digest 8 sample_config quiet_engine [Arrived a] (quiet_engine\<lparr> en_bridge := ?q \<rparr>)"
    by (simp add: enqueue_put_def)
  from er_read [OF this, of Read_All] have r: "engine_reach epoch_env sample_digest 8 sample_config quiet_engine [Arrived a] (quiet_engine\<lparr> en_bridge := ?r \<rparr>)"
    by (simp add: enqueue_put_def enqueue_send_def new_bridge_def)
  obtain b where b: "drain_pop ?r = (Some (''p'', evt), b)" "br_pc ?r = Drain_Popping"
    by (simp add: bridge_steps new_bridge_def)
  have "engine_reach epoch_env sample_digest 8 sample_config quiet_engine ([Arrived a] @ [Injected quiet_env ''p'' evt])
      (quiet_engine\<lparr> en_bridge := ?r \<rparr>\<lparr> en_bridge := b, en_bus := sample_bus\<lparr> bus_published := [p] \<rparr> \<rparr>)"
    using b i by (intro er_inject [OF r]) (simp_all add: quiet_engine_def)
  moreover have "pub_exchange p = Groups" "pub_key p = ''X.OUT''" by (simp_all add: p_def)
  moreover have "ar_registry a = caller_registry" "ar_peer a = ''p''" "ar_message a = sample_message ''a-f-G'' ''A''"
    by (simp_all add: a_def)
  moreover have "[Arrived a] @ [Injected quiet_env ''p'' evt] = [Arrived a, Injected quiet_env ''p'' (ar_event a)]"
    by (simp add: a_def)
  ultimately show ?thesis by fastforce
qed

theorem published_events_were_admitted_witness:
  "\<exists>a tr Y p. engine_reach epoch_env sample_digest 8 sample_config quiet_engine tr Y \<and> Arrived a \<in> set tr \<and>
     bus_published (en_bus Y) = [p] \<and> pub_key p = ''X.OUT'' \<and> pub_uid p = ev_uid (ar_event a)"
proof -
  obtain a tr Y p where r: "engine_reach epoch_env sample_digest 8 sample_config quiet_engine tr Y" "bus_published (en_bus Y) = [p]"
    "pub_key p = ''X.OUT''" using sample_run by blast
  have "br_queue (en_bridge quiet_engine) = []" "bus_published (en_bus quiet_engine) = []" "p \<in> set (bus_published (en_bus Y))"
    by (simp_all add: quiet_engine_def new_bridge_def sample_bus_def bus_connect_def new_bus_def r(2))
  from published_events_were_admitted [OF r(1) this] obtain b where
    "Arrived b \<in> set tr" "pub_uid p = ev_uid (ar_event b)" by (auto simp: epoch_env_def py_sorted_def)
  with r show ?thesis by blast
qed

section \<open>From a local client to the peers\<close>

text \<open>
  C2. What is sent to a peer is local and permitted. In every reachable state, handling a
  message of the firehose appends at most one message to the queue of a link that is bound
  to a peer, and only to the link of an open call that is not in quarantine; the ACL groups of
  the uid the firehose message has were cached under it or are the rows the database has for it, and
  the groups the peer's message is tagged with are exactly those that the outbound policy
  of that peer makes of them.
\<close>

theorem sent_events_are_permitted:
  assumes "engine_reach E D cap cfg X tr Y" "service_ok (en_service X)" "cache_inv (bus_cache (en_bus X))"
    and "consume_one E d (en_bus Y, se_manager (en_service Y)) = Inr (bus, m)"
    and "dget (mg_links (se_manager (en_service Y))) i = Some l" "link_bound (Some (de_registry d)) l = Some (r, pid)"
  shows "\<exists>l' new. dget (mg_links m) i = Some l' \<and> il_outq l' = il_outq l @ new \<and> length new \<le> 1 \<and>
    list_all (\<lambda>p. fe_groups p \<noteq> [] \<and>
      (\<exists>c. c \<in> set (se_calls (en_service Y)) \<and> \<not> cc_quarantined c \<and> cc_link c = i) \<and>
      (\<exists>uid cot S. de_body d = Message uid cot \<and>
        acl_known (de_now d) (de_db d) (bus_cache (en_bus Y)) (message_uid uid) S \<and>
        set (fe_groups p) = {g. \<exists>a \<in> set (env_it E S). map_outbound r pid a = Some g})) new"
proof -
  let ?S = "en_service Y"
  have ok: "service_ok ?S" using service_reach_ok [OF engine_service [OF assms(1)] assms(2)] .
  then have mok: "manager_ok (se_manager ?S)" by (simp add: service_ok_def)
  have c: "cache_inv (bus_cache (en_bus Y))" using engine_cache [OF assms(1,3)] .
  from consume_one_steps [OF assms(4)] show ?thesis
  proof
    assume "m = se_manager ?S \<and> on_firehose_message E (de_now d) (de_db d) (de_body d) (en_bus Y) = Inr (None, bus)"
    with assms(5) show ?thesis by auto
  next
    assume "\<exists>evt. m = on_outbound E (Some (de_registry d)) No_Source evt (se_manager ?S) \<and>
      on_firehose_message E (de_now d) (de_db d) (de_body d) (en_bus Y) = Inr (Some evt, bus)"
    then obtain evt where evt: "m = on_outbound E (Some (de_registry d)) No_Source evt (se_manager ?S)"
      "on_firehose_message E (de_now d) (de_db d) (de_body d) (en_bus Y) = Inr (Some evt, bus)" by blast
    from firehose_answer [OF c, of E "de_now d" "de_db d" "de_body d"] evt(2) obtain evt0 S where
      S: "relayed_event E (de_now d) (bus_filter (en_bus Y)) (de_body d) = Some evt0"
        "ev_local_acl_groups evt = Some (env_it E S)"
        "acl_known (de_now d) (de_db d) (bus_cache (en_bus Y)) (body_uid (de_body d)) S"
      by (auto split: option.splits)
    from S(1) obtain uid cot where m: "de_body d = Message uid cot" by (auto simp: relayed_event_def split: body.splits)
    with S(3) have known: "acl_known (de_now d) (de_db d) (bus_cache (en_bus Y)) (message_uid uid) S" by (simp add: body_uid_def)
    let ?g = "link_gate E (Some (de_registry d)) l evt"
    let ?l = "link_send_event E (Some (de_registry d)) evt l"
    have q: "il_outq ?l = il_outq l @ (case ?g of None \<Rightarrow> [] | Some p \<Rightarrow> [p])" by (rule inbound.send_queue)
    show ?thesis
    proof (cases "fanned_to (se_manager ?S) No_Source i")
      case False
      with evt(1) assms(5) show ?thesis by (auto simp: on_outbound_link [OF mok])
    next
      case True
      then obtain k where "i \<in> set (links_of (se_manager ?S) k)" by (auto simp: fanned_to_def)
      then have call: "\<exists>c. c \<in> set (se_calls ?S) \<and> \<not> cc_quarantined c \<and> cc_link c = i"
        using ok by (auto simp: service_ok_def)
      have "dget (mg_links m) i = Some ?l" using True evt(1) assms(5) by (simp add: on_outbound_link [OF mok])
      moreover have "fe_groups p \<noteq> [] \<and> set (fe_groups p) = {g. \<exists>a \<in> set (env_it E S). map_outbound r pid a = Some g}"
        if "?g = Some p" for p
        using inbound_policy.gate_tags [OF that assms(6)] S(2) by auto
      ultimately show ?thesis using q call m known
        by (intro exI [of _ ?l] exI [of _ "case ?g of None \<Rightarrow> [] | Some p \<Rightarrow> [p]"]) (auto split: option.split)
    qed
  qed
qed

text \<open>The caller's call is open; a local client of group \<open>g\<close>, which is sent to the peer as \<open>b\<close>, sends an event.\<close>

definition calling_engine :: engine where
  "calling_engine = \<lparr> en_service = opened, en_bridge = new_bridge, en_bus = firehose_bus \<rparr>"

definition local_delivery :: delivery where
  "local_delivery = \<lparr> de_registry = served_registry\<lparr> r_outbound := [(''p'', [(''g'', ''b'')])] \<rparr>, de_now = 7,
     de_db = no_rows, de_body = Message (Some (Text ''u1'')) (Some (Text local_text)) \<rparr>"

lemma local_prepared:
  assumes "parse_cot_xml lax_env local_text = Some e"
  shows "\<exists>p. prepare_outbound_event lax_env (e\<lparr> ev_local_acl_groups := Some [''g''] \<rparr>) ''n'' 3
    (Some (de_registry local_delivery)) ''p'' = Inr (Some p)"
proof -
  have e: "e = new_event None (Some ''u1'') (Some ''a'') None 0 0 0"
    using assms by (simp add: parse_cot_xml_def local_text_parses split: if_splits)
      (simp add: event_from_elm_def local_elem_def time_attr_def elem_get_def unmarshal_def lax_env_def)
  let ?m = "relay_meta ''n'' 3 None"
  have "int64_ok (fm_max_hops ?m)" "int64_ok (fm_current_hops ?m)" by (simp_all add: relay_meta_def int64_ok_def)
  then have "\<exists>p. encode_federated_event lax_env (e\<lparr> ev_local_acl_groups := Some [''g''] \<rparr>) (Some ?m) = Inr p"
    by (simp add: e new_event_def encode_federated_event_def base_geo_def detail_to_xml_string_def Let_def)
  moreover have "ev_fed_meta e = None" by (simp add: e new_event_def)
  ultimately show ?thesis
    by (auto simp: prepare_outbound_event_def loop_drop_def hop_drop_def group_hop_drop_def outbound_groups_def
        local_delivery_def map_outbound_def Let_def)
qed

lemma local_consumed:
  "\<exists>bus m l. consume_one lax_env local_delivery (firehose_bus, se_manager opened) = Inr (bus, m) \<and>
     dget (mg_links m) 0 = Some l \<and> length (il_outq l) = 1"
proof -
  let ?msg = "Message (Some (Text ''u1'')) (Some (Text local_text))"
  obtain evt bus where f: "on_firehose_message lax_env 7 no_rows ?msg firehose_bus = Inr (Some evt, bus)"
    using local_event_forwarded by blast
  note c = firehose_bus_view
  have "clean_for_relay (env_xml lax_env) local_text = local_text"
    by (simp add: clean_for_relay_def local_text_parses local_elem_bare)
  with firehose_answer [OF c(1), of lax_env 7 no_rows ?msg] f c(2)
  obtain e where e: "parse_cot_xml lax_env local_text = Some e" "evt = e\<lparr> ev_local_acl_groups := Some (env_it lax_env {''g''}) \<rparr>"
    by (auto simp: no_rows_def quiet_env_def relayed_event_def body_uid_def message_uid_def acl_known_def split: option.splits if_splits)
  then have evt: "evt = e\<lparr> ev_local_acl_groups := Some [''g''] \<rparr>" by (simp add: lax_env_def py_sorted_def)
  obtain p where p: "prepare_outbound_event lax_env evt ''n'' 3 (Some (de_registry local_delivery)) ''p'' = Inr (Some p)"
    using local_prepared [OF e(1)] evt by blast
  let ?m = "on_outbound lax_env (Some (de_registry local_delivery)) No_Source evt (se_manager opened)"
  have "consume_one lax_env local_delivery (firehose_bus, se_manager opened) = Inr (bus, ?m)"
    using f by (simp add: consume_one_def) (simp add: local_delivery_def)
  moreover have "service_ok opened"
    using service_reach_ok [OF opened_reach [unfolded idle_def] new_service_ok] .
  then have "manager_ok (se_manager opened)" "fanned_to (se_manager opened) No_Source 0"
    using call_link [of opened sample_call] by (simp add: service_ok_def)
      (use \<open>service_ok opened\<close> call_link [of opened sample_call] in \<open>auto simp: opened_state sample_call_def fanned_to_def source_peer_id_def\<close>)
  then have "dget (mg_links ?m) 0 = Some (link_send_event lax_env (Some (de_registry local_delivery)) evt sample_link)"
    by (simp add: on_outbound_link opened_state)
  moreover have "link_gate lax_env (Some (de_registry local_delivery)) sample_link evt = Some p" "il_outq sample_link = []"
    using p by (simp_all add: link_gate_def link_registry_def sample_link_def new_inbound_link_def)
  ultimately show ?thesis by (auto simp: inbound.send_queue)
qed

theorem sent_events_are_permitted_witness:
  "\<exists>bus m l p. consume_one lax_env local_delivery (firehose_bus, se_manager opened) = Inr (bus, m) \<and>
     dget (mg_links m) 0 = Some l \<and> il_outq l = [p] \<and> fe_groups p \<noteq> []"
proof -
  obtain bus m l where r: "consume_one lax_env local_delivery (firehose_bus, se_manager opened) = Inr (bus, m)"
    "dget (mg_links m) 0 = Some l" "length (il_outq l) = 1" using local_consumed by blast
  have "service_ok (en_service calling_engine)"
    using service_reach_ok [OF opened_reach [unfolded idle_def] new_service_ok] by (simp add: calling_engine_def)
  moreover have "cache_inv (bus_cache (en_bus calling_engine))"
    by (simp add: calling_engine_def firehose_bus_def cache_inv_update cache_inv_new)
  moreover have "link_bound (Some (de_registry local_delivery)) sample_link = Some (de_registry local_delivery, ''p'')"
    by (simp add: link_bound_def link_registry_def sample_link_def new_inbound_link_def)
  ultimately obtain l' new where n: "dget (mg_links m) 0 = Some l'" "il_outq l' = il_outq sample_link @ new"
    "list_all (\<lambda>p. fe_groups p \<noteq> []) new"
    using sent_events_are_permitted [OF er_start, of calling_engine lax_env local_delivery bus m 0 sample_link
        "de_registry local_delivery" "''p''"] r(1)
    by (auto simp: calling_engine_def opened_state list_all_iff)
  with r(2,3) have "length new = 1" "il_outq l = new" by (simp_all add: sample_link_def new_inbound_link_def)
  with n(3) r(1,2) show ?thesis by (cases new) auto
qed

end
