(* ===== verification/Typed_Links.thy ===== *)
theory Typed_Links
  imports Fed_Service
begin

text \<open>
  The type of what is streamed: every message that waits on a link, and so every one a call
  yields, fits the fields of the protocol, whatever the events were it was made from.
\<close>

section \<open>Well-typed messages\<close>

text \<open>
  A message of a node: its numbers fit their fields, it has an event, its provenance ends in
  the node and names it only there, and its hops are within the limit unless it starts here.
\<close>

definition message_ok :: "string \<Rightarrow> fed_event \<Rightarrow> bool" where
  "message_ok node p =
     (wire_ok p \<and> fe_event p \<noteq> None \<and> fe_contact p = None \<and>
      fe_provenance p \<noteq> [] \<and> last (fe_provenance p) = node \<and> node \<notin> set (butlast (fe_provenance p)) \<and>
      (case fe_hops p of
         None \<Rightarrow> False
       | Some h \<Rightarrow> butlast (fe_provenance p) = [] \<or> fh_maxHops h = - 1 \<or> fh_currentHops h \<le> fh_maxHops h))"

lemma encode_typed:
  assumes "encode_federated_event E evt (Some m) = Inr p"
  shows "wire_ok p" "fe_event p \<noteq> None" "fe_contact p = None" "fe_provenance p = fm_seen m"
    "fe_hops p = Some \<lparr> fh_maxHops = fm_max_hops m, fh_currentHops = fm_current_hops m \<rparr>"
proof -
  define geo where "geo = (case ev_detail evt of Some (Tak_User u) \<Rightarrow> set_user_fields u (base_geo evt) | _ \<Rightarrow> base_geo evt)"
  have "int32_ok (ge_battery geo)"
    by (auto simp: geo_def set_user_fields_def base_geo_def int32_ok_def split: option.split detail.split)
  moreover from assms have "int64_ok (ge_sendTime geo) \<and> int64_ok (ge_startTime geo) \<and> int64_ok (ge_staleTime geo)"
    by (simp add: encode_federated_event_def Let_def geo_def split: if_splits)
  ultimately show "wire_ok p" "fe_event p \<noteq> None" "fe_contact p = None" "fe_provenance p = fm_seen m"
    "fe_hops p = Some \<lparr> fh_maxHops = fm_max_hops m, fh_currentHops = fm_current_hops m \<rparr>"
    using encode_Inr [OF assms] by (auto simp: wire_ok_def geo_ok_def hops_ok_def geo_def [symmetric])
qed

lemma prepare_typed:
  assumes "prepare_outbound_event E evt node dmh reg pid = Inr (Some p)"
  shows "message_ok node p"
proof -
  obtain rg q where d: "\<not> loop_drop node (ev_fed_meta evt)" "\<not> hop_drop (ev_fed_meta evt)"
    and q: "encode_federated_event E evt (Some (relay_meta node dmh (ev_fed_meta evt))) = Inr q"
    and p: "p = (case rg of None \<Rightarrow> q | Some gs \<Rightarrow> q\<lparr> fe_groups := gs \<rparr>)"
    by (rule prepare_Some [OF assms])
  have "message_ok node q"
    using encode_typed [OF q] d
    by (cases "ev_fed_meta evt") (auto simp: message_ok_def relay_meta_def loop_drop_def hop_drop_def)
  with p show ?thesis by (cases rg) (simp_all add: message_ok_def wire_ok_def cong: option.case_cong)
qed

section \<open>Typed links\<close>

definition link_typed :: "string \<Rightarrow> inbound_link \<Rightarrow> bool" where
  "link_typed node l = (il_node_id l = node \<and> list_all (message_ok node) (il_outq l))"

definition service_typed :: "string \<Rightarrow> service \<Rightarrow> bool" where
  "service_typed node S =
     (sv_server_id (se_servicer S) = node \<and> (\<forall>i l. dget (mg_links (se_manager S)) i = Some l \<longrightarrow> link_typed node l))"

lemma send_typed: "link_typed node l \<Longrightarrow> link_typed node (link_send_event E reg evt l)"
  by (auto simp: link_typed_def link_send_event_def dest: prepare_typed split: sum.split option.split)

lemma drain_typed:
  "drain_outbound n l = (ps, l') \<Longrightarrow> link_typed node l \<Longrightarrow> list_all (message_ok node) ps \<and> link_typed node l'"
  by (induction n arbitrary: l ps l') (auto simp: link_typed_def split: if_splits list.splits prod.splits)

lemma turns_typed:
  assumes "service_typed node S"
  shows "list_all (message_ok node) (fst (client_call_turns n c (se_manager S)))"
    "service_typed node (with_manager (\<lambda>m. snd (client_call_turns n c m)) S)"
  using assms
  by (auto simp: client_call_turns_def service_typed_def with_manager_def dest: drain_typed split: option.split prod.split)

lemma register_peer_addr_id [simp]: "sv_server_id (register_peer_addr ctx pid sv) = sv_server_id sv"
  by (simp add: register_peer_addr_def split: option.split)

lemma announced_id [simp]: "sv_server_id (fst (ClientFederateGroupsStream D v ctx msgs ended sv)) = sv_server_id sv"
proof -
  have "sv_server_id (fold (\<lambda>remote_groups sv. case sv_registry sv of None \<Rightarrow> sv
      | Some r \<Rightarrow> if q then sv else sv\<lparr> sv_registry := Some (update_from_federate_groups pid remote_groups r) \<rparr>) msgs sv) = sv_server_id sv" for q pid
    by (induction msgs arbitrary: sv) (simp_all split: option.split)
  then show ?thesis by (simp add: ClientFederateGroupsStream_def Let_def split: prod.split)
qed

lemma announcing_id [simp]: "sv_server_id (snd (ServerFederateGroupsStream D ctx sub sv)) = sv_server_id sv"
  by (simp add: ServerFederateGroupsStream_def Let_def split: prod.split)

lemma service_step_typed:
  assumes "service_step E D S T" "service_ok S" "service_typed node S"
  shows "service_typed node T"
  using assms
proof (induction rule: service_step.induct)
  case (st_open S ctx sub)
  then show ?case
    by (auto simp: service_open_def client_call_open_def service_typed_def create_link_def register_inbound_link_def
        new_inbound_link_def link_typed_def Let_def split: prod.split)
next
  case (st_turns c S n)
  then show ?case by (simp add: turns_typed)
next
  case (st_done c S)
  then show ?case by (auto simp: service_typed_def with_manager_def client_call_done_def link_request_stop_def link_typed_def)
next
  case (st_close c S)
  then show ?case
    by (auto simp: service_typed_def service_close_def client_call_close_def deregister_inbound_link_def Let_def split: if_splits)
next
  case (st_fan S src evt)
  then have "manager_ok (se_manager S)" by (simp add: service_ok_def)
  with st_fan show ?case
    by (auto simp: service_typed_def with_manager_def on_outbound_link send_typed split: if_splits)
next
  case (st_groups_in S v ctx msgs ended)
  then show ?case by (simp add: service_typed_def)
next
  case (st_groups_out S ctx sub)
  then show ?case by (simp add: service_typed_def)
next
  case (st_clients S f)
  then show ?case by (simp add: service_typed_def with_manager_def)
qed

lemma service_reach_typed:
  "service_reach E D S T \<Longrightarrow> service_ok S \<Longrightarrow> service_typed node S \<Longrightarrow> service_typed node T"
  by (induction rule: service_reach.induct) (auto intro: service_step_typed service_reach_ok)

text \<open>
  C11. Every message that a call streams is well-typed: in every reachable state, whatever
  events were fanned out, the messages it yields fit the fields of the protocol, carry an event
  and no contact, end their provenance in the id of this server, which was not in it before,
  and have not used more hops than their limit, unless they start here.
\<close>

theorem streamed_messages_are_well_typed:
  assumes "service_reach E D (new_service cfg reg) S"
  shows "list_all (message_ok (fc_server_id cfg)) (fst (client_call_turns n c (se_manager S)))"
proof -
  have "service_typed (fc_server_id cfg) (new_service cfg reg)"
    by (simp add: service_typed_def new_service_def new_servicer_def new_manager_def)
  from turns_typed(1) [OF service_reach_typed [OF assms new_service_ok this]] show ?thesis .
qed

theorem streamed_messages_are_well_typed_witness:
  "list_all (message_ok ''n'')
     (fst (client_call_turns 1 sample_call (on_outbound epoch_env (Some served_registry) No_Source sample_out (se_manager opened))))"
proof -
  have "service_step epoch_env sample_digest opened
      (with_manager (on_outbound epoch_env (sv_registry (se_servicer opened)) No_Source sample_out) opened)" by (rule st_fan)
  from streamed_messages_are_well_typed [OF sr_step [OF opened_reach this, unfolded idle_def], of 1 sample_call]
  show ?thesis by (simp add: opened_state with_manager_def)
qed

end
