(* ===== verification/File_System.thy ===== *)
theory File_System
  imports Prelude
begin

text \<open>
  The file system as the command line tools use it: what \<open>os.path\<close> computes on path names,
  and files with their mode under the components of an absolute path, where two slashes are
  one and dot-dot goes up. Directories are never in the way of permissions, and there are no
  symbolic links. An operation of the tools is a function on file systems with a result, an
  \<open>io\<close>.
\<close>

section \<open>Path names\<close>

text \<open>\<open>os.path.normpath\<close>: the components that are left, \<open>acc\<close> those kept so far, in reverse.\<close>

fun norm_parts :: "bool \<Rightarrow> string list \<Rightarrow> string list \<Rightarrow> string list" where
  "norm_parts absolute acc [] = rev acc"
| "norm_parts absolute acc (c # cs) =
     (if c = [] \<or> c = ''.'' then norm_parts absolute acc cs
      else if c \<noteq> ''..'' \<or> (\<not> absolute \<and> acc = []) \<or> (acc \<noteq> [] \<and> hd acc = ''..'')
      then norm_parts absolute (c # acc) cs
      else norm_parts absolute (tl acc) cs)"

definition is_abs :: "string \<Rightarrow> bool" where
  "is_abs p = py_startswith p ''/''"

text \<open>Exactly two leading slashes are kept, as POSIX allows.\<close>

definition leading_slashes :: "string \<Rightarrow> nat" where
  "leading_slashes p =
     (if \<not> is_abs p then 0 else if py_startswith p ''//'' \<and> \<not> py_startswith p ''///'' then 2 else 1)"

definition normpath :: "string \<Rightarrow> string" where
  "normpath p =
     (if p = [] then ''.''
      else (let s = replicate (leading_slashes p) (CHR ''/'') @
                    py_join (CHR ''/'') (norm_parts (is_abs p) [] (py_split (CHR ''/'') p)) in
            if s = [] then ''.'' else s))"

definition path_join :: "string \<Rightarrow> string \<Rightarrow> string" where
  "path_join a b =
     (if is_abs b then b
      else if a = [] \<or> last a = CHR ''/'' then a @ b
      else a @ CHR ''/'' # b)"

definition abspath :: "string \<Rightarrow> string \<Rightarrow> string" where
  "abspath cwd p = normpath (if is_abs p then p else path_join cwd p)"

text \<open>Where the system finds an absolute path.\<close>

definition locate :: "string \<Rightarrow> string list" where
  "locate p = norm_parts True [] (py_split (CHR ''/'') p)"

section \<open>Files\<close>

text \<open>A file has its content, as bytes, and its mode.\<close>

datatype node = Dir | File string nat

type_synonym fs = "(string list, node) dict"

definition node_at :: "fs \<Rightarrow> string list \<Rightarrow> node option" where
  "node_at F ps = (if ps = [] then Some Dir else dget F ps)"

type_synonym 'a io = "fs \<Rightarrow> (py_error + 'a) \<times> fs"

definition io_return :: "'a \<Rightarrow> 'a io" where
  "io_return x F = (Inr x, F)"

definition io_raise :: "py_error \<Rightarrow> 'a io" where
  "io_raise e F = (Inl e, F)"

text \<open>A computation that touches no file.\<close>

definition io_of :: "py_error + 'a \<Rightarrow> 'a io" where
  "io_of r F = (r, F)"

definition io_bind :: "'a io \<Rightarrow> ('a \<Rightarrow> 'b io) \<Rightarrow> 'b io" where
  "io_bind m f F = (case m F of (Inl e, F') \<Rightarrow> (Inl e, F') | (Inr x, F') \<Rightarrow> f x F')"

fun make_dirs :: "string list \<Rightarrow> string list \<Rightarrow> unit io" where
  "make_dirs pre [] F = (Inr (), F)"
| "make_dirs pre (c # cs) F =
     (case node_at F (pre @ [c]) of
        None \<Rightarrow> make_dirs (pre @ [c]) cs (dset (pre @ [c]) Dir F)
      | Some Dir \<Rightarrow> make_dirs (pre @ [c]) cs F
      | Some (File _ _) \<Rightarrow> (Inl OSError, F))"

text \<open>\<open>os.makedirs(path, exist_ok=True)\<close>\<close>

definition makedirs :: "string \<Rightarrow> unit io" where
  "makedirs p = make_dirs [] (locate p)"

text \<open>
  Opening to write and writing: an existing file keeps its mode and is replaced, or with
  \<open>O_EXCL\<close> refused; a new one gets the mode that \<open>umask\<close> leaves of the requested one.
\<close>

definition write_file :: "(nat \<Rightarrow> nat) \<Rightarrow> bool \<Rightarrow> nat \<Rightarrow> string \<Rightarrow> string \<Rightarrow> unit io" where
  "write_file umask excl mode p c F =
     (let ps = locate p in
      if ps = [] \<or> node_at F (butlast ps) \<noteq> Some Dir then (Inl OSError, F)
      else (case node_at F ps of
              None \<Rightarrow> (Inr (), dset ps (File c (umask mode)) F)
            | Some Dir \<Rightarrow> (Inl OSError, F)
            | Some (File _ m) \<Rightarrow> if excl then (Inl OSError, F) else (Inr (), dset ps (File c m) F)))"

definition read_file :: "string \<Rightarrow> string io" where
  "read_file p F =
     ((case node_at F (locate p) of Some (File c _) \<Rightarrow> Inr c | _ \<Rightarrow> Inl OSError), F)"

definition is_file :: "fs \<Rightarrow> string \<Rightarrow> bool" where
  "is_file F p = (case node_at F (locate p) of Some (File _ _) \<Rightarrow> True | _ \<Rightarrow> False)"

definition is_dir :: "fs \<Rightarrow> string \<Rightarrow> bool" where
  "is_dir F p = (node_at F (locate p) = Some Dir)"

definition path_exists :: "fs \<Rightarrow> string \<Rightarrow> bool" where
  "path_exists F p = (node_at F (locate p) \<noteq> None)"

definition list_dir :: "fs \<Rightarrow> string \<Rightarrow> string list" where
  "list_dir F p = py_sorted {n. locate p @ [n] \<in> set (map fst F)}"

text \<open>Inside of a tree, itself included.\<close>

definition inside :: "string list \<Rightarrow> string list \<Rightarrow> bool" where
  "inside tree ps = prefix tree ps"

section \<open>Lemmas on paths\<close>

definition plain :: "string \<Rightarrow> bool" where
  "plain c = (c \<noteq> [] \<and> c \<noteq> ''.'' \<and> c \<noteq> ''..'')"

lemma not_plain [simp]: "\<not> plain []" "\<not> plain ''.''" "\<not> plain ''..''"
  by (simp_all add: plain_def)

text \<open>One component, on a stack of plain ones.\<close>

lemma norm_parts_plain [simp]: "plain c \<Longrightarrow> norm_parts True acc (c # cs) = norm_parts True (c # acc) cs"
  by (simp add: plain_def)

lemma norm_parts_up:
  "list_all plain acc \<Longrightarrow> norm_parts True acc (''..'' # cs) = norm_parts True (tl acc) cs"
  by (cases acc) auto

lemma norm_parts_skip: "c = [] \<or> c = ''.'' \<Longrightarrow> norm_parts True acc (c # cs) = norm_parts True acc cs"
  by auto

lemma component_cases:
  obtains "plain c" | "c = [] \<or> c = ''.''" | "c = ''..''"
  by (auto simp: plain_def)

lemma norm_parts_clean: "list_all plain acc \<Longrightarrow> list_all plain (norm_parts True acc cs)"
proof (induction cs arbitrary: acc)
  case (Cons c cs)
  have "list_all plain (tl acc)" using Cons.prems by (cases acc) auto
  with Cons show ?case
    by (cases c rule: component_cases) (simp_all add: norm_parts_up norm_parts_skip del: norm_parts.simps)
qed (auto simp: list_all_iff)

lemma norm_parts_id: "list_all plain cs \<Longrightarrow> norm_parts True acc cs = rev acc @ cs"
  by (induction cs arbitrary: acc) (simp_all del: norm_parts.simps(2))

lemma norm_parts_append:
  "list_all plain acc \<Longrightarrow> norm_parts True acc (xs @ ys) = norm_parts True (rev (norm_parts True acc xs)) ys"
proof (induction xs arbitrary: acc)
  case (Cons c xs)
  have "list_all plain (tl acc)" using Cons.prems by (cases acc) auto
  with Cons show ?case
    by (cases c rule: component_cases) (simp_all add: norm_parts_up norm_parts_skip del: norm_parts.simps)
qed simp

lemma norm_parts_mem:
  "list_all plain acc \<Longrightarrow> c \<in> set (norm_parts True acc cs) \<Longrightarrow> c \<in> set acc \<union> set cs"
proof (induction cs arbitrary: acc)
  case (Cons d cs)
  have t: "list_all plain (tl acc)" "set (tl acc) \<subseteq> set acc" using Cons.prems by (cases acc; auto)+
  show ?case
  proof (cases d rule: component_cases)
    case 1
    with Cons.IH [of "d # acc"] Cons.prems show ?thesis by (auto simp del: norm_parts.simps)
  next
    case 2
    with Cons.IH [of acc] Cons.prems show ?thesis by (auto simp: norm_parts_skip simp del: norm_parts.simps)
  next
    case 3
    with Cons.IH [OF t(1)] Cons.prems t(2) show ?thesis by (auto simp: norm_parts_up simp del: norm_parts.simps)
  qed
qed simp

definition component :: "string \<Rightarrow> bool" where
  "component c = (plain c \<and> CHR ''/'' \<notin> set c)"

lemma locate_components: "list_all component (locate p)"
  using norm_parts_clean [of "[]" "py_split (CHR ''/'') p"] norm_parts_mem [of "[]" _ "py_split (CHR ''/'') p"]
    py_split_parts [of _ "CHR ''/''" p] by (fastforce simp: locate_def list_all_iff component_def)

text \<open>An absolute path that was normalized stays where it was.\<close>

lemma split_join_components:
  "list_all component cs \<Longrightarrow> py_split (CHR ''/'') (py_join (CHR ''/'') cs) = (if cs = [] then [[]] else cs)"
  using py_split_join [of cs "CHR ''/''"] by (auto simp: list_all_iff component_def)

lemma split_slashes: "py_split (CHR ''/'') (replicate n (CHR ''/'') @ s) = replicate n [] @ py_split (CHR ''/'') s"
  by (induction n) auto

lemma norm_parts_slashes: "norm_parts True acc (replicate n [] @ cs) = norm_parts True acc cs"
  by (induction n) auto

lemma locate_normalized:
  "list_all component cs \<Longrightarrow> locate (replicate n (CHR ''/'') @ py_join (CHR ''/'') cs) = cs"
  using norm_parts_id [of cs "[]"]
  by (auto simp: locate_def split_slashes norm_parts_slashes split_join_components list_all_iff component_def)

lemma normpath_abs:
  assumes "is_abs p"
  shows "normpath p = replicate (leading_slashes p) (CHR ''/'') @ py_join (CHR ''/'') (locate p)" "0 < leading_slashes p"
proof -
  have "p \<noteq> []" using assms by (auto simp: is_abs_def)
  show "0 < leading_slashes p" using assms by (simp add: leading_slashes_def)
  with \<open>p \<noteq> []\<close> assms show "normpath p = replicate (leading_slashes p) (CHR ''/'') @ py_join (CHR ''/'') (locate p)"
    by (simp add: normpath_def locate_def Let_def)
qed

lemma locate_normpath: "is_abs p \<Longrightarrow> locate (normpath p) = locate p"
  using locate_normalized [OF locate_components, of "leading_slashes p" p] by (simp add: normpath_abs)

lemma locate_join_name:
  assumes "component n"
  shows "locate (path_join p n) = locate p @ [n]"
proof -
  have n: "\<not> is_abs n" "CHR ''/'' \<notin> set n" "plain n"
    using assms by (auto simp: component_def is_abs_def elim: prefixE)
  then have s: "py_split (CHR ''/'') n = [n]" by (simp add: py_split_no_sep)
  have c: "list_all plain (rev (norm_parts True [] cs))" for cs using norm_parts_clean [of "[]" cs] by simp
  show ?thesis
  proof (cases "p = [] \<or> last p = CHR ''/''")
    case False
    with n s show ?thesis
      by (simp add: path_join_def locate_def py_split_append_gen norm_parts_append del: norm_parts.simps)
        (simp add: norm_parts_id)
  next
    case True
    then obtain q where "p = [] \<or> p = q @ ''/''" by (cases p rule: rev_cases) auto
    with n s show ?thesis
      by (auto simp: path_join_def locate_def py_split_append_gen norm_parts_append norm_parts_skip simp del: norm_parts.simps)
        (simp_all add: norm_parts_id)
  qed
qed

section \<open>Lemmas on files\<close>

lemma io_bind_Inr:
  "io_bind m f F = (Inr y, F') \<longleftrightarrow> (\<exists>x F1. m F = (Inr x, F1) \<and> f x F1 = (Inr y, F'))"
  by (auto simp: io_bind_def split: prod.splits sum.splits)

lemma io_simps [simp]:
  "io_return x F = (Inr x, F)" "io_raise e F = (Inl e, F)" "io_of r F = (r, F)"
  by (simp_all add: io_return_def io_raise_def io_of_def)

text \<open>
  What a command keeps follows from what its steps keep: a relation between the files before
  and after, which is kept by doing nothing and one after the other, is kept by a sequence.
\<close>

locale io_relation =
  fixes R :: "fs \<Rightarrow> fs \<Rightarrow> bool"
  assumes refl: "R F F"
    and trans: "R F G \<Longrightarrow> R G H \<Longrightarrow> R F H"
begin

lemma bind:
  assumes "\<And>F. R F (snd (m F))" "\<And>x F. R F (snd (f x F))"
  shows "R F (snd (io_bind m f F))"
proof (cases "m F")
  case (Pair r F')
  with assms(1) [of F] have "R F F'" by simp
  with Pair trans [OF this assms(2)] show ?thesis by (cases r) (simp_all add: io_bind_def)
qed

lemma nothing: "R F (snd (io_return x F))" "R F (snd (io_of r F))" "R F (snd (read_file p F))"
  by (simp_all add: refl read_file_def)

end

text \<open>What a successful write leaves: its content, the mode, and every other file as it was.\<close>

definition mode_after :: "fs \<Rightarrow> string list \<Rightarrow> nat \<Rightarrow> nat" where
  "mode_after F ps mode = (case node_at F ps of Some (File _ m) \<Rightarrow> m | _ \<Rightarrow> mode)"

lemma write_file_Inr:
  assumes "write_file umask excl mode p c F = (Inr u, F')"
  shows "node_at F' q = (if q = locate p then Some (File c (mode_after F (locate p) (umask mode))) else node_at F q)"
  using assms by (auto simp: write_file_def node_at_def mode_after_def Let_def split: if_splits option.splits node.splits)

lemma write_file_frame:
  "q \<noteq> locate p \<Longrightarrow> node_at (snd (write_file umask excl mode p c F)) q = node_at F q"
  by (auto simp: write_file_def node_at_def Let_def split: option.split node.split)

text \<open>Making directories keeps what there was, and only adds directories on the way.\<close>

lemma node_at_new: "node_at F p = None \<Longrightarrow> node_at (dset p Dir F) q = (if q = p then Some Dir else node_at F q)"
  by (auto simp: node_at_def split: if_splits)

lemma make_dirs_keeps: "node_at F q = Some n \<Longrightarrow> node_at (snd (make_dirs pre cs F)) q = Some n"
proof (induction pre cs F rule: make_dirs.induct)
  case (2 pre c cs F)
  show ?case
  proof (cases "node_at F (pre @ [c])")
    case None
    with 2(3) have "q \<noteq> pre @ [c]" by auto
    with 2(1) [OF None] 2(3) None show ?thesis by (simp add: node_at_new)
  next
    case (Some n')
    with 2(2,3) show ?thesis by (cases n') auto
  qed
qed simp

lemma make_dirs_new:
  "node_at F q = None \<Longrightarrow> node_at (snd (make_dirs pre cs F)) q \<noteq> None \<Longrightarrow>
   node_at (snd (make_dirs pre cs F)) q = Some Dir \<and> prefix q (pre @ cs)"
proof (induction pre cs F rule: make_dirs.induct)
  case (2 pre c cs F)
  show ?case
  proof (cases "node_at F (pre @ [c])")
    case None
    show ?thesis
    proof (cases "q = pre @ [c]")
      case True
      with None make_dirs_keeps [of "dset (pre @ [c]) Dir F" q Dir "pre @ [c]" cs] show ?thesis by (simp add: node_at_new)
    next
      case False
      with 2(1) [OF None] 2(3,4) None show ?thesis by (simp add: node_at_new)
    qed
  next
    case (Some n)
    with 2(2-4) show ?thesis by (cases n) auto
  qed
qed simp

lemma makedirs_keeps: "node_at F q = Some n \<Longrightarrow> node_at (snd (makedirs p F)) q = Some n"
  by (simp add: makedirs_def make_dirs_keeps)

lemma makedirs_new:
  "node_at F q = None \<Longrightarrow> node_at (snd (makedirs p F)) q = None \<or>
     node_at (snd (makedirs p F)) q = Some Dir \<and> prefix q (locate p)"
  using make_dirs_new [of F q "[]" "locate p"] by (auto simp: makedirs_def)

end
