(* ===== verification/Ini_Reader.thy ===== *)
theory Ini_Reader
  imports Config
begin

text \<open>
  What \<open>configparser.ConfigParser\<close> makes of the text of a file: its sections and options, as
  the dictionaries that the readers of config.py answer from. A line is a comment, blank, a
  continuation of the value above (when it is indented deeper), a section or an option.
  Values are as written: interpolation, which is done when a value is read, leaves those
  without a percent sign alone.
\<close>

section \<open>Lines\<close>

abbreviation nl :: char where "nl \<equiv> CHR 0x0A"

definition is_comment :: "string \<Rightarrow> bool" where
  "is_comment line = (py_startswith (py_strip line) ''#'' \<or> py_startswith (py_strip line) '';'')"

definition indentation :: "string \<Rightarrow> nat" where
  "indentation line = length (takeWhile py_ws line)"

text \<open>\<open>[header]\<close>, up to the last closing bracket, and not empty.\<close>

definition section_header :: "string \<Rightarrow> string option" where
  "section_header value =
     (case value of
        c # rest \<Rightarrow>
          if c = CHR ''['' \<and> CHR '']'' \<in> set rest
          then (let h = rev (tl (dropWhile (\<lambda>x. x \<noteq> CHR '']'') (rev rest))) in if h = [] then None else Some h)
          else None
      | [] \<Rightarrow> None)"

definition delimiter :: "char \<Rightarrow> bool" where
  "delimiter c = (c = CHR ''='' \<or> c = CHR '':'')"

text \<open>Name and value around the first delimiter; the name in lower case.\<close>

definition option_line :: "string \<Rightarrow> (string \<times> string) option" where
  "option_line value =
     (case dropWhile (\<lambda>c. \<not> delimiter c) value of
        [] \<Rightarrow> None
      | _ # v \<Rightarrow> Some (map to_lower (py_rstrip (takeWhile (\<lambda>c. \<not> delimiter c) value)), py_strip v))"

text \<open>
  The state of the reader: sections with the lines of each value, the defaults, where it is,
  the indentation of the last header or option, and whether a line made no sense (which is
  raised at the end).
\<close>

type_synonym raw_section = "(string, string list) dict"

record ini_state =
  is_sections :: "(string, raw_section) dict"
  is_defaults :: raw_section
  is_section :: "string option"
  is_option :: "string option"
  is_indent :: nat
  is_error :: bool

definition new_ini_state :: ini_state where
  "new_ini_state = \<lparr> is_sections = [], is_defaults = [], is_section = None, is_option = None, is_indent = 0, is_error = False \<rparr>"

definition current :: "ini_state \<Rightarrow> raw_section" where
  "current st =
     (case is_section st of
        None \<Rightarrow> []
      | Some s \<Rightarrow> (case dget (is_sections st) s of Some d \<Rightarrow> d | None \<Rightarrow> is_defaults st))"

definition change_current :: "(raw_section \<Rightarrow> raw_section) \<Rightarrow> ini_state \<Rightarrow> ini_state" where
  "change_current f st =
     (case is_section st of
        None \<Rightarrow> st
      | Some s \<Rightarrow>
          (case dget (is_sections st) s of
             Some d \<Rightarrow> st\<lparr> is_sections := dset s (f d) (is_sections st) \<rparr>
           | None \<Rightarrow> st\<lparr> is_defaults := f (is_defaults st) \<rparr>))"

definition append_line :: "string \<Rightarrow> ini_state \<Rightarrow> ini_state" where
  "append_line v st =
     (case is_option st of
        None \<Rightarrow> st
      | Some k \<Rightarrow>
          if k = [] then st
          else change_current (\<lambda>d. dset k ((case dget d k of Some vs \<Rightarrow> vs | None \<Rightarrow> []) @ [v]) d) st)"

definition start_section :: "string \<Rightarrow> ini_state \<Rightarrow> py_error + ini_state" where
  "start_section h st =
     (if dhas (is_sections st) h then Inl ConfigparserError
      else if h = ''DEFAULT'' then Inr (st\<lparr> is_section := Some h, is_option := None \<rparr>)
      else Inr (st\<lparr> is_sections := dset h [] (is_sections st), is_section := Some h, is_option := None \<rparr>))"

definition start_option :: "string \<Rightarrow> string \<Rightarrow> ini_state \<Rightarrow> py_error + ini_state" where
  "start_option k v st =
     (if dhas (current st) k then Inl ConfigparserError
      else Inr ((change_current (dset k [v]) st)\<lparr> is_option := Some k, is_error := is_error st \<or> k = [] \<rparr>))"

definition read_line :: "string \<Rightarrow> ini_state \<Rightarrow> py_error + ini_state" where
  "read_line line st =
     (if is_comment line then Inr st
      else
        (let value = py_strip line in
         if value = [] then Inr (append_line [] st)
         else if is_section st \<noteq> None \<and> is_option st \<noteq> None \<and> is_option st \<noteq> Some [] \<and> is_indent st < indentation line
         then Inr (append_line value st)
         else
           (let st1 = st\<lparr> is_indent := indentation line \<rparr> in
            case section_header value of
              Some h \<Rightarrow> start_section h st1
            | None \<Rightarrow>
                if is_section st1 = None then Inl ConfigparserError
                else (case option_line value of
                        Some (k, v) \<Rightarrow> start_option k v st1
                      | None \<Rightarrow> Inr (st1\<lparr> is_error := True \<rparr>)))))"

fun read_lines :: "string list \<Rightarrow> ini_state \<Rightarrow> py_error + ini_state" where
  "read_lines [] st = Inr st"
| "read_lines (l # ls) st = rbind (read_line l st) (read_lines ls)"

text \<open>The lines of a value are joined, without white space at the end; a section sees the defaults.\<close>

definition joined :: "raw_section \<Rightarrow> (string, string) dict" where
  "joined d = map (\<lambda>(k, vs). (k, py_rstrip (py_join nl vs))) d"

definition with_defaults :: "(string, string) dict \<Rightarrow> (string, string) dict \<Rightarrow> (string, string) dict" where
  "with_defaults defaults d = d @ filter (\<lambda>(k, v). \<not> dhas d k) defaults"

definition text_lines :: "string \<Rightarrow> string list" where
  "text_lines text =
     (let ls = py_split nl text in if last ls = [] then butlast ls else ls)"

definition read_ini :: "string \<Rightarrow> py_error + ini" where
  "read_ini text =
     rbind (read_lines (text_lines text) new_ini_state) (\<lambda>st.
       if is_error st then Inl ConfigparserError
       else Inr (map (\<lambda>(s, d). (s, with_defaults (joined (is_defaults st)) (joined d))) (is_sections st)))"

section \<open>Lemmas\<close>

text \<open>A word: not empty, without white space at its ends and without a line break.\<close>

definition ini_word :: "string \<Rightarrow> bool" where
  "ini_word v = (v \<noteq> [] \<and> trimmed v \<and> nl \<notin> set v)"

text \<open>The text of an option and of a header.\<close>

definition option_text :: "string \<Rightarrow> string \<Rightarrow> string" where
  "option_text k v = k @ '' = '' @ v"

definition section_text :: "string \<Rightarrow> string" where
  "section_text h = ''['' @ h @ '']''"

definition option_name :: "string \<Rightarrow> bool" where
  "option_name k = (k \<noteq> [] \<and> list_all (\<lambda>c. c = CHR ''_'' \<or> 97 \<le> (of_char c :: nat) \<and> (of_char c :: nat) \<le> 122) k)"

lemma py_strip_cons: "\<not> py_ws c \<Longrightarrow> py_strip (c # s) = c # py_rstrip s"
  by (simp add: py_strip_def py_lstrip_def py_rstrip_def dropWhile_append3)

lemma read_comment: "read_line (CHR ''#'' # rest) st = Inr st"
  by (simp add: read_line_def is_comment_def py_strip_cons py_ws_def)

lemma read_blank: "read_line [] st = Inr (append_line [] st)"
  by (simp add: read_line_def is_comment_def)

lemma strip_framed: "\<not> py_ws c \<Longrightarrow> \<not> py_ws d \<Longrightarrow> py_strip (c # s @ [d]) = c # s @ [d]"
  by (simp add: trimmed_def py_strip_trimmed)

lemma read_section:
  assumes "h \<noteq> []"
  shows "read_line (section_text h) st = start_section h (st\<lparr> is_indent := 0 \<rparr>)"
proof -
  have s: "py_strip (section_text h) = CHR ''['' # h @ '']''"
    unfolding section_text_def by (simp add: strip_framed py_ws_def)
  have "indentation (section_text h) = 0" by (simp add: indentation_def section_text_def py_ws_def)
  moreover have "section_header (CHR ''['' # h @ '']'') = Some h" using assms by (simp add: section_header_def Let_def)
  ultimately show ?thesis by (simp add: read_line_def is_comment_def s)
qed

lemma option_name_char:
  assumes "c = CHR ''_'' \<or> 97 \<le> (of_char c :: nat) \<and> (of_char c :: nat) \<le> 122"
  shows "\<not> py_ws c" "\<not> delimiter c" "to_lower c = c" "c \<noteq> CHR ''#''" "c \<noteq> CHR '';''" "c \<noteq> CHR ''[''" "c \<noteq> nl"
  using assms by (auto simp: py_ws_def delimiter_def to_lower_def Let_def)

lemma py_rstrip_trailing: "\<not> py_ws (last s) \<Longrightarrow> py_rstrip (s @ '' '') = s"
  by (cases s rule: rev_cases) (simp_all add: py_rstrip_def py_ws_def)

lemma option_line_text:
  assumes "option_name k" "ini_word v"
  shows "option_line (option_text k v) = Some (k, v)" "py_strip (option_text k v) = option_text k v"
proof -
  have c: "c \<in> set k \<Longrightarrow> c = CHR ''_'' \<or> 97 \<le> (of_char c :: nat) \<and> (of_char c :: nat) \<le> 122" and k: "k \<noteq> []" for c
    using assms(1) by (auto simp: option_name_def list_all_iff)
  have hl: "\<not> py_ws (hd k)" "\<not> py_ws (last k)" using c option_name_char(1) k by auto
  have d: "\<forall>c \<in> set (k @ '' ''). \<not> delimiter c" using c option_name_char(2) by (auto simp: delimiter_def)
  have e: "delimiter (CHR ''='')" by (simp add: delimiter_def)
  have t: "takeWhile (\<lambda>c. \<not> delimiter c) ((k @ '' '') @ ''= '' @ v) = k @ '' ''"
    "dropWhile (\<lambda>c. \<not> delimiter c) ((k @ '' '') @ ''= '' @ v) = ''= '' @ v"
    using d e by (auto simp add: takeWhile_append2 dropWhile_append2)
  have "map to_lower k = k" using c option_name_char(3) by (simp add: map_idI)
  moreover have "py_strip (CHR '' '' # v) = v" using assms(2) by (simp add: py_strip_leading_ws py_ws_def py_strip_trimmed ini_word_def)
  ultimately show "option_line (option_text k v) = Some (k, v)"
    using t hl by (simp add: option_line_def option_text_def py_rstrip_trailing)
  have "trimmed (option_text k v)" using k hl assms(2) by (auto simp: option_text_def trimmed_def ini_word_def)
  then show "py_strip (option_text k v) = option_text k v" by (rule py_strip_trimmed)
qed

lemma read_option:
  assumes "option_name k" "ini_word v" "is_section st \<noteq> None"
  shows "read_line (option_text k v) st = start_option k v (st\<lparr> is_indent := 0 \<rparr>)"
proof -
  obtain c k' where k: "k = c # k'" "c = CHR ''_'' \<or> 97 \<le> (of_char c :: nat) \<and> (of_char c :: nat) \<le> 122"
    using assms(1) by (cases k) (auto simp: option_name_def)
  note n = option_name_char [OF k(2)]
  have "\<not> is_comment (option_text k v)" "option_text k v \<noteq> []" "indentation (option_text k v) = 0" "section_header (option_text k v) = None"
    using n by (simp_all add: is_comment_def option_line_text [OF assms(1,2)] indentation_def section_header_def)
      (simp_all add: option_text_def k(1))
  with assms(3) show ?thesis by (auto simp: read_line_def option_line_text [OF assms(1,2)] Let_def)
qed

text \<open>Lines without a break come back from the text they make.\<close>

definition unlines :: "string list \<Rightarrow> string" where
  "unlines ls = concat (map (\<lambda>l. l @ [nl]) ls)"

lemma split_unlines: "\<forall>l \<in> set ls. nl \<notin> set l \<Longrightarrow> py_split nl (unlines ls) = ls @ [[]]"
  by (induction ls) (simp_all add: unlines_def py_split_append)

lemma text_lines_unlines: "\<forall>l \<in> set ls. nl \<notin> set l \<Longrightarrow> text_lines (unlines ls) = ls"
  by (simp add: text_lines_def split_unlines)

lemma py_rstrip_word: "ini_word v \<Longrightarrow> py_rstrip v = v"
  by (cases v rule: rev_cases) (simp_all add: py_rstrip_def ini_word_def trimmed_def)

lemma joined_word: "ini_word v \<Longrightarrow> py_rstrip (py_join nl [v]) = v"
  by (simp add: py_rstrip_word)

lemma joined_word_blank: "ini_word v \<Longrightarrow> py_rstrip (py_join nl [v, []]) = v"
  using py_rstrip_word [of v] by (simp add: py_rstrip_def) (simp add: py_ws_def)

section \<open>Documents\<close>

text \<open>
  A document is a sequence of comments, blank lines, headers and options, each on a line of
  its own; reading its text gives its sections with their options, in order.
\<close>

datatype item = Comment string | Blank | Section string | Option string string

fun item_text :: "item \<Rightarrow> string" where
  "item_text (Comment c) = CHR ''#'' # c"
| "item_text Blank = []"
| "item_text (Section h) = section_text h"
| "item_text (Option k v) = option_text k v"

fun item_read :: "item \<Rightarrow> ini \<Rightarrow> ini" where
  "item_read (Section h) doc = doc @ [(h, [])]"
| "item_read (Option k v) doc = butlast doc @ [(fst (last doc), snd (last doc) @ [(k, v)])]"
| "item_read _ doc = doc"

fun item_ok :: "ini \<Rightarrow> item \<Rightarrow> bool" where
  "item_ok doc (Comment c) = (nl \<notin> set c)"
| "item_ok doc Blank = True"
| "item_ok doc (Section h) = (h \<noteq> [] \<and> h \<noteq> ''DEFAULT'' \<and> nl \<notin> set h \<and> \<not> dhas doc h)"
| "item_ok doc (Option k v) = (doc \<noteq> [] \<and> option_name k \<and> ini_word v \<and> \<not> dhas (snd (last doc)) k)"

fun doc_ok :: "ini \<Rightarrow> item list \<Rightarrow> bool" where
  "doc_ok doc [] = True"
| "doc_ok doc (i # is) = (item_ok doc i \<and> doc_ok (item_read i doc) is)"

definition doc_text :: "item list \<Rightarrow> string" where
  "doc_text is = unlines (map item_text is)"

text \<open>The state of the reader shows a document.\<close>

definition shows_doc :: "ini_state \<Rightarrow> ini \<Rightarrow> bool" where
  "shows_doc st doc =
     (map (\<lambda>(s, d). (s, joined d)) (is_sections st) = doc \<and> distinct (map fst doc) \<and> is_defaults st = [] \<and> \<not> is_error st \<and>
      is_section st = (if doc = [] then None else Some (fst (last doc))) \<and>
      (case is_option st of None \<Rightarrow> True | Some k \<Rightarrow> k \<noteq> [] \<and> doc \<noteq> [] \<and> dhas (snd (last doc)) k))"

lemma py_rstrip_newline: "py_rstrip (s @ [nl]) = py_rstrip s"
  by (simp add: py_rstrip_def py_ws_def)

lemma py_join_blank: "py_rstrip (py_join nl (vs @ [[]])) = py_rstrip (py_join nl vs)"
proof (induction vs rule: rev_induct)
  case (snoc v vs)
  have "xs \<noteq> [] \<Longrightarrow> py_join nl (xs @ [y]) = py_join nl xs @ nl # y" for xs y
    by (induction nl xs rule: py_join.induct) auto
  from this [of "vs @ [v]" "[]"] show ?case by (simp add: py_rstrip_newline)
qed simp

lemma fst_joined [simp]: "map fst (joined d) = map fst d" "fst ` set (joined d) = fst ` set d"
  by (force simp: joined_def)+

lemma joined_dset: "joined (dset k vs d) = dset k (py_rstrip (py_join nl vs)) (joined d)"
  by (induction d) (auto simp: joined_def)

lemma dset_same: "dget d k = Some v \<Longrightarrow> dset k v d = d"
  by (induction d) (auto split: if_splits)

lemma dset_new: "\<not> dhas d k \<Longrightarrow> dset k v d = d @ [(k, v)]"
  by (induction d) auto

lemma dset_last: "\<not> dhas xs h \<Longrightarrow> dset h v (xs @ [(h, d)]) = xs @ [(h, v)]"
  by (induction xs) auto

lemma dget_joined: "dget (joined d) k = map_option (\<lambda>vs. py_rstrip (py_join nl vs)) (dget d k)"
  by (induction d) (auto simp: joined_def)

lemma shows_doc_last:
  assumes "shows_doc st doc" "doc \<noteq> []"
  obtains xs h d where "is_sections st = xs @ [(h, d)]" "\<not> dhas xs h" "current st = d"
    "\<And>f. change_current f st = st\<lparr> is_sections := xs @ [(h, f d)] \<rparr>"
    "doc = map (\<lambda>(s, d). (s, joined d)) xs @ [(h, joined d)]" "is_section st = Some h"
proof -
  from assms have "is_sections st \<noteq> []" by (auto simp: shows_doc_def)
  then obtain xs h d where s: "is_sections st = xs @ [(h, d)]" by (metis prod.exhaust rev_exhaust)
  with assms have doc: "doc = map (\<lambda>(s, d). (s, joined d)) xs @ [(h, joined d)]" by (auto simp: shows_doc_def)
  with assms have n: "\<not> dhas xs h" "is_section st = Some h" by (force simp: shows_doc_def)+
  then have g: "dget (is_sections st) h = Some d" by (simp add: s map_add_def not_dhas_None split: option.split)
  have c: "current st = d" by (simp only: current_def n(2) option.case g)
  have "change_current f st = st\<lparr> is_sections := xs @ [(h, f d)] \<rparr>" for f
  proof -
    have "change_current f st = st\<lparr> is_sections := dset h (f d) (is_sections st) \<rparr>"
      by (simp only: change_current_def n(2) option.case g)
    then show ?thesis by (simp add: s n(1) dset_last)
  qed
  with s n c doc show thesis by (intro that)
qed

lemma shows_doc_replace:
  assumes "shows_doc st (map (\<lambda>(s, d). (s, joined d)) xs @ [(h, joined d)])" "k \<noteq> []" "dhas d' k"
  shows "shows_doc (st\<lparr> is_sections := xs @ [(h, d')], is_option := Some k, is_indent := n \<rparr>)
     (map (\<lambda>(s, d). (s, joined d)) xs @ [(h, joined d')])"
  using assms by (simp add: shows_doc_def)

lemma read_item:
  assumes "shows_doc st doc" "item_ok doc i"
  shows "\<exists>st'. read_line (item_text i) st = Inr st' \<and> shows_doc st' (item_read i doc)"
proof (cases i)
  case (Comment c)
  with assms(1) show ?thesis by (simp add: read_comment)
next
  case Blank
  have "shows_doc (append_line [] st) doc"
  proof (cases "is_option st")
    case None
    with assms(1) show ?thesis by (simp add: append_line_def)
  next
    case (Some k)
    with assms(1) have k: "k \<noteq> []" "doc \<noteq> []" "dhas (snd (last doc)) k" by (auto simp: shows_doc_def)
    obtain xs h d where h: "is_sections st = xs @ [(h, d)]" "\<not> dhas xs h" "current st = d"
      "\<And>f. change_current f st = st\<lparr> is_sections := xs @ [(h, f d)] \<rparr>"
      "doc = map (\<lambda>(s, d). (s, joined d)) xs @ [(h, joined d)]" "is_section st = Some h"
      using shows_doc_last [OF assms(1) k(2)] by blast
    from k(3) h(5) obtain vs where vs: "dget d k = Some vs" by (auto simp: dhas_iff dget_joined)
    have "joined (dset k (vs @ [[]]) d) = joined d"
      unfolding joined_dset py_join_blank by (rule dset_same) (simp add: dget_joined vs)
    moreover have "dhas (dset k (vs @ [[]]) d) k" by (simp add: dhas_iff)
    moreover have "append_line [] st = st\<lparr> is_sections := xs @ [(h, dset k (vs @ [[]]) d)], is_option := Some k, is_indent := is_indent st \<rparr>"
      using Some k(1) by (simp add: append_line_def h(4) vs)
    ultimately show ?thesis using shows_doc_replace [OF assms(1) [unfolded h(5)] k(1), of "dset k (vs @ [[]]) d" "is_indent st"]
      by (simp only: h(5))
  qed
  with Blank show ?thesis by (simp add: read_blank)
next
  case (Section h)
  with assms have "h \<noteq> []" "h \<noteq> ''DEFAULT''" "\<not> dhas doc h" by auto
  moreover from this assms(1) have "\<not> dhas (is_sections st) h" by (force simp: shows_doc_def)
  ultimately show ?thesis using assms(1) Section
    by (simp add: read_section start_section_def shows_doc_def dset_new joined_def)
next
  case (Option k v)
  with assms(2) have ok: "doc \<noteq> []" "option_name k" "ini_word v" "\<not> dhas (snd (last doc)) k" by auto
  obtain xs h d where h: "is_sections st = xs @ [(h, d)]" "\<not> dhas xs h" "current st = d"
      "\<And>f. change_current f st = st\<lparr> is_sections := xs @ [(h, f d)] \<rparr>"
      "doc = map (\<lambda>(s, d). (s, joined d)) xs @ [(h, joined d)]" "is_section st = Some h"
    using shows_doc_last [OF assms(1) ok(1)] by blast
  have n: "\<not> dhas d k" using ok(4) h(5) by simp
  have k: "k \<noteq> []" using ok(2) by (simp add: option_name_def)
  have i: "current (st\<lparr> is_indent := 0 \<rparr>) = current st" "change_current f (st\<lparr> is_indent := 0 \<rparr>) = (change_current f st)\<lparr> is_indent := 0 \<rparr>" for f
    by (simp_all add: current_def change_current_def split: option.split)
  have e: "is_error st = False" using assms(1) by (simp add: shows_doc_def)
  have "read_line (item_text i) st = Inr (st\<lparr> is_sections := xs @ [(h, dset k [v] d)], is_option := Some k, is_indent := 0 \<rparr>)"
    using n k e by (simp add: Option read_option [OF ok(2,3)] h(6) start_option_def i h(3,4))
  moreover have "item_read i doc = map (\<lambda>(s, d). (s, joined d)) xs @ [(h, joined (dset k [v] d))]"
    using n joined_word [OF ok(3)] by (simp add: Option h(5) dset_new) (simp add: joined_def)
  moreover have "dhas (dset k [v] d) k" by (simp add: dhas_iff)
  ultimately show ?thesis using shows_doc_replace [OF assms(1) [unfolded h(5)] k, of "dset k [v] d" 0] by auto
qed

lemma read_items:
  "shows_doc st doc \<Longrightarrow> doc_ok doc is \<Longrightarrow>
   \<exists>st'. read_lines (map item_text is) st = Inr st' \<and> shows_doc st' (fold item_read is doc)"
proof (induction "is" arbitrary: st doc)
  case (Cons i "is")
  with read_item [of st doc i] obtain st1 where "read_line (item_text i) st = Inr st1" "shows_doc st1 (item_read i doc)" by auto
  with Cons.IH [of st1 "item_read i doc"] Cons.prems show ?case by simp
qed simp

lemma item_text_line: "item_ok doc i \<Longrightarrow> nl \<notin> set (item_text i)"
proof (cases i)
  case (Option k v)
  moreover assume "item_ok doc i"
  ultimately have "ini_word v" "\<forall>c \<in> set k. c \<noteq> nl"
    using option_name_char(7) by (auto simp: option_name_def list_all_iff)
  with Option show ?thesis by (auto simp: option_text_def ini_word_def)
qed (simp_all add: section_text_def)

lemma doc_ok_lines: "doc_ok doc is \<Longrightarrow> l \<in> set (map item_text is) \<Longrightarrow> nl \<notin> set l"
  by (induction "is" arbitrary: doc) (use item_text_line in auto)

lemma read_ini_doc:
  assumes "doc_ok [] is"
  shows "read_ini (doc_text is) = Inr (fold item_read is [])"
proof -
  have "shows_doc new_ini_state []" by (simp add: shows_doc_def new_ini_state_def)
  from read_items [OF this assms] obtain st' where st: "read_lines (map item_text is) new_ini_state = Inr st'"
    "shows_doc st' (fold item_read is [])" by blast
  have "text_lines (doc_text is) = map item_text is"
    unfolding doc_text_def by (intro text_lines_unlines) (use doc_ok_lines [OF assms] in blast)
  with st show ?thesis by (simp add: read_ini_def shows_doc_def joined_def with_defaults_def)
qed

text \<open>Values that an INI file keeps: a word without a percent sign, which would be interpolated.\<close>

definition config_word :: "string \<Rightarrow> bool" where
  "config_word v = (ini_word v \<and> CHR ''%'' \<notin> set v)"

lemma ini_word_int: "ini_word (py_str i)"
proof -
  have "nl \<notin> set (nat_str n)" for n
  proof
    assume "nl \<in> set (nat_str n)"
    then obtain d where "d < 10" "nl = digit_char d" using nat_str_digits by blast
    then have "(of_char nl :: nat) = 48 + d" using of_char_digit_char by metis
    then show False by simp
  qed
  then have "nl \<notin> set (py_str i)" by (simp add: py_str_def)
  moreover have "py_str i \<noteq> []" by (simp add: py_str_def)
  ultimately show ?thesis by (simp add: ini_word_def trimmed_py_str)
qed

end
