(* ===== verification/Fed_Certs.thy ===== *)
theory Fed_Certs
  imports File_System Xml_Tree Ini_Reader Registry_Build
begin

text \<open>
  gen_fed_ca.py: the command that generates the federation CA and the identities of a
  server. Arguments are taken as parsed. Keys, signatures and encodings come from the library
  \<open>cryptography\<close>, a parameter; a certificate is the record of the fields that the code puts
  into it.
\<close>

section \<open>Certificates\<close>

datatype usage = Digital_Signature | Key_Agreement | Key_Cert_Sign | Crl_Sign

datatype ext_usage = Server_Auth | Client_Auth

datatype san = DNS_Name string | IP_Address string

text \<open>A private key is a number, and so is its public key.\<close>

record certificate =
  x_subject :: "string \<times> string" \<comment> \<open>common name and organization\<close>
  x_issuer :: "string \<times> string"
  x_key :: nat
  x_serial :: int
  x_not_before :: int
  x_not_after :: int
  x_ca :: bool
  x_path_length :: "int option"
  x_usage :: "usage list"
  x_ext_usage :: "ext_usage list"
  x_san :: "san list"
  x_subject_key :: nat
  x_authority_key :: "nat option"
  x_signed_by :: nat

text \<open>
  The \<open>n\<close>-th key, serial number and time (in days) that are asked for; what building and
  signing a certificate raises; IP addresses; the encodings; reading a certificate; the
  digest of one; what \<open>zipfile\<close> makes of entries; the prose of the README.
\<close>

record crypto =
  cr_key :: "nat \<Rightarrow> nat"
  cr_serial :: "nat \<Rightarrow> int"
  cr_now :: "nat \<Rightarrow> int"
  cr_build :: "certificate \<Rightarrow> py_error option"
  cr_ip :: "string \<Rightarrow> py_error + string"
  cr_key_pem :: "nat \<Rightarrow> string option \<Rightarrow> string"
  cr_cert_pem :: "certificate \<Rightarrow> string"
  cr_load :: "string \<Rightarrow> py_error + certificate"
  cr_digest :: "certificate \<Rightarrow> nat list"
  cr_zip :: "(string \<times> string) list \<Rightarrow> string"
  cr_readme :: "string \<Rightarrow> string \<Rightarrow> int \<Rightarrow> string \<Rightarrow> string"
  cr_xml :: xml_lib

definition signed :: "crypto \<Rightarrow> certificate \<Rightarrow> py_error + certificate" where
  "signed C x = (case cr_build C x of Some e \<Rightarrow> Inl e | None \<Rightarrow> Inr x)"

definition generate_ca :: "crypto \<Rightarrow> nat \<Rightarrow> string \<Rightarrow> string \<Rightarrow> int \<Rightarrow> py_error + nat \<times> certificate" where
  "generate_ca C n cn org validity_days =
     (let ca_key = cr_key C n; now = cr_now C n in
      rbind (signed C \<lparr> x_subject = (cn, org), x_issuer = (cn, org), x_key = ca_key, x_serial = cr_serial C n,
          x_not_before = now, x_not_after = now + validity_days, x_ca = True, x_path_length = Some 0,
          x_usage = [Digital_Signature, Key_Cert_Sign, Crl_Sign], x_ext_usage = [], x_san = [],
          x_subject_key = ca_key, x_authority_key = None, x_signed_by = ca_key \<rparr>) (\<lambda>ca_cert. Inr (ca_key, ca_cert)))"

fun ip_names :: "crypto \<Rightarrow> string list \<Rightarrow> py_error + san list" where
  "ip_names C [] = Inr []"
| "ip_names C (ip # ips) = rbind (cr_ip C ip) (\<lambda>a. rbind (ip_names C ips) (\<lambda>as. Inr (IP_Address a # as)))"

text \<open>The common name is a subject name only when no other is given; \<open>is_server\<close> is not used.\<close>

definition generate_peer_cert ::
    "crypto \<Rightarrow> nat \<Rightarrow> string \<Rightarrow> string \<Rightarrow> nat \<Rightarrow> certificate \<Rightarrow> int \<Rightarrow> string list \<Rightarrow> string list \<Rightarrow> bool \<Rightarrow>
     py_error + nat \<times> certificate" where
  "generate_peer_cert C n cn org ca_key ca_cert validity_days san_dns san_ip is_server =
     (let peer_key = cr_key C n; now = cr_now C n in
      rbind (ip_names C san_ip) (\<lambda>ips.
        let given = map DNS_Name san_dns @ ips;
            san_names = (if given = [] then [DNS_Name cn] else given) in
        rbind (signed C \<lparr> x_subject = (cn, org), x_issuer = x_subject ca_cert, x_key = peer_key, x_serial = cr_serial C n,
            x_not_before = now, x_not_after = now + validity_days, x_ca = False, x_path_length = None,
            x_usage = [Digital_Signature, Key_Agreement], x_ext_usage = [Server_Auth, Client_Auth], x_san = san_names,
            x_subject_key = peer_key, x_authority_key = Some ca_key, x_signed_by = ca_key \<rparr>) (\<lambda>peer_cert.
          Inr (peer_key, peer_cert))))"

section \<open>Writing keys and certificates\<close>

definition mode_0600 :: nat where "mode_0600 = 384"

definition mode_0644 :: nat where "mode_0644 = 420"

definition mode_0666 :: nat where "mode_0666 = 438"

definition write_private_key :: "crypto \<Rightarrow> (nat \<Rightarrow> nat) \<Rightarrow> string \<Rightarrow> nat \<Rightarrow> string option \<Rightarrow> unit io" where
  "write_private_key C umask path key password = write_file umask False mode_0600 path (cr_key_pem C key password)"

definition write_cert :: "crypto \<Rightarrow> (nat \<Rightarrow> nat) \<Rightarrow> string \<Rightarrow> certificate \<Rightarrow> unit io" where
  "write_cert C umask path cert = write_file umask False mode_0644 path (cr_cert_pem C cert)"

definition write_cert_chain :: "crypto \<Rightarrow> (nat \<Rightarrow> nat) \<Rightarrow> string \<Rightarrow> certificate \<Rightarrow> certificate \<Rightarrow> unit io" where
  "write_cert_chain C umask path leaf_cert ca_cert =
     write_file umask False mode_0644 path (cr_cert_pem C leaf_cert @ cr_cert_pem C ca_cert)"

section \<open>The command \<open>generate\<close>\<close>

record gen_args =
  ga_out_dir :: string
  ga_ca_cn :: string
  ga_server_cn :: string
  ga_client_cn :: string
  ga_org :: string
  ga_ca_days :: int
  ga_cert_days :: int
  ga_server_san_dns :: "string list"
  ga_server_san_ip :: "string list"
  ga_client_san_dns :: "string list"
  ga_key_password :: "string option"

definition default_gen_args :: gen_args where
  "default_gen_args = \<lparr> ga_out_dir = ''.'', ga_ca_cn = ''taky-federation-ca'', ga_server_cn = ''taky-server'',
     ga_client_cn = ''taky-client'', ga_org = ''field-services'', ga_ca_days = 1825, ga_cert_days = 365,
     ga_server_san_dns = [], ga_server_san_ip = [], ga_client_san_dns = [], ga_key_password = None \<rparr>"

text \<open>One identity: its key, its certificate and its chain.\<close>

definition write_identity ::
    "crypto \<Rightarrow> (nat \<Rightarrow> nat) \<Rightarrow> string \<Rightarrow> string \<Rightarrow> string option \<Rightarrow> certificate \<Rightarrow> nat \<times> certificate \<Rightarrow> unit io" where
  "write_identity C umask out_dir name key_pw ca_cert kc =
     io_bind (write_private_key C umask (path_join out_dir (name @ ''.key'')) (fst kc) key_pw) (\<lambda>_.
     io_bind (write_cert C umask (path_join out_dir (name @ ''.crt'')) (snd kc)) (\<lambda>_.
     write_cert_chain C umask (path_join out_dir (name @ ''-chain.crt'')) (snd kc) ca_cert))"

definition cmd_generate :: "crypto \<Rightarrow> (nat \<Rightarrow> nat) \<Rightarrow> string \<Rightarrow> gen_args \<Rightarrow> int io" where
  "cmd_generate C umask cwd args =
     (let out_dir = abspath cwd (ga_out_dir args);
          key_pw = (if ga_key_password args = Some [] then None else ga_key_password args) in
      io_bind (makedirs out_dir) (\<lambda>_.
      io_bind (io_of (generate_ca C 0 (ga_ca_cn args) (ga_org args) (ga_ca_days args))) (\<lambda>(ca_key, ca_cert).
      io_bind (write_private_key C umask (path_join out_dir ''fed-ca.key'') ca_key key_pw) (\<lambda>_.
      io_bind (write_cert C umask (path_join out_dir ''fed-ca.crt'') ca_cert) (\<lambda>_.
      io_bind (io_of (generate_peer_cert C 1 (ga_server_cn args) (ga_org args) ca_key ca_cert (ga_cert_days args)
          (ga_server_san_dns args) (ga_server_san_ip args) True)) (\<lambda>server.
      io_bind (write_identity C umask out_dir ''server'' key_pw ca_cert server) (\<lambda>_.
      io_bind (io_of (generate_peer_cert C 2 (ga_client_cn args) (ga_org args) ca_key ca_cert (ga_cert_days args)
          (ga_client_san_dns args) [] False)) (\<lambda>client.
      io_bind (write_identity C umask out_dir ''client'' key_pw ca_cert client) (\<lambda>_.
      io_return 0)))))))))"

section \<open>What \<open>generate\<close> leaves\<close>

text \<open>Writing several files of one directory.\<close>

fun write_all :: "(nat \<Rightarrow> nat) \<Rightarrow> string \<Rightarrow> (string \<times> string \<times> nat) list \<Rightarrow> unit io" where
  "write_all umask d [] = io_return ()"
| "write_all umask d ((n, c, mode) # es) =
     io_bind (write_file umask False mode (path_join d n) c) (\<lambda>_. write_all umask d es)"

lemma write_all_step:
  assumes "write_all umask d ((n, c, mode) # es) F = (Inr u, F')" "component n"
  obtains F1 where "write_all umask d es F1 = (Inr u, F')"
    "\<And>q. node_at F1 q = (if q = locate d @ [n] then Some (File c (mode_after F (locate d @ [n]) (umask mode))) else node_at F q)"
proof -
  obtain F1 where w: "write_file umask False mode (path_join d n) c F = (Inr (), F1)" "write_all umask d es F1 = (Inr u, F')"
    using assms(1) by (auto simp: io_bind_Inr)
  note l = locate_join_name [OF assms(2), of d]
  show thesis by (rule that [OF w(2)]) (simp only: write_file_Inr [OF w(1)] l)
qed

lemma write_all_frame:
  "write_all umask d es F = (Inr u, F') \<Longrightarrow> list_all (\<lambda>(n, _). component n) es \<Longrightarrow>
   (\<And>n. n \<in> fst ` set es \<Longrightarrow> q \<noteq> locate d @ [n]) \<Longrightarrow> node_at F' q = node_at F q"
proof (induction es arbitrary: F)
  case (Cons e es)
  obtain n c mode where e: "e = (n, c, mode)" by (cases e)
  with Cons.prems obtain F1 where w: "write_all umask d es F1 = (Inr u, F')"
    "\<And>q. node_at F1 q = (if q = locate d @ [n] then Some (File c (mode_after F (locate d @ [n]) (umask mode))) else node_at F q)"
    using write_all_step [of umask d n c mode es F u F'] by auto
  have "node_at F' q = node_at F1 q" using Cons.prems e by (intro Cons.IH [OF w(1)]) auto
  moreover have "q \<noteq> locate d @ [n]" using Cons.prems(3) [of n] e by simp
  ultimately show ?case using w(2) by simp
qed simp

lemma write_all_files:
  "write_all umask d es F = (Inr u, F') \<Longrightarrow> list_all (\<lambda>(n, _). component n) es \<Longrightarrow> distinct (map fst es) \<Longrightarrow>
   (n, c, mode) \<in> set es \<Longrightarrow> node_at F' (locate d @ [n]) = Some (File c (mode_after F (locate d @ [n]) (umask mode)))"
proof (induction es arbitrary: F)
  case (Cons e es)
  obtain n0 c0 mode0 where e: "e = (n0, c0, mode0)" by (cases e)
  with Cons.prems obtain F1 where w: "write_all umask d es F1 = (Inr u, F')"
    "\<And>q. node_at F1 q = (if q = locate d @ [n0] then Some (File c0 (mode_after F (locate d @ [n0]) (umask mode0))) else node_at F q)"
    using write_all_step [of umask d n0 c0 mode0 es F u F'] by auto
  have d: "list_all (\<lambda>(n, _). component n) es" "distinct (map fst es)" "n0 \<notin> fst ` set es" using Cons.prems(2,3) e by auto
  show ?case
  proof (cases "n = n0")
    case True
    with Cons.prems(4) e d(3) have "c = c0 \<and> mode = mode0" by (force simp: image_iff)
    moreover have "node_at F' (locate d @ [n0]) = node_at F1 (locate d @ [n0])"
      using d(3) by (intro write_all_frame [OF w(1) d(1)]) auto
    ultimately show ?thesis using w(2) True by simp
  next
    case False
    with Cons.prems(4) e have "(n, c, mode) \<in> set es" by auto
    from Cons.IH [OF w(1) d(1,2) this] False show ?thesis by (simp add: w(2) mode_after_def)
  qed
qed simp

text \<open>Writing succeeds in a directory without directories.\<close>

definition writable :: "string \<Rightarrow> fs \<Rightarrow> bool" where
  "writable d F = (node_at F (locate d) = Some Dir \<and> (\<forall>n. node_at F (locate d @ [n]) \<noteq> Some Dir))"

lemma write_all_ok:
  "writable d F \<Longrightarrow> list_all (\<lambda>(n, _). component n) es \<Longrightarrow> \<exists>F'. write_all umask d es F = (Inr (), F') \<and> writable d F'"
proof (induction es arbitrary: F)
  case (Cons e es)
  obtain n c mode where e: "e = (n, c, mode)" by (cases e)
  have l: "locate (path_join d n) = locate d @ [n]" using Cons.prems e by (simp add: locate_join_name)
  have "fst (write_file umask False mode (path_join d n) c F) = Inr ()"
    using Cons.prems(1) by (auto simp: write_file_def l writable_def Let_def split: option.split node.split)
  then obtain F1 where w: "write_file umask False mode (path_join d n) c F = (Inr (), F1)"
    by (cases "write_file umask False mode (path_join d n) c F") simp
  have "writable d F1" using Cons.prems(1) by (simp add: writable_def write_file_Inr [OF w] l)
  from Cons.IH [OF this] Cons.prems(2) obtain F' where "write_all umask d es F1 = (Inr (), F')" "writable d F'" by auto
  with w e show ?case by (auto simp: io_bind_Inr)
qed simp

text \<open>The eight files, with their content and the mode asked for.\<close>

definition generated_files :: "crypto \<Rightarrow> string option \<Rightarrow> nat \<times> certificate \<Rightarrow> nat \<times> certificate \<Rightarrow> nat \<times> certificate \<Rightarrow> (string \<times> string \<times> nat) list" where
  "generated_files C pw ca server client =
     [(''fed-ca.key'', cr_key_pem C (fst ca) pw, mode_0600), (''fed-ca.crt'', cr_cert_pem C (snd ca), mode_0644),
      (''server.key'', cr_key_pem C (fst server) pw, mode_0600), (''server.crt'', cr_cert_pem C (snd server), mode_0644),
      (''server-chain.crt'', cr_cert_pem C (snd server) @ cr_cert_pem C (snd ca), mode_0644),
      (''client.key'', cr_key_pem C (fst client) pw, mode_0600), (''client.crt'', cr_cert_pem C (snd client), mode_0644),
      (''client-chain.crt'', cr_cert_pem C (snd client) @ cr_cert_pem C (snd ca), mode_0644)]"

text \<open>An identity under a CA: its key matches, the CA signed it and may, and it serves in both roles.\<close>

definition issued_by :: "nat \<times> certificate \<Rightarrow> nat \<times> certificate \<Rightarrow> bool" where
  "issued_by ca peer =
     (x_key (snd peer) = fst peer \<and> \<not> x_ca (snd peer) \<and> set (x_ext_usage (snd peer)) = {Server_Auth, Client_Auth} \<and>
      x_issuer (snd peer) = x_subject (snd ca) \<and> x_signed_by (snd peer) = fst ca \<and>
      x_authority_key (snd peer) = Some (x_subject_key (snd ca)) \<and> x_san (snd peer) \<noteq> [])"

definition is_root_ca :: "nat \<times> certificate \<Rightarrow> bool" where
  "is_root_ca ca =
     (x_key (snd ca) = fst ca \<and> x_ca (snd ca) \<and> x_path_length (snd ca) = Some 0 \<and> Key_Cert_Sign \<in> set (x_usage (snd ca)) \<and>
      x_issuer (snd ca) = x_subject (snd ca) \<and> x_signed_by (snd ca) = fst ca \<and> x_subject_key (snd ca) = fst ca)"

lemma signed_Inr: "signed C x = Inr y \<longleftrightarrow> cr_build C x = None \<and> y = x"
  by (auto simp: signed_def split: option.splits)

lemma generate_ca_root: "generate_ca C n cn org days = Inr ca \<Longrightarrow> is_root_ca ca"
  by (auto simp: generate_ca_def Let_def rbind_Inr_iff signed_Inr is_root_ca_def)

lemma generate_peer_issued:
  "generate_peer_cert C n cn org (fst ca) (snd ca) days dns ips s = Inr peer \<Longrightarrow> is_root_ca ca \<Longrightarrow>
   issued_by ca peer \<and> (dns = [] \<and> ips = [] \<longrightarrow> x_san (snd peer) = [DNS_Name cn]) \<and> DNS_Name ` set dns \<subseteq> set (x_san (snd peer))"
  by (auto simp: generate_peer_cert_def Let_def rbind_Inr_iff signed_Inr issued_by_def is_root_ca_def split: if_splits)

lemma write_identity_all:
  "write_identity C umask d name pw ca_cert kc = write_all umask d
     [(name @ ''.key'', cr_key_pem C (fst kc) pw, mode_0600), (name @ ''.crt'', cr_cert_pem C (snd kc), mode_0644),
      (name @ ''-chain.crt'', cr_cert_pem C (snd kc) @ cr_cert_pem C ca_cert, mode_0644)]"
  by (rule ext) (simp add: write_identity_def write_private_key_def write_cert_def write_cert_chain_def io_bind_def
      split: prod.split sum.split)

lemma write_all_append: "io_bind (write_all umask d xs) (\<lambda>_. write_all umask d ys) F = write_all umask d (xs @ ys) F"
proof (induction xs arbitrary: F)
  case (Cons x xs)
  obtain n c mode where x: "x = (n, c, mode)" by (cases x)
  have a: "io_bind (io_bind m f) g F = io_bind m (\<lambda>x. io_bind (f x) g) F" for m f g and F :: fs
    by (simp add: io_bind_def split: prod.split sum.split)
  show ?case by (simp add: x a) (simp add: io_bind_def Cons.IH [unfolded io_bind_def] split: prod.split sum.split)
qed (simp add: io_bind_def)

lemma cmd_generate_writes:
  assumes "cmd_generate C umask cwd args F = (Inr r, F')"
    and "d = abspath cwd (ga_out_dir args)" "pw = (if ga_key_password args = Some [] then None else ga_key_password args)"
  shows "\<exists>ca server client F1. makedirs d F = (Inr (), F1) \<and>
    write_all umask d (generated_files C pw ca server client) F1 = (Inr (), F') \<and>
    generate_ca C 0 (ga_ca_cn args) (ga_org args) (ga_ca_days args) = Inr ca \<and>
    generate_peer_cert C 1 (ga_server_cn args) (ga_org args) (fst ca) (snd ca) (ga_cert_days args)
       (ga_server_san_dns args) (ga_server_san_ip args) True = Inr server \<and>
    generate_peer_cert C 2 (ga_client_cn args) (ga_org args) (fst ca) (snd ca) (ga_cert_days args)
       (ga_client_san_dns args) [] False = Inr client"
proof -
  let ?k = "\<lambda>ca server client. generated_files C pw ca server client"
  obtain F1 ca F2 F3 server F4 client where m: "makedirs d F = (Inr (), F1)"
    and g: "generate_ca C 0 (ga_ca_cn args) (ga_org args) (ga_ca_days args) = Inr ca"
      "generate_peer_cert C 1 (ga_server_cn args) (ga_org args) (fst ca) (snd ca) (ga_cert_days args)
         (ga_server_san_dns args) (ga_server_san_ip args) True = Inr server"
      "generate_peer_cert C 2 (ga_client_cn args) (ga_org args) (fst ca) (snd ca) (ga_cert_days args)
         (ga_client_san_dns args) [] False = Inr client"
    and w: "write_private_key C umask (path_join d ''fed-ca.key'') (fst ca) pw F1 = (Inr (), F2)"
      "write_cert C umask (path_join d ''fed-ca.crt'') (snd ca) F2 = (Inr (), F3)"
      "write_identity C umask d ''server'' pw (snd ca) server F3 = (Inr (), F4)"
      "write_identity C umask d ''client'' pw (snd ca) client F4 = (Inr (), F')"
    using assms(1) by (fastforce simp: cmd_generate_def assms(2,3) [symmetric] Let_def io_bind_Inr split: prod.splits)
  have "write_all umask d (take 2 (?k ca server client)) F1 = (Inr (), F3)"
    using w(1,2) by (simp add: generated_files_def write_private_key_def write_cert_def io_bind_Inr)
  moreover have "write_all umask d (take 3 (drop 2 (?k ca server client))) F3 = (Inr (), F4)"
    "write_all umask d (drop 5 (?k ca server client)) F4 = (Inr (), F')"
    using w(3,4) by (simp_all add: generated_files_def write_identity_all)
  ultimately have "write_all umask d (take 2 (?k ca server client) @ take 3 (drop 2 (?k ca server client)) @ drop 5 (?k ca server client)) F1 = (Inr (), F')"
    by (simp add: write_all_append [symmetric] io_bind_def)
  moreover have "take 2 (?k ca server client) @ take 3 (drop 2 (?k ca server client)) @ drop 5 (?k ca server client) = ?k ca server client"
    by (simp add: generated_files_def)
  ultimately show ?thesis using m g by metis
qed

lemma generated_names:
  "list_all (\<lambda>(n, _). component n) (generated_files C pw ca server client)" "distinct (map fst (generated_files C pw ca server client))"
  by (simp_all add: generated_files_def component_def plain_def)

text \<open>With a library that refuses nothing, the command succeeds in a directory it can write.\<close>

lemma cmd_generate_ok:
  assumes "makedirs (abspath cwd (ga_out_dir args)) F = (Inr (), F0)" "writable (abspath cwd (ga_out_dir args)) F0"
    and "cr_build C = (\<lambda>_. None)" "cr_ip C = Inr"
  shows "\<exists>F'. cmd_generate C umask cwd args F = (Inr 0, F')"
proof -
  let ?d = "abspath cwd (ga_out_dir args)" and ?pw = "if ga_key_password args = Some [] then None else ga_key_password args"
  obtain ca_key ca_cert where ca: "generate_ca C 0 (ga_ca_cn args) (ga_org args) (ga_ca_days args) = Inr (ca_key, ca_cert)"
    by (simp add: generate_ca_def signed_def assms(3) Let_def)
  have peer: "\<exists>p. generate_peer_cert C n cn org k c days dns ips b = Inr p" for n cn org k c days dns ips b
  proof -
    have "\<exists>xs. ip_names C ips = Inr xs" by (induction ips) (auto simp: assms(4))
    then show ?thesis by (auto simp: generate_peer_cert_def signed_def assms(3) Let_def)
  qed
  obtain server where server: "generate_peer_cert C 1 (ga_server_cn args) (ga_org args) ca_key ca_cert
      (ga_cert_days args) (ga_server_san_dns args) (ga_server_san_ip args) True = Inr server"
    using peer by blast
  obtain client where client: "generate_peer_cert C 2 (ga_client_cn args) (ga_org args) ca_key ca_cert
      (ga_cert_days args) (ga_client_san_dns args) [] False = Inr client"
    using peer by blast
  obtain F1 where w1: "write_private_key C umask (path_join ?d ''fed-ca.key'') ca_key ?pw F0 = (Inr (), F1)" "writable ?d F1"
    using write_all_ok [OF assms(2), of "[(''fed-ca.key'', _, mode_0600)]"]
    by (force simp: write_private_key_def component_def plain_def io_bind_Inr)
  obtain F2 where w2: "write_cert C umask (path_join ?d ''fed-ca.crt'') ca_cert F1 = (Inr (), F2)" "writable ?d F2"
    using write_all_ok [OF w1(2), of "[(''fed-ca.crt'', _, mode_0644)]"] by (force simp: write_cert_def component_def plain_def io_bind_Inr)
  obtain F3 where w3: "write_identity C umask ?d ''server'' ?pw ca_cert server F2 = (Inr (), F3)" "writable ?d F3"
    using write_all_ok [OF w2(2), of "[(''server.key'', _, mode_0600), (''server.crt'', _, mode_0644), (''server-chain.crt'', _, mode_0644)]"]
    by (force simp: write_identity_all component_def plain_def)
  obtain F4 where w4: "write_identity C umask ?d ''client'' ?pw ca_cert client F3 = (Inr (), F4)"
    using write_all_ok [OF w3(2), of "[(''client.key'', _, mode_0600), (''client.crt'', _, mode_0644), (''client-chain.crt'', _, mode_0644)]"]
    by (force simp: write_identity_all component_def plain_def)
  have "cmd_generate C umask cwd args F = (Inr 0, F4)"
    unfolding cmd_generate_def Let_def
    by (simp only: io_bind_def assms(1) ca server client w1(1) w2(1) w3(1) w4 io_simps prod.case sum.case fst_conv snd_conv)
  then show ?thesis by blast
qed

text \<open>
  C28. The material that \<open>generate\<close> reports as written is complete and consistent: a CA that may
  sign and no more than peers, two identities it issued, each for both roles and under a name,
  and exactly the eight files with their keys, certificates and chains, leaf first; a file
  that is new is created with its mode (0600 for a key), one that was there is replaced and
  keeps the mode it had, and no other file is touched.
\<close>

theorem generated_material:
  assumes "cmd_generate C umask cwd args F = (Inr r, F')"
    and "out = locate (abspath cwd (ga_out_dir args))" "pw = (if ga_key_password args = Some [] then None else ga_key_password args)"
  shows "\<exists>ca server client. is_root_ca ca \<and> issued_by ca server \<and> issued_by ca client \<and>
    list_all (\<lambda>(n, c, mode). node_at F' (out @ [n]) = Some (File c (mode_after F (out @ [n]) (umask mode))))
      (generated_files C pw ca server client) \<and>
    (node_at F' q = node_at F q \<or> (\<exists>n. n \<in> fst ` set (generated_files C pw ca server client) \<and> q = out @ [n]) \<or>
     node_at F q = None \<and> node_at F' q = Some Dir \<and> prefix q out)"
proof -
  obtain ca server client F1 where m: "makedirs (abspath cwd (ga_out_dir args)) F = (Inr (), F1)"
    and w: "write_all umask (abspath cwd (ga_out_dir args)) (generated_files C pw ca server client) F1 = (Inr (), F')"
    and g: "generate_ca C 0 (ga_ca_cn args) (ga_org args) (ga_ca_days args) = Inr ca"
      "generate_peer_cert C 1 (ga_server_cn args) (ga_org args) (fst ca) (snd ca) (ga_cert_days args)
         (ga_server_san_dns args) (ga_server_san_ip args) True = Inr server"
      "generate_peer_cert C 2 (ga_client_cn args) (ga_org args) (fst ca) (snd ca) (ga_cert_days args)
         (ga_client_san_dns args) [] False = Inr client"
    using cmd_generate_writes [OF assms(1) refl assms(3)] by blast
  note ca = generate_ca_root [OF g(1)]
  note wr = write_all_files [OF w generated_names, folded assms(2)] write_all_frame [OF w generated_names(1), folded assms(2)]
  have keep: "node_at F q = Some n \<Longrightarrow> node_at F1 q = Some n" for q n
    using makedirs_keeps [of F q n "abspath cwd (ga_out_dir args)"] m by simp
  have new: "node_at F q = None \<Longrightarrow> node_at F1 q = None \<or> node_at F1 q = Some Dir \<and> prefix q out" for q
    using makedirs_new [of F q "abspath cwd (ga_out_dir args)"] m assms(2) by simp
  have "node_at F1 (out @ [n]) = node_at F (out @ [n])" for n
    using keep [of "out @ [n]"] new [of "out @ [n]"] by (cases "node_at F (out @ [n])") (auto simp: prefix_def)
  then have "mode_after F1 (out @ [n]) k = mode_after F (out @ [n]) k" for n k by (simp add: mode_after_def)
  then have files: "list_all (\<lambda>(n, c, mode). node_at F' (out @ [n]) = Some (File c (mode_after F (out @ [n]) (umask mode))))
      (generated_files C pw ca server client)"
    using wr(1) by (auto simp: list_all_iff)
  have "node_at F' q = node_at F1 q" if "\<not> (\<exists>n. n \<in> fst ` set (generated_files C pw ca server client) \<and> q = out @ [n])"
    using that by (intro wr(2)) auto
  moreover have "node_at F1 q = node_at F q \<or> node_at F q = None \<and> node_at F1 q = Some Dir \<and> prefix q out"
    using keep [of q] new [of q] by (cases "node_at F q") auto
  ultimately have rest: "node_at F' q = node_at F q \<or> (\<exists>n. n \<in> fst ` set (generated_files C pw ca server client) \<and> q = out @ [n]) \<or>
     node_at F q = None \<and> node_at F' q = Some Dir \<and> prefix q out"
    by metis
  have "issued_by ca server" "issued_by ca client"
    using generate_peer_issued [OF g(2) ca] generate_peer_issued [OF g(3) ca] by simp_all
  with ca files rest show ?thesis by blast
qed

text \<open>A library and the first run of the command in an empty file system.\<close>

definition sample_crypto :: crypto where
  "sample_crypto = \<lparr> cr_key = id, cr_serial = int, cr_now = (\<lambda>_. 0), cr_build = (\<lambda>_. None), cr_ip = Inr,
     cr_key_pem = (\<lambda>k pw. ''key'' @ py_str (int k)), cr_cert_pem = (\<lambda>x. ''crt'' @ fst (x_subject x)),
     cr_load = (\<lambda>_. Inl ValueError), cr_digest = (\<lambda>_. replicate 32 0), cr_zip = concat \<circ> map snd,
     cr_readme = (\<lambda>_ _ _ _. []), cr_xml = ref_xml \<rparr>"

definition sample_generate :: gen_args where
  "sample_generate = default_gen_args\<lparr> ga_out_dir := ''/d'' \<rparr>"

lemma sample_out: "abspath ''/'' (ga_out_dir sample_generate) = ''/d''" "locate ''/d'' = [''d'']"
  by (simp_all add: sample_generate_def default_gen_args_def abspath_def is_abs_def normpath_def leading_slashes_def locate_def)

lemma sample_generated: "\<exists>F'. cmd_generate sample_crypto id ''/'' sample_generate [] = (Inr 0, F')"
proof (rule cmd_generate_ok)
  show "makedirs (abspath ''/'' (ga_out_dir sample_generate)) [] = (Inr (), [([''d''], Dir)])"
    by (simp add: makedirs_def sample_out node_at_def)
  show "writable (abspath ''/'' (ga_out_dir sample_generate)) [([''d''], Dir)]" by (auto simp: writable_def sample_out node_at_def)
qed (simp_all add: sample_crypto_def)

theorem generated_material_witness:
  "\<exists>F' ca server client. is_root_ca ca \<and> issued_by ca server \<and> issued_by ca client \<and>
     node_at F' [''d'', ''fed-ca.key''] = Some (File (cr_key_pem sample_crypto (fst ca) None) mode_0600) \<and>
     node_at F' [''x''] = None"
proof -
  obtain F' where "cmd_generate sample_crypto id ''/'' sample_generate [] = (Inr 0, F')" using sample_generated by blast
  from generated_material [OF this refl refl, of "[''x'']", unfolded sample_out] obtain ca server client where
    c: "is_root_ca ca" "issued_by ca server" "issued_by ca client"
    and f: "list_all (\<lambda>(n, c, mode). node_at F' ([''d''] @ [n]) = Some (File c (mode_after [] ([''d''] @ [n]) (id mode))))
      (generated_files sample_crypto None ca server client)"
    and q: "node_at F' [''x''] = node_at [] [''x''] \<or>
      (\<exists>n. n \<in> fst ` set (generated_files sample_crypto None ca server client) \<and> [''x''] = [''d''] @ [n]) \<or>
      node_at [] [''x''] = None \<and> node_at F' [''x''] = Some Dir \<and> prefix [''x''] [''d'']"
    by (simp add: sample_generate_def default_gen_args_def) blast
  have "node_at F' [''d'', ''fed-ca.key''] = Some (File (cr_key_pem sample_crypto (fst ca) None) mode_0600)"
    using f by (simp add: generated_files_def mode_after_def node_at_def)
  moreover have "node_at F' [''x''] = None" using q by (auto simp: node_at_def)
  ultimately show ?thesis using c by blast
qed

end
