(* ===== verification/Fed_Bundle.thy ===== *)
theory Fed_Bundle
  imports Fed_Certs
begin

text \<open>
  gen_fed_ca.py: the command that exports the bundle for a peer. Arguments are taken as parsed.
  What an export reads, what it writes and what its archive holds.
\<close>

section \<open>The command \<open>export\<close>\<close>

text \<open>The dash of the templates, in UTF-8.\<close>

definition em_dash :: string where
  "em_dash = [CHR 0xE2, CHR 0x80, CHR 0x94]"

definition export_ini_lines :: "string \<Rightarrow> string \<Rightarrow> int \<Rightarrow> string \<Rightarrow> string list" where
  \<open>export_ini_lines server_id address listen_port fp =
     [''# --- ots-federation.ini peer stanza for federating with "'' @ server_id @ ''" ---'',
      ''# Generated by 'ots-fed-certs export' (mutual-CA exchange).'',
      ''# Add this section to YOUR federation.ini, then point ca_cert at the'',
      ''# fed-ca.crt included in this bundle (or your merged multi-CA bundle file '' @ em_dash,
      ''# see README.md step 1).'',
      ''[federate:'' @ server_id @ '']'',
      ''address = '' @ address,
      ''display_name = '' @ server_id,
      ''port = '' @ py_str listen_port,
      ''protocol = grpc'',
      ''# ca_cert: path where you saved fed-ca.crt from this bundle.'',
      ''ca_cert = /path/to/fed-ca.crt'',
      ''# fingerprint: REQUIRED for us to trust an inbound connection from this peer.'',
      ''# This is the SHA-256 fingerprint of the LEAF certificate "'' @ server_id @ ''"'',
      ''# actually presents on the mTLS handshake '' @ em_dash @ '' group-ACL policy is resolved'',
      ''# from THIS value, never from anything the peer claims on the wire. Without'',
      ''# it, an inbound connection claiming to be "'' @ server_id @ ''" is quarantined'',
      ''# (no policy, not even the permissive accept_as/share_as below) regardless'',
      ''# of what identity string it presents. This is the exact value printed as'',
      ''# "leaf certificate fingerprint" in this bundle's README.md '' @ em_dash @ '' copy it'',
      ''# verbatim (case-insensitive, colon-hex).'',
      ''fingerprint = '' @ fp,
      ''# accept_as / share_as: TIGHTEN to your real ACL group names before going'',
      ''# live '' @ em_dash @ '' the wildcards below are permissive placeholders, not a'',
      ''# recommendation. See README.qmd "CoT Events Not Exchanged" for semantics.'',
      ''accept_as = *:'',
      ''share_as = *:*'']\<close>

definition build_federate_coreconfig_xml :: "string \<Rightarrow> string \<Rightarrow> string \<Rightarrow> int \<Rightarrow> elem" where
  "build_federate_coreconfig_xml fp server_id address listen_port =
     Elem ''federate'' [(''id'', fp), (''displayName'', server_id), (''address'', address), (''port'', py_str listen_port)]
       (Some (nl # ''    ''))
       [Elem ''inboundGroup'' [] (Some ''__ANON__'') [] (Some (nl # ''    '')),
        Elem ''outboundGroup'' [] (Some ''__ANON__'') [] (Some [nl])] None"

definition xml_header_lines :: "string \<Rightarrow> string list" where
  \<open>xml_header_lines server_id =
     [''<!-- Stock TAK Server CoreConfig <federate> stanza for "'' @ server_id @ ''" -->'',
      ''<!-- Generated by 'ots-fed-certs export' (mutual-CA exchange). -->'',
      ''<!-- Add this inside CoreConfig.xml's <federation> element.           -->'',
      ''<!-- inboundGroup/outboundGroup are REQUIRED '' @ em_dash @ '' a federate entry       -->'',
      ''<!-- without them exchanges nothing in either direction. id = SHA-256 -->'',
      ''<!-- fingerprint of the LEAF cert we present (see README.md).        -->'']\<close>

record export_args =
  xa_cert_dir :: string
  xa_out_dir :: "string option"
  xa_server_id :: "string option"
  xa_our_address :: string
  xa_listen_port :: int
  xa_zip :: bool

definition truthy :: "string option \<Rightarrow> bool" where
  "truthy s = (s \<noteq> None \<and> s \<noteq> Some [])"

text \<open>The names of a directory with their contents; a directory in it is an empty entry.\<close>

definition dir_entries :: "fs \<Rightarrow> string \<Rightarrow> (string \<times> string) list" where
  "dir_entries F d = map (\<lambda>n. case node_at F (locate (path_join d n)) of
       Some (File c _) \<Rightarrow> (n, c) | _ \<Rightarrow> (n @ ''/'', [])) (list_dir F d)"

definition rstrip_slashes :: "string \<Rightarrow> string" where
  "rstrip_slashes p = rev (dropWhile (\<lambda>c. c = CHR ''/'') (rev p))"

definition write_zip :: "crypto \<Rightarrow> (nat \<Rightarrow> nat) \<Rightarrow> string \<Rightarrow> unit io" where
  "write_zip C umask out_dir F =
     write_file umask False mode_0666 (rstrip_slashes out_dir @ ''.zip'') (cr_zip C (dir_entries F out_dir)) F"

text \<open>The four files of the bundle, of values that are public.\<close>

definition write_bundle ::
    "crypto \<Rightarrow> (nat \<Rightarrow> nat) \<Rightarrow> string \<Rightarrow> string \<Rightarrow> string \<Rightarrow> string \<Rightarrow> int \<Rightarrow> string \<Rightarrow> unit io" where
  "write_bundle C umask out_dir ca_pem server_id address listen_port fp =
     io_bind (write_file umask False mode_0644 (path_join out_dir ''fed-ca.crt'') ca_pem) (\<lambda>_.
     io_bind (write_file umask False mode_0666 (path_join out_dir ''ots-federation-federate-stanza.ini'')
        (unlines (export_ini_lines server_id address listen_port fp))) (\<lambda>_.
     io_bind (write_file umask False mode_0666 (path_join out_dir ''takserver-federate-stanza.xml'')
        (unlines (xml_header_lines server_id) @
         xml_tostring (cr_xml C) (build_federate_coreconfig_xml fp server_id address listen_port) @ [nl])) (\<lambda>_.
     write_file umask False mode_0666 (path_join out_dir ''README.md'') (cr_readme C server_id address listen_port fp))))"

definition export_server_id :: "export_args \<Rightarrow> certificate \<Rightarrow> string" where
  "export_server_id args server_leaf_cert =
     (if truthy (xa_server_id args) then the (xa_server_id args)
      else if fst (x_subject server_leaf_cert) \<noteq> [] then fst (x_subject server_leaf_cert)
      else ''ots-federation-peer'')"

definition export_dir :: "string \<Rightarrow> export_args \<Rightarrow> string" where
  "export_dir cwd args =
     (if truthy (xa_out_dir args) then abspath cwd (the (xa_out_dir args))
      else path_join (abspath cwd (xa_cert_dir args)) ''export-bundle'')"

definition export_public :: "crypto \<Rightarrow> (nat \<Rightarrow> nat) \<Rightarrow> string \<Rightarrow> export_args \<Rightarrow> unit io" where
  "export_public C umask cwd args =
     (let cert_dir = abspath cwd (xa_cert_dir args); out_dir = export_dir cwd args in
      io_bind (read_file (path_join cert_dir ''fed-ca.crt'')) (\<lambda>ca_pem.
      io_bind (read_file (path_join cert_dir ''server.crt'')) (\<lambda>server_pem.
      io_bind (io_of (cr_load C server_pem)) (\<lambda>server_leaf_cert.
      io_bind (makedirs out_dir) (\<lambda>_.
      write_bundle C umask out_dir ca_pem (export_server_id args server_leaf_cert) (xa_our_address args)
        (xa_listen_port args) (leaf_fingerprint_sha256_colon_hex (cr_digest C server_leaf_cert)))))))"

definition cmd_export :: "crypto \<Rightarrow> (nat \<Rightarrow> nat) \<Rightarrow> string \<Rightarrow> export_args \<Rightarrow> int io" where
  "cmd_export C umask cwd args F =
     (let cert_dir = abspath cwd (xa_cert_dir args) in
      if \<not> is_file F (path_join cert_dir ''fed-ca.crt'') then (Inr 1, F)
      else if \<not> is_file F (path_join cert_dir ''server.crt'') then (Inr 1, F)
      else
        io_bind (export_public C umask cwd args) (\<lambda>_.
        io_bind (if xa_zip args then write_zip C umask (export_dir cwd args) else io_return ()) (\<lambda>_.
        io_return 0)) F)"

lemma nl_em_dash [simp]: "nl \<notin> set em_dash"
  by (simp add: em_dash_def)

section \<open>An export tells nothing of the keys\<close>

text \<open>Two file systems that agree but for the contents of key files.\<close>

definition key_path :: "string list \<Rightarrow> bool" where
  "key_path ps = (ps \<noteq> [] \<and> suffix ''.key'' (last ps))"

fun same_kind :: "node option \<Rightarrow> node option \<Rightarrow> bool" where
  "same_kind (Some (File _ m)) (Some (File _ m')) = (m = m')"
| "same_kind x y = (x = y)"

definition agree :: "fs \<Rightarrow> fs \<Rightarrow> bool" where
  "agree F G = (\<forall>q. same_kind (node_at F q) (node_at G q) \<and> (\<not> key_path q \<longrightarrow> node_at F q = node_at G q))"

definition agreeing :: "'a io \<Rightarrow> bool" where
  "agreeing m = (\<forall>F G. agree F G \<longrightarrow> fst (m F) = fst (m G) \<and> agree (snd (m F)) (snd (m G)))"

lemma same_kind_refl [simp]: "same_kind x x"
  by (cases x rule: same_kind.cases [of "(x, x)" for x]) (auto split: node.split option.split)

lemma agree_node: "agree F G \<Longrightarrow> \<not> key_path q \<Longrightarrow> node_at F q = node_at G q"
  by (simp add: agree_def)

lemma agreeing_of [simp]: "agreeing (io_of r)" "agreeing (io_return x)"
  by (simp_all add: agreeing_def)

lemma agreeing_bind:
  assumes "agreeing m" "\<And>x. agreeing (f x)"
  shows "agreeing (io_bind m f)"
  unfolding agreeing_def
proof (intro allI impI)
  fix F G assume "agree F G"
  with assms(1) have m: "fst (m F) = fst (m G)" "agree (snd (m F)) (snd (m G))" by (auto simp: agreeing_def)
  then obtain r F' G' where r: "m F = (r, F')" "m G = (r, G')" by (cases "m F"; cases "m G") auto
  with m assms(2) show "fst (io_bind m f F) = fst (io_bind m f G) \<and> agree (snd (io_bind m f F)) (snd (io_bind m f G))"
    by (cases r) (auto simp: io_bind_def agreeing_def)
qed

lemma agree_dset:
  assumes "agree F G"
  shows "agree (dset p n F) (dset p n G)"
proof -
  have "node_at (dset p n H) q = (if q = p \<and> p \<noteq> [] then Some n else node_at H q)" for H q by (simp add: node_at_def)
  with assms show ?thesis by (simp add: agree_def)
qed

lemma agree_dir: "agree F G \<Longrightarrow> node_at F q = Some Dir \<longleftrightarrow> node_at G q = Some Dir"
  by (auto simp: agree_def elim!: allE [of _ q])

lemma agreeing_make_dirs: "agreeing (make_dirs pre cs)"
  unfolding agreeing_def
proof (intro allI impI)
  fix F G show "agree F G \<Longrightarrow> fst (make_dirs pre cs F) = fst (make_dirs pre cs G) \<and>
      agree (snd (make_dirs pre cs F)) (snd (make_dirs pre cs G))"
  proof (induction pre cs F arbitrary: G rule: make_dirs.induct)
    case (2 pre c cs F)
    have k: "same_kind (node_at F (pre @ [c])) (node_at G (pre @ [c]))" using 2(3) by (simp add: agree_def)
    show ?case
    proof (cases "node_at F (pre @ [c])")
      case None
      with k have "node_at G (pre @ [c]) = None" by (cases "node_at G (pre @ [c])") auto
      with 2(1) [OF None agree_dset [OF 2(3)]] None show ?thesis by simp
    next
      case (Some n)
      show ?thesis
      proof (cases n)
        case Dir
        with Some k have "node_at G (pre @ [c]) = Some Dir" by (cases "node_at G (pre @ [c])") auto
        with 2(2) [OF Some Dir 2(3)] Some Dir show ?thesis by simp
      next
        case (File x m)
        with Some k obtain y where "node_at G (pre @ [c]) = Some (File y m)"
          by (cases "node_at G (pre @ [c])" rule: option.exhaust; cases "the (node_at G (pre @ [c]))") auto
        with Some File 2(3) show ?thesis by simp
      qed
    qed
  qed simp
qed

lemma agreeing_makedirs [simp]: "agreeing (makedirs p)"
  by (simp add: makedirs_def agreeing_make_dirs)

lemma agreeing_read_file: "\<not> key_path (locate p) \<Longrightarrow> agreeing (read_file p)"
  by (auto simp: agreeing_def read_file_def dest: agree_node)

lemma agreeing_write_file:
  assumes "\<not> key_path (locate p)"
  shows "agreeing (write_file umask excl mode p c)"
  unfolding agreeing_def
proof (intro allI impI)
  fix F G assume a: "agree F G"
  note n = agree_node [OF a assms] agree_dir [OF a, of "butlast (locate p)"]
  show "fst (write_file umask excl mode p c F) = fst (write_file umask excl mode p c G) \<and>
      agree (snd (write_file umask excl mode p c F)) (snd (write_file umask excl mode p c G))"
    using a by (auto simp: write_file_def Let_def n intro!: agree_dset split: option.split node.split)
qed

lemma key_path_name: "component n \<Longrightarrow> key_path (locate (path_join d n)) = suffix ''.key'' n"
  by (simp add: locate_join_name key_path_def)

lemma not_key_name [simp]:
  "\<not> suffix ''.key'' ''fed-ca.crt''" "\<not> suffix ''.key'' ''server.crt''" "\<not> suffix ''.key'' ''README.md''"
  "\<not> suffix ''.key'' ''ots-federation-federate-stanza.ini''" "\<not> suffix ''.key'' ''takserver-federate-stanza.xml''"
  by (simp_all add: suffix_def append_eq_Cons_conv)

lemma component_name [simp]:
  "component ''fed-ca.crt''" "component ''server.crt''" "component ''README.md''"
  "component ''ots-federation-federate-stanza.ini''" "component ''takserver-federate-stanza.xml''"
  by (simp_all add: component_def plain_def)

lemma agreeing_export: "agreeing (export_public C umask cwd args)"
  unfolding export_public_def write_bundle_def Let_def
  by (intro agreeing_bind agreeing_write_file agreeing_read_file agreeing_makedirs agreeing_of) (simp_all add: key_path_name)

lemma agreeingD: "agreeing m \<Longrightarrow> agree F G \<Longrightarrow> fst (m F) = fst (m G) \<and> agree (snd (m F)) (snd (m G))"
  by (simp add: agreeing_def)

lemma agree_is_file: "agree F G \<Longrightarrow> \<not> key_path (locate p) \<Longrightarrow> is_file F p = is_file G p"
  by (simp add: is_file_def agree_node)

text \<open>What an export writes: its four files, and the directories on the way to them.\<close>

definition bundle_names :: "string list" where
  "bundle_names = [''fed-ca.crt'', ''ots-federation-federate-stanza.ini'', ''takserver-federate-stanza.xml'', ''README.md'']"

definition only_bundle :: "string \<Rightarrow> fs \<Rightarrow> fs \<Rightarrow> bool" where
  "only_bundle d F G =
     (\<forall>q. q \<notin> (\<lambda>n. locate d @ [n]) ` set bundle_names \<longrightarrow>
        node_at G q = node_at F q \<or> node_at F q = None \<and> node_at G q = Some Dir \<and> prefix q (locate d))"

interpretation written: io_relation "only_bundle d" for d
proof unfold_locales
  fix F G H
  show "only_bundle d F F" by (simp add: only_bundle_def)
  show "only_bundle d F G \<Longrightarrow> only_bundle d G H \<Longrightarrow> only_bundle d F H"
    unfolding only_bundle_def by (metis option.distinct(1))
qed

lemma only_bundle_write: "component n \<Longrightarrow> n \<in> set bundle_names \<Longrightarrow>
  only_bundle d F (snd (write_file umask excl mode (path_join d n) c F))"
  unfolding only_bundle_def using write_file_frame [of _ "path_join d n" umask excl mode c F]
  by (auto simp: locate_join_name)

lemma only_bundle_makedirs: "only_bundle d F (snd (makedirs d F))"
  unfolding only_bundle_def using makedirs_keeps [of F _ _ d] makedirs_new [of F _ d] by (metis not_None_eq)

lemma export_writes: "only_bundle (export_dir cwd args) F (snd (export_public C umask cwd args F))"
  unfolding export_public_def write_bundle_def Let_def
  by (intro written.bind written.nothing only_bundle_makedirs only_bundle_write) (simp_all add: bundle_names_def)

text \<open>
  C25. Without an archive, \<open>export\<close> gives no private key away. From two file systems that
  agree but for the contents of files named \<open>.key\<close>, whatever and wherever they are, it returns
  the same and leaves file systems that agree again, so that every file of the bundle and
  every other file that is not named so has the same content; and whatever it returns, it
  writes nothing but the four files of the bundle: every other path, in the bundle's directory or
  elsewhere, is as it was, but for directories made on the way to that directory. So it
  copies no key, under any name.
\<close>

theorem export_ignores_private_keys:
  assumes "agree F G" "\<not> xa_zip args"
  shows "fst (cmd_export C umask cwd args F) = fst (cmd_export C umask cwd args G) \<and>
    agree (snd (cmd_export C umask cwd args F)) (snd (cmd_export C umask cwd args G)) \<and>
    (\<forall>q. q \<notin> (\<lambda>n. locate (export_dir cwd args) @ [n]) ` set bundle_names \<longrightarrow>
       node_at (snd (cmd_export C umask cwd args F)) q = node_at F q \<or>
       node_at F q = None \<and> node_at (snd (cmd_export C umask cwd args F)) q = Some Dir \<and>
         prefix q (locate (export_dir cwd args)))"
proof -
  let ?d = "abspath cwd (xa_cert_dir args)"
  let ?run = "io_bind (export_public C umask cwd args) (\<lambda>_. io_bind (io_return ()) (\<lambda>_. io_return 0)) :: int io"
  have "agreeing ?run" by (intro agreeing_bind agreeing_export agreeing_of)
  note r = agreeingD [OF this assms(1)]
  have x: "cmd_export C umask cwd args H =
      (if is_file H (path_join ?d ''fed-ca.crt'') \<and> is_file H (path_join ?d ''server.crt'') then ?run H else (Inr 1, H))" for H
    using assms(2) by (simp add: cmd_export_def Let_def)
  have "only_bundle (export_dir cwd args) F (snd (?run F))"
    by (intro written.bind written.nothing export_writes)
  then have w: "only_bundle (export_dir cwd args) F (snd (cmd_export C umask cwd args F))"
    by (simp only: x) (auto simp: written.refl)
  have "is_file F (path_join ?d ''fed-ca.crt'') = is_file G (path_join ?d ''fed-ca.crt'')"
    "is_file F (path_join ?d ''server.crt'') = is_file G (path_join ?d ''server.crt'')"
    using assms(1) by (simp_all add: agree_is_file key_path_name)
  with r assms(1) have "fst (cmd_export C umask cwd args F) = fst (cmd_export C umask cwd args G) \<and>
    agree (snd (cmd_export C umask cwd args F)) (snd (cmd_export C umask cwd args G))"
    by (cases "is_file G (path_join ?d ''fed-ca.crt'') \<and> is_file G (path_join ?d ''server.crt'')")
      (auto simp only: x if_True if_False simp_thms fst_conv snd_conv)
  with w show ?thesis unfolding only_bundle_def by blast
qed

text \<open>The same certificates next to two different keys.\<close>

definition exported_from :: "string \<Rightarrow> fs" where
  "exported_from key =
     [([''d''], Dir), ([''d'', ''fed-ca.crt''], File ''ca'' mode_0644), ([''d'', ''server.crt''], File ''crt'' mode_0644),
      ([''d'', ''server.key''], File key mode_0600)]"

definition sample_leaf :: certificate where
  "sample_leaf = \<lparr> x_subject = (''s'', ''o''), x_issuer = (''c'', ''o''), x_key = 1, x_serial = 1, x_not_before = 0, x_not_after = 365,
     x_ca = False, x_path_length = None, x_usage = [], x_ext_usage = [], x_san = [], x_subject_key = 1, x_authority_key = Some 0,
     x_signed_by = 0 \<rparr>"

definition export_crypto :: crypto where
  "export_crypto = sample_crypto\<lparr> cr_load := (\<lambda>_. Inr sample_leaf) \<rparr>"

definition sample_export :: export_args where
  "sample_export = \<lparr> xa_cert_dir = ''/d'', xa_out_dir = None, xa_server_id = None, xa_our_address = ''a'', xa_listen_port = 9101, xa_zip = False \<rparr>"

lemma agree_exported: "agree (exported_from k) (exported_from k')"
  by (simp add: agree_def exported_from_def node_at_def key_path_def suffix_def)

theorem export_ignores_private_keys_witness:
  "exported_from ''1'' \<noteq> exported_from ''2'' \<and>
   fst (cmd_export export_crypto id ''/'' sample_export (exported_from ''1'')) =
   fst (cmd_export export_crypto id ''/'' sample_export (exported_from ''2''))"
  using export_ignores_private_keys [OF agree_exported, of sample_export export_crypto id "''/''" "''1''" "''2''"]
  by (simp add: sample_export_def exported_from_def)

section \<open>The archive\<close>

definition bundle_files :: "crypto \<Rightarrow> string \<Rightarrow> string \<Rightarrow> string \<Rightarrow> int \<Rightarrow> string \<Rightarrow> (string \<times> string \<times> nat) list" where
  "bundle_files C ca_pem server_id address listen_port fp =
     [(''fed-ca.crt'', ca_pem, mode_0644),
      (''ots-federation-federate-stanza.ini'', unlines (export_ini_lines server_id address listen_port fp), mode_0666),
      (''takserver-federate-stanza.xml'', unlines (xml_header_lines server_id) @
         xml_tostring (cr_xml C) (build_federate_coreconfig_xml fp server_id address listen_port) @ [nl], mode_0666),
      (''README.md'', cr_readme C server_id address listen_port fp, mode_0666)]"

lemma write_bundle_all:
  "write_bundle C umask d ca_pem server_id address listen_port fp =
     write_all umask d (bundle_files C ca_pem server_id address listen_port fp)"
  by (rule ext) (simp add: write_bundle_def bundle_files_def io_bind_def split: prod.split sum.split)

lemma bundle_files_names:
  "list_all (\<lambda>(n, _). component n) (bundle_files C ca_pem server_id address listen_port fp)"
  "map fst (bundle_files C ca_pem server_id address listen_port fp) = bundle_names" "distinct bundle_names"
  by (simp_all add: bundle_files_def bundle_names_def)

lemma set_list_dir: "set (list_dir F d) = {n. locate d @ [n] \<in> fst ` set F}"
proof -
  have "{n. locate d @ [n] \<in> fst ` set F} = (\<lambda>n. locate d @ [n]) -` (fst ` set F)" by auto
  moreover have "finite \<dots>" by (intro finite_vimageI) (simp_all add: inj_def)
  ultimately show ?thesis by (simp add: list_dir_def py_sorted_def)
qed

lemma dir_entries_file:
  assumes "component n" "node_at F (locate d @ [n]) = Some (File c m)"
  shows "(n, c) \<in> set (dir_entries F d)"
proof -
  have "n \<in> set (list_dir F d)" using assms(2) by (auto simp: set_list_dir node_at_def dhas_Some)
  then show ?thesis unfolding dir_entries_def by (force simp: locate_join_name assms intro!: image_eqI [of _ _ n])
qed

lemma read_file_Inr: "read_file p F = (Inr c, F') \<longleftrightarrow> F' = F \<and> (\<exists>m. node_at F (locate p) = Some (File c m))"
  by (auto simp: read_file_def split: option.splits node.splits)

lemma export_public_Inr:
  assumes "export_public C umask cwd args F = (Inr u, F')" "d = abspath cwd (xa_cert_dir args)"
  shows "\<exists>ca_pem server_pem cert F1. read_file (path_join d ''fed-ca.crt'') F = (Inr ca_pem, F) \<and>
    read_file (path_join d ''server.crt'') F = (Inr server_pem, F) \<and> cr_load C server_pem = Inr cert \<and>
    makedirs (export_dir cwd args) F = (Inr (), F1) \<and>
    write_all umask (export_dir cwd args) (bundle_files C ca_pem (export_server_id args cert) (xa_our_address args) (xa_listen_port args)
      (leaf_fingerprint_sha256_colon_hex (cr_digest C cert))) F1 = (Inr (), F')"
  using assms by (simp add: export_public_def Let_def io_bind_Inr write_bundle_all read_file_Inr)

lemma export_keeps:
  assumes "export_public C umask cwd args F = (Inr (), F')" "component n" "n \<notin> set bundle_names"
    and "node_at F (locate (export_dir cwd args) @ [n]) = Some x"
  shows "node_at F' (locate (export_dir cwd args) @ [n]) = Some x"
proof -
  let ?d = "export_dir cwd args"
  from export_public_Inr [OF assms(1) refl] obtain F1 ca_pem i a p fp where m: "makedirs ?d F = (Inr (), F1)"
    and w: "write_all umask ?d (bundle_files C ca_pem i a p fp) F1 = (Inr (), F')" by blast
  have "n \<notin> fst ` set (bundle_files C ca_pem i a p fp)"
    using assms(3) bundle_files_names(2) [of C ca_pem i a p fp] by (metis list.set_map)
  then have "node_at F' (locate ?d @ [n]) = node_at F1 (locate ?d @ [n])"
    by (intro write_all_frame [OF w bundle_files_names(1)]) auto
  with makedirs_keeps [OF assms(4), of ?d] m show ?thesis by simp
qed

text \<open>
  With an archive, \<open>export\<close> packs all that lies in its output directory, not the four files
  it wrote: any other file that was there, under any name, is in the archive with its content.
\<close>

theorem archive_packs_the_directory:
  assumes "cmd_export C umask cwd args F = (Inr 0, F')" "xa_zip args" "component n" "n \<notin> set bundle_names"
    and "node_at F (locate (export_dir cwd args) @ [n]) = Some (File c m)"
  shows "\<exists>es mode. node_at F' (locate (rstrip_slashes (export_dir cwd args) @ ''.zip'')) = Some (File (cr_zip C es) mode) \<and> (n, c) \<in> set es"
proof -
  let ?d = "export_dir cwd args"
  obtain F1 where x: "export_public C umask cwd args F = (Inr (), F1)" and z: "write_zip C umask ?d F1 = (Inr (), F')"
    using assms(1,2) by (auto simp: cmd_export_def Let_def io_bind_Inr split: if_splits)
  have "(n, c) \<in> set (dir_entries F1 ?d)" by (rule dir_entries_file [OF assms(3) export_keeps [OF x assms(3-5)]])
  then show ?thesis using write_file_Inr [OF z [unfolded write_zip_def]] by auto
qed

text \<open>The bundle is written into the directory of the certificates.\<close>

definition zip_in_place :: export_args where
  "zip_in_place = sample_export\<lparr> xa_out_dir := Some ''/d'', xa_zip := True \<rparr>"

lemma zip_in_place_paths:
  "abspath ''/'' (xa_cert_dir zip_in_place) = ''/d''" "export_dir ''/'' zip_in_place = ''/d''"
  "locate (rstrip_slashes ''/d'' @ ''.zip'') = [''d.zip'']"
  by (simp_all add: zip_in_place_def sample_export_def export_dir_def truthy_def abspath_def is_abs_def normpath_def
      leading_slashes_def rstrip_slashes_def locate_def)

lemma zip_in_place_runs: "\<exists>F'. cmd_export export_crypto id ''/'' zip_in_place (exported_from k) = (Inr 0, F')"
proof -
  let ?F = "exported_from k"
  have r: "read_file (path_join ''/d'' ''fed-ca.crt'') ?F = (Inr ''ca'', ?F)" "read_file (path_join ''/d'' ''server.crt'') ?F = (Inr ''crt'', ?F)"
    by (simp_all add: read_file_Inr locate_join_name sample_out) (simp_all add: exported_from_def node_at_def)
  have f: "is_file ?F (path_join ''/d'' ''fed-ca.crt'')" "is_file ?F (path_join ''/d'' ''server.crt'')"
    by (simp_all add: is_file_def locate_join_name sample_out) (simp_all add: exported_from_def node_at_def)
  have l: "cr_load export_crypto x = Inr sample_leaf" for x by (simp add: export_crypto_def)
  have m: "makedirs ''/d'' ?F = (Inr (), ?F)" by (simp add: makedirs_def sample_out) (simp add: exported_from_def node_at_def)
  let ?b = "bundle_files export_crypto ''ca'' (export_server_id zip_in_place sample_leaf) (xa_our_address zip_in_place)
      (xa_listen_port zip_in_place) (leaf_fingerprint_sha256_colon_hex (cr_digest export_crypto sample_leaf))"
  have "writable ''/d'' ?F" by (simp add: writable_def sample_out) (simp add: exported_from_def node_at_def)
  from write_all_ok [OF this bundle_files_names(1)] obtain F1 where w: "write_all id ''/d'' ?b ?F = (Inr (), F1)" by blast
  have e: "export_public export_crypto id ''/'' zip_in_place ?F = (Inr (), F1)"
    by (simp add: export_public_def Let_def zip_in_place_paths io_bind_def r m write_bundle_all l w)
  have "node_at F1 [''d.zip''] = node_at ?F [''d.zip'']"
    by (rule write_all_frame [OF w bundle_files_names(1)]) (simp add: sample_out)
  then have z: "node_at F1 [''d.zip''] = None" by (simp add: exported_from_def node_at_def)
  have "\<exists>F'. write_zip export_crypto id ''/d'' F1 = (Inr (), F')"
    unfolding write_zip_def write_file_def zip_in_place_paths Let_def z by (simp add: node_at_def)
  with e f show ?thesis by (auto simp: cmd_export_def zip_in_place_paths Let_def io_bind_Inr)
qed

theorem archive_packs_the_directory_witness:
  "\<exists>F' es mode. cmd_export export_crypto id ''/'' zip_in_place (exported_from ''secret'') = (Inr 0, F') \<and>
     node_at F' [''d.zip''] = Some (File (cr_zip export_crypto es) mode) \<and> (''server.key'', ''secret'') \<in> set es"
proof -
  obtain F' where r: "cmd_export export_crypto id ''/'' zip_in_place (exported_from ''secret'') = (Inr 0, F')"
    using zip_in_place_runs by blast
  have "xa_zip zip_in_place" "component ''server.key''" "''server.key'' \<notin> set bundle_names"
    by (simp_all add: zip_in_place_def component_def plain_def bundle_names_def)
  from archive_packs_the_directory [OF r this, unfolded zip_in_place_paths sample_out, of "''secret''" mode_0600] r
  show ?thesis by (simp add: exported_from_def node_at_def)
qed

end
