(* ===== verification/Fed_Staging.thy ===== *)
theory Fed_Staging
  imports Fed_Bundle
begin

text \<open>
  gen_fed_ca.py: the command that stages the material of a server for the fleet, and which
  command a call is. Arguments are taken as parsed. Where the staging file goes, what it
  holds, and which guard keeps it out of the ansible tree.
\<close>

section \<open>The command \<open>apply\<close>\<close>

definition ANSIBLE_TREE_ROOT :: string where
  "ANSIBLE_TREE_ROOT = ''/opt/fleet/ansible''"

record apply_args =
  pa_cert_dir :: string
  pa_host :: string
  pa_out_dir :: string
  pa_force :: bool

text \<open>
  \<open>textwrap.indent\<close>: the prefix before every line that is not blank; the lines of PEM text end
  in a newline.
\<close>

definition indent_text :: "string \<Rightarrow> string \<Rightarrow> string" where
  "indent_text pre text =
     py_join nl (map (\<lambda>l. if py_strip l = [] then l else pre @ l) (py_split nl text))"

definition staging_yaml :: "string \<Rightarrow> string \<Rightarrow> string \<Rightarrow> string \<Rightarrow> string \<Rightarrow> string" where
  \<open>staging_yaml cert_dir cert_source_note ca_pem cert_pem key_pem =
     unlines
      [''# PLAINTEXT staging file '' @ em_dash @ '' NOT sops-encrypted. Generated by 'ots-fed-certs apply'.'',
       ''# Source cert material: '' @ cert_dir @ '' ('' @ cert_source_note @ '').'',
       ''# Encrypt this with sops BEFORE it ever reaches the ansible tree, then delete it.'',
       ''# Key names below match project_roles/ots_server/tasks/ssl.yml on the ansible'',
       ''# repo's main branch '' @ em_dash @ '' do not rename.'',
       ''ots_fed_ca_crt: |'', indent_text ''  '' ca_pem,
       ''ots_fed_server_cert: |'', indent_text ''  '' cert_pem,
       ''ots_fed_server_key: |'', indent_text ''  '' key_pem]\<close>

definition refused_dir :: "string \<Rightarrow> bool" where
  "refused_dir out_dir_abs =
     (out_dir_abs = normpath ANSIBLE_TREE_ROOT \<or> py_startswith out_dir_abs (normpath ANSIBLE_TREE_ROOT @ ''/''))"

definition staging_path :: "string \<Rightarrow> apply_args \<Rightarrow> string" where
  "staging_path cwd args =
     path_join (path_join (abspath cwd (pa_out_dir args)) (pa_host args)) ''ots-federation.plaintext.yml''"

definition cmd_apply :: "(nat \<Rightarrow> nat) \<Rightarrow> string \<Rightarrow> apply_args \<Rightarrow> int io" where
  "cmd_apply umask cwd args F =
     (let out_dir_abs = abspath cwd (pa_out_dir args);
          cert_dir = abspath cwd (pa_cert_dir args);
          ca_path = path_join cert_dir ''fed-ca.crt''; chain_path = path_join cert_dir ''server-chain.crt'';
          leaf_path = path_join cert_dir ''server.crt''; key_path = path_join cert_dir ''server.key'' in
      if refused_dir out_dir_abs then (Inr 1, F)
      else if \<not> is_file F ca_path \<or> \<not> is_file F key_path then (Inr 1, F)
      else if \<not> is_file F chain_path \<and> \<not> is_file F leaf_path then (Inr 1, F)
      else
        (let cert_path = (if is_file F chain_path then chain_path else leaf_path);
             cert_source_note = (if is_file F chain_path
               then ''server-chain.crt (leaf+CA '' @ em_dash @ '' safe for both taky and TAK Server peers)''
               else ''server.crt (bare leaf '' @ em_dash @ '' NOT TAK Server FIG-interop safe; regenerate for server-chain.crt)'') in
         if path_exists F (staging_path cwd args) \<and> \<not> pa_force args then (Inr 1, F)
         else
           io_bind (makedirs (path_join out_dir_abs (pa_host args))) (\<lambda>_.
           io_bind (read_file ca_path) (\<lambda>ca_pem.
           io_bind (read_file cert_path) (\<lambda>cert_pem.
           io_bind (read_file key_path) (\<lambda>key_pem.
           io_bind (write_file umask (\<not> pa_force args) mode_0600 (staging_path cwd args)
              (staging_yaml cert_dir cert_source_note ca_pem cert_pem key_pem)) (\<lambda>_.
           io_return 0))))) F))"

section \<open>The command line\<close>

datatype subcommand = Generate | Export | Apply

definition SUBCOMMANDS :: "(string, subcommand) dict" where
  "SUBCOMMANDS = [(''generate'', Generate), (''export'', Export), (''apply'', Apply)]"

text \<open>The command and its arguments; without one, all are those of \<open>generate\<close>.\<close>

definition dispatch :: "string list \<Rightarrow> subcommand \<times> string list" where
  "dispatch argv =
     (case argv of
        [] \<Rightarrow> (Generate, [])
      | a # as \<Rightarrow> (case dget SUBCOMMANDS a of Some c \<Rightarrow> (c, as) | None \<Rightarrow> (Generate, argv)))"


section \<open>Where the staging file goes\<close>

definition ansible_tree :: "string list" where
  "ansible_tree = locate ANSIBLE_TREE_ROOT"

lemma ansible_root: "normpath ANSIBLE_TREE_ROOT = ''/opt/fleet/ansible''" "ansible_tree = [''opt'', ''fleet'', ''ansible'']"
  by (simp_all add: ANSIBLE_TREE_ROOT_def ansible_tree_def normpath_def is_abs_def leading_slashes_def locate_def)

lemma abspath_shape:
  assumes "is_abs cwd" "\<not> py_startswith (abspath cwd p) ''//''"
  shows "abspath cwd p = CHR ''/'' # py_join (CHR ''/'') (locate (abspath cwd p))"
proof -
  let ?p = "if is_abs p then p else path_join cwd p"
  have "is_abs ?p" using assms(1) by (cases cwd) (auto simp: is_abs_def path_join_def)
  note n = normpath_abs [OF this] locate_normpath [OF this]
  have "leading_slashes ?p = 1 \<or> leading_slashes ?p = 2" using n(2) by (simp add: leading_slashes_def split: if_splits)
  moreover have "leading_slashes ?p \<noteq> 2"
    using assms(2) n(1) by (auto simp: abspath_def numeral_2_eq_2)
  ultimately show ?thesis using n(1,3) by (simp add: abspath_def)
qed

lemma refused_inside:
  assumes "is_abs cwd" "\<not> py_startswith (abspath cwd p) ''//''" "inside ansible_tree (locate (abspath cwd p))"
  shows "refused_dir (abspath cwd p)"
proof -
  obtain rest where "locate (abspath cwd p) = [''opt'', ''fleet'', ''ansible''] @ rest"
    using assms(3) by (auto simp: inside_def ansible_root(2) prefix_def)
  with abspath_shape [OF assms(1,2)]
  have "abspath cwd p = CHR ''/'' # py_join (CHR ''/'') ([''opt'', ''fleet'', ''ansible''] @ rest)" by simp
  then show ?thesis by (cases rest) (simp_all add: refused_dir_def ansible_root)
qed

lemma staging_location:
  "component (pa_host args) \<Longrightarrow>
   locate (staging_path cwd args) = locate (abspath cwd (pa_out_dir args)) @ [pa_host args, ''ots-federation.plaintext.yml'']"
  by (simp add: staging_path_def locate_join_name component_def plain_def)

text \<open>What a staging does to the files: one file, and the directories that lead to it.\<close>

lemma cmd_apply_cases:
  assumes "d = abspath cwd (pa_cert_dir args)"
  obtains "cmd_apply umask cwd args F = (Inr 1, F)"
  | F1 r where "\<not> refused_dir (abspath cwd (pa_out_dir args))"
      "makedirs (path_join (abspath cwd (pa_out_dir args)) (pa_host args)) F = (r, F1)"
      "snd (cmd_apply umask cwd args F) = F1" "\<And>x. fst (cmd_apply umask cwd args F) \<noteq> Inr x"
  | F1 ca_pem cert_pem key_pem cert_note where "\<not> refused_dir (abspath cwd (pa_out_dir args))"
      "\<not> path_exists F (staging_path cwd args) \<or> pa_force args"
      "makedirs (path_join (abspath cwd (pa_out_dir args)) (pa_host args)) F = (Inr (), F1)"
      "read_file (path_join d ''fed-ca.crt'') F1 = (Inr ca_pem, F1)"
      "read_file (path_join d ''server.key'') F1 = (Inr key_pem, F1)"
      "read_file (path_join d (if is_file F (path_join d ''server-chain.crt'') then ''server-chain.crt'' else ''server.crt'')) F1 = (Inr cert_pem, F1)"
      "cmd_apply umask cwd args F = io_bind (write_file umask (\<not> pa_force args) mode_0600 (staging_path cwd args)
         (staging_yaml d cert_note ca_pem cert_pem key_pem)) (\<lambda>_. io_return 0) F1"
proof -
  have rd: "snd (read_file p H) = H" for p H by (simp add: read_file_def)
  obtain r F1 where m: "makedirs (path_join (abspath cwd (pa_out_dir args)) (pa_host args)) F = (r, F1)" by fastforce
  let ?cert = "path_join d (if is_file F (path_join d ''server-chain.crt'') then ''server-chain.crt'' else ''server.crt'')"
  obtain ra where a: "read_file (path_join d ''fed-ca.crt'') F1 = (ra, F1)" by (metis rd prod.collapse)
  obtain rk where k: "read_file (path_join d ''server.key'') F1 = (rk, F1)" by (metis rd prod.collapse)
  obtain rc where c: "read_file ?cert F1 = (rc, F1)" by (metis rd prod.collapse)
  show thesis
  proof (cases "cmd_apply umask cwd args F = (Inr 1, F)")
    case True
    then show thesis by (rule that(1))
  next
    case False
    then have g: "\<not> refused_dir (abspath cwd (pa_out_dir args))" "\<not> path_exists F (staging_path cwd args) \<or> pa_force args"
      by (auto simp: cmd_apply_def Let_def split: if_splits)
    obtain cert_note where e: "cmd_apply umask cwd args F =
        io_bind (makedirs (path_join (abspath cwd (pa_out_dir args)) (pa_host args))) (\<lambda>_.
        io_bind (read_file (path_join d ''fed-ca.crt'')) (\<lambda>ca_pem. io_bind (read_file ?cert) (\<lambda>cert_pem.
        io_bind (read_file (path_join d ''server.key'')) (\<lambda>key_pem.
        io_bind (write_file umask (\<not> pa_force args) mode_0600 (staging_path cwd args) (staging_yaml d cert_note ca_pem cert_pem key_pem)) (\<lambda>_.
        io_return 0))))) F"
      using False by (simp add: cmd_apply_def Let_def assms [symmetric] split: if_splits)
    show thesis
    proof (cases "\<exists>u x y z. r = Inr u \<and> ra = Inr x \<and> rc = Inr y \<and> rk = Inr z")
      case True
      then obtain x y z where "r = Inr ()" "ra = Inr x" "rc = Inr y" "rk = Inr z" by auto
      with m a k c g e show thesis by (intro that(3) [of F1 x z y cert_note]) (simp_all add: io_bind_def)
    next
      case f: False
      then have "snd (cmd_apply umask cwd args F) = F1 \<and> (\<forall>x. fst (cmd_apply umask cwd args F) \<noteq> Inr x)"
        using m a k c by (cases r; cases ra; cases rc; cases rk) (simp_all add: e io_bind_def)
      with g m show thesis by (intro that(2)) auto
    qed
  qed
qed

lemma staging_outside:
  assumes "component (pa_host args)" "is_abs cwd" "\<not> py_startswith (abspath cwd (pa_out_dir args)) ''//''"
    and "locate (abspath cwd (pa_out_dir args)) @ [pa_host args] \<noteq> ansible_tree" "\<not> refused_dir (abspath cwd (pa_out_dir args))"
    and "inside ansible_tree q"
  shows "\<not> prefix q (locate (abspath cwd (pa_out_dir args)) @ [pa_host args])" "q \<noteq> locate (staging_path cwd args)"
proof -
  let ?o = "locate (abspath cwd (pa_out_dir args))"
  have no: "\<not> prefix ansible_tree ?o" using refused_inside [OF assms(2,3)] assms(5) by (auto simp: inside_def)
  have s: "prefix ansible_tree (xs @ [x]) \<longleftrightarrow> ansible_tree = xs @ [x] \<or> prefix ansible_tree xs" for xs x by simp
  have nh: "\<not> prefix ansible_tree (?o @ [pa_host args])" using no assms(4) by (simp only: s) simp
  then show "\<not> prefix q (?o @ [pa_host args])" using assms(6) by (auto simp: inside_def dest: prefix_order.trans)
  have "ansible_tree \<noteq> xs @ [''ots-federation.plaintext.yml'']" for xs
  proof
    assume "ansible_tree = xs @ [''ots-federation.plaintext.yml'']"
    then have "last ansible_tree = ''ots-federation.plaintext.yml''" by (metis last_snoc)
    then show False by (simp add: ansible_root)
  qed
  then have "\<not> prefix ansible_tree ((?o @ [pa_host args]) @ [''ots-federation.plaintext.yml''])" using nh by (simp only: s) simp
  then show "q \<noteq> locate (staging_path cwd args)" using assms(1,6) by (auto simp: inside_def staging_location)
qed

text \<open>
  C26. \<open>apply\<close> never touches the ansible tree, whatever it returns (each path of the tree has what
  it had), provided that the host is a plain name, one component of a path, that the output
  directory does not begin with two slashes, and that the host does not complete it to the
  tree itself, as \<open>ansible\<close> does \<open>/opt/fleet\<close>.
\<close>

theorem apply_stays_out_of_the_ansible_tree:
  assumes "component (pa_host args)" "is_abs cwd" "\<not> py_startswith (abspath cwd (pa_out_dir args)) ''//''"
    and "locate (abspath cwd (pa_out_dir args)) @ [pa_host args] \<noteq> ansible_tree"
    and "inside ansible_tree q"
  shows "node_at (snd (cmd_apply umask cwd args F)) q = node_at F q"
proof -
  let ?h = "path_join (abspath cwd (pa_out_dir args)) (pa_host args)"
  have dirs: "node_at (snd (makedirs ?h F)) q = node_at F q" if "\<not> refused_dir (abspath cwd (pa_out_dir args))"
    using staging_outside(1) [OF assms(1-4) that assms(5)] makedirs_keeps [of F q _ ?h] makedirs_new [of F q ?h]
    by (cases "node_at F q") (auto simp: locate_join_name assms(1))
  show ?thesis
  proof (cases rule: cmd_apply_cases [OF refl, of umask cwd args F])
    case 1
    then show ?thesis by simp
  next
    case 2
    with dirs show ?thesis by simp
  next
    case (3 F1 ca_pem cert_pem key_pem n)
    have "node_at (snd (io_bind (write_file umask e mode_0600 (staging_path cwd args) c) (\<lambda>_. io_return 0) F1)) q = node_at F1 q" for e c
      using write_file_frame [OF staging_outside(2) [OF assms(1-4) 3(1) assms(5)], of umask e mode_0600 c F1]
      by (auto simp: io_bind_def split: prod.split sum.split)
    with 3 dirs show ?thesis by simp
  qed
qed

text \<open>Without these the guard can be passed: the path is inside of the tree and not refused.\<close>

definition staged :: "string \<Rightarrow> string \<Rightarrow> apply_args" where
  "staged out_dir host = \<lparr> pa_cert_dir = ''/d'', pa_host = host, pa_out_dir = out_dir, pa_force = False \<rparr>"

definition escapes :: "apply_args \<Rightarrow> bool" where
  "escapes args = (\<not> refused_dir (abspath ''/'' (pa_out_dir args)) \<and> inside ansible_tree (locate (staging_path ''/'' args)))"

lemma apply_guard_escapes:
  "escapes (staged ''/tmp'' ''/opt/fleet/ansible/h'')" "escapes (staged ''/tmp'' ''../opt/fleet/ansible/h'')"
  "escapes (staged ''/opt/fleet'' ''ansible'')" "escapes (staged ''//opt/fleet/ansible'' ''h'')"
  by (simp_all add: escapes_def staged_def staging_path_def refused_dir_def ansible_root(2) ANSIBLE_TREE_ROOT_def numeral_2_eq_2 abspath_def is_abs_def normpath_def
      leading_slashes_def path_join_def locate_def inside_def)

theorem apply_stays_out_of_the_ansible_tree_witness:
  "node_at (snd (cmd_apply id ''/'' (staged ''/tmp'' ''h'') (exported_from ''1''))) [''opt'', ''fleet'', ''ansible'', ''x''] = None"
proof -
  have "abspath ''/'' (pa_out_dir (staged ''/tmp'' ''h'')) = ''/tmp''" "locate ''/tmp'' = [''tmp'']"
    by (simp_all add: staged_def abspath_def is_abs_def normpath_def leading_slashes_def locate_def)
  moreover have "node_at (exported_from ''1'') [''opt'', ''fleet'', ''ansible'', ''x''] = None" by (simp add: exported_from_def node_at_def)
  ultimately show ?thesis
    using apply_stays_out_of_the_ansible_tree [of "staged ''/tmp'' ''h''" "''/''" "[''opt'', ''fleet'', ''ansible'', ''x'']" id "exported_from ''1''"]
    by (simp add: staged_def component_def plain_def ansible_root inside_def is_abs_def)
qed

text \<open>
  The staging file: when \<open>apply\<close> returns 0, the file under the directory of the host holds
  the CA, the certificate (the chain where there is one) and the key, indented under their
  names; a new one has the mode that is left of 0600; one that was there is replaced only by
  force, and keeps its mode.
\<close>

theorem apply_stages_material:
  assumes "cmd_apply umask cwd args F = (Inr 0, F')" "d = locate (abspath cwd (pa_cert_dir args))" "p = locate (staging_path cwd args)"
  shows "\<exists>ca_pem cert_pem key_pem cert_note mode m1 m2 m3.
    node_at F' p = Some (File (staging_yaml (abspath cwd (pa_cert_dir args)) cert_note ca_pem cert_pem key_pem) mode) \<and>
    (case node_at F p of None \<Rightarrow> mode = umask mode_0600 | Some n \<Rightarrow> pa_force args \<and> (\<exists>c. n = File c mode)) \<and>
    node_at F (d @ [''fed-ca.crt'']) = Some (File ca_pem m1) \<and> node_at F (d @ [''server.key'']) = Some (File key_pem m2) \<and>
    node_at F (d @ [if (\<exists>c m. node_at F (d @ [''server-chain.crt'']) = Some (File c m)) then ''server-chain.crt'' else ''server.crt''])
      = Some (File cert_pem m3)"
proof (cases rule: cmd_apply_cases [OF refl, of umask cwd args F])
  case 1
  with assms(1) show ?thesis by simp
next
  case 2
  from 2(4) [of 0] assms(1) show ?thesis by simp
next
  case (3 F1 ca_pem cert_pem key_pem cert_note)
  let ?h = "path_join (abspath cwd (pa_out_dir args)) (pa_host args)"
  have old: "node_at F1 q = Some (File c m) \<Longrightarrow> node_at F q = Some (File c m)" for q c m
    using makedirs_keeps [of F q _ ?h] makedirs_new [of F q ?h] 3(3) by (cases "node_at F q") auto
  have fwd: "node_at F q = Some n \<Longrightarrow> node_at F1 q = Some n" for q n
    using makedirs_keeps [of F q n ?h] 3(3) by simp
  have new: "node_at F q = None \<Longrightarrow> node_at F1 q = None \<or> node_at F1 q = Some Dir" for q
    using makedirs_new [of F q ?h] 3(3) by auto
  have w: "write_file umask (\<not> pa_force args) mode_0600 (staging_path cwd args)
      (staging_yaml (abspath cwd (pa_cert_dir args)) cert_note ca_pem cert_pem key_pem) F1 = (Inr (), F')"
    using assms(1) [unfolded 3(7)] by (simp add: io_bind_Inr)
  have f: "node_at F1 p \<noteq> Some Dir" using w by (auto simp: write_file_def Let_def assms(3) split: if_splits)
  have mode: "case node_at F p of None \<Rightarrow> mode_after F1 p (umask mode_0600) = umask mode_0600
      | Some n \<Rightarrow> pa_force args \<and> (\<exists>c. n = File c (mode_after F1 p (umask mode_0600)))"
  proof (cases "node_at F p")
    case None
    with new f have "node_at F1 p = None" by blast
    with None show ?thesis by (simp add: mode_after_def)
  next
    case (Some n)
    with fwd f 3(2) show ?thesis by (cases n) (auto simp: mode_after_def path_exists_def assms(3))
  qed
  have k: "component ''server.key''" "component ''server-chain.crt''" by (simp_all add: component_def plain_def)
  have chain: "is_file F (path_join (abspath cwd (pa_cert_dir args)) ''server-chain.crt'') \<longleftrightarrow>
      (\<exists>c m. node_at F (d @ [''server-chain.crt'']) = Some (File c m))"
    by (auto simp: is_file_def locate_join_name k assms(2) split: option.splits node.splits)
  obtain m1 m2 m3 where "node_at F (d @ [''fed-ca.crt'']) = Some (File ca_pem m1)" "node_at F (d @ [''server.key'']) = Some (File key_pem m2)"
    "node_at F (d @ [if (\<exists>c m. node_at F (d @ [''server-chain.crt'']) = Some (File c m)) then ''server-chain.crt'' else ''server.crt''])
      = Some (File cert_pem m3)"
    using 3(4-6) old unfolding chain by (auto simp: read_file_Inr locate_join_name k assms(2) [symmetric] split: if_splits)
  with mode write_file_Inr [OF w, of p] show ?thesis unfolding assms(3) by (auto simp del: split_paired_Ex)
qed

lemma staged_paths:
  "abspath ''/'' (pa_cert_dir (staged ''/tmp'' ''h'')) = ''/d''" "abspath ''/'' (pa_out_dir (staged ''/tmp'' ''h'')) = ''/tmp''"
  "locate (path_join ''/tmp'' ''h'') = [''tmp'', ''h'']" "\<not> refused_dir ''/tmp''"
  "locate (staging_path ''/'' (staged ''/tmp'' ''h'')) = [''tmp'', ''h'', ''ots-federation.plaintext.yml'']"
  by (simp_all add: staged_def staging_path_def refused_dir_def ansible_root(2) ANSIBLE_TREE_ROOT_def abspath_def is_abs_def normpath_def
      leading_slashes_def path_join_def locate_def)

theorem apply_stages_material_witness:
  "\<exists>F' c mode. cmd_apply id ''/'' (staged ''/tmp'' ''h'') (exported_from ''1'') = (Inr 0, F') \<and>
     node_at F' [''tmp'', ''h'', ''ots-federation.plaintext.yml''] = Some (File c mode) \<and> mode = mode_0600"
proof -
  let ?F = "exported_from ''1''" and ?a = "staged ''/tmp'' ''h''"
  let ?G = "dset [''tmp'', ''h''] Dir (dset [''tmp''] Dir ?F)"
  have at: "node_at ?F p = (if p = [] then Some Dir else dget ?F p)" "node_at ?G p = (if p = [] then Some Dir
      else if p = [''tmp'', ''h''] \<or> p = [''tmp''] then Some Dir else dget ?F p)" for p
    by (auto simp: node_at_def)
  have m: "makedirs (path_join ''/tmp'' ''h'') ?F = (Inr (), ?G)"
    by (simp add: makedirs_def staged_paths exported_from_def node_at_def)
  have h: "pa_host ?a = ''h''" "\<not> pa_force ?a" by (simp_all add: staged_def)
  have l: "component n \<Longrightarrow> locate (path_join ''/d'' n) = [''d'', n]" for n by (simp add: locate_join_name sample_out)
  have n: "component ''server.key''" "component ''server-chain.crt''" by (simp_all add: component_def plain_def)
  have f: "is_file ?F (path_join ''/d'' ''fed-ca.crt'')" "is_file ?F (path_join ''/d'' ''server.key'')" "is_file ?F (path_join ''/d'' ''server.crt'')"
    "\<not> is_file ?F (path_join ''/d'' ''server-chain.crt'')" "\<not> path_exists ?F (staging_path ''/'' ?a)"
    by (simp_all add: is_file_def path_exists_def l n staged_paths at) (simp_all add: exported_from_def)
  have rd: "read_file (path_join ''/d'' ''fed-ca.crt'') ?G = (Inr ''ca'', ?G)" "read_file (path_join ''/d'' ''server.crt'') ?G = (Inr ''crt'', ?G)"
    "read_file (path_join ''/d'' ''server.key'') ?G = (Inr ''1'', ?G)"
    by (simp_all only: read_file_Inr l n component_name at) (simp_all add: exported_from_def)
  obtain F' where w: "write_file id True mode_0600 (staging_path ''/'' ?a)
      (staging_yaml ''/d'' (''server.crt (bare leaf '' @ em_dash @ '' NOT TAK Server FIG-interop safe; regenerate for server-chain.crt)'')
        ''ca'' ''crt'' ''1'') ?G = (Inr (), F')"
    by (simp only: write_file_def staged_paths Let_def at) (simp add: exported_from_def)
  have r: "cmd_apply id ''/'' ?a ?F = (Inr 0, F')"
    by (simp only: cmd_apply_def staged_paths h Let_def f io_bind_def m rd prod.case sum.case simp_thms if_False if_True w io_simps)
  have "node_at ?F [''tmp'', ''h'', ''ots-federation.plaintext.yml''] = None" by (simp add: at) (simp add: exported_from_def)
  with apply_stages_material [OF r refl refl] r show ?thesis by (auto simp: staged_paths)
qed

end
