(* ===== verification/Peer_Stanza.thy ===== *)
theory Peer_Stanza
  imports Fed_Bundle
begin

text \<open>
  The two ends of a stanza: the INI text that an export writes is read by config.py of the
  peer that pastes it, and the registry is built from it. What the peer then has of the
  exporting server, and what its groups are mapped to.
\<close>

section \<open>The stanza as a document\<close>

definition stanza_items :: "string \<Rightarrow> string \<Rightarrow> int \<Rightarrow> string \<Rightarrow> item list" where
  "stanza_items server_id address listen_port fp =
     map (Comment \<circ> tl) (take 5 (export_ini_lines server_id address listen_port fp)) @
     [Section (''federate:'' @ server_id), Option ''address'' address, Option ''display_name'' server_id,
      Option ''port'' (py_str listen_port), Option ''protocol'' ''grpc''] @
     map (Comment \<circ> tl) (take 1 (drop 10 (export_ini_lines server_id address listen_port fp))) @
     [Option ''ca_cert'' ''/path/to/fed-ca.crt''] @
     map (Comment \<circ> tl) (take 9 (drop 12 (export_ini_lines server_id address listen_port fp))) @
     [Option ''fingerprint'' fp] @
     map (Comment \<circ> tl) (take 3 (drop 22 (export_ini_lines server_id address listen_port fp))) @
     [Option ''accept_as'' ''*:'', Option ''share_as'' ''*:*'']"

lemma stanza_text: "export_ini_lines server_id address listen_port fp = map item_text (stanza_items server_id address listen_port fp)"
  by (simp add: export_ini_lines_def stanza_items_def section_text_def option_text_def)

lemma ini_word_fingerprint:
  assumes "normalize_fingerprint_colon_hex fp = Inr fp"
  shows "ini_word fp"
proof -
  have "hex_pairs 32 fp" using assms by (auto simp: normalize_fingerprint_colon_hex_def Let_def split: if_splits)
  then show ?thesis using hex_pairs_trimmed hex_pairs_ne hex_pairs_set [of 32 fp nl] by (auto simp: ini_word_def is_hex_def)
qed

lemma ini_word_literal:
  "ini_word ''grpc''" "ini_word ''/path/to/fed-ca.crt''" "ini_word ''*:''" "ini_word ''*:*''"
  by (simp_all add: ini_word_def trimmed_def py_ws_def)

lemma option_name_literal:
  "option_name ''address''" "option_name ''display_name''" "option_name ''port''" "option_name ''protocol''" "option_name ''ca_cert''"
  "option_name ''fingerprint''" "option_name ''accept_as''" "option_name ''share_as''"
  by (simp_all add: option_name_def)

definition stanza_section :: "string \<Rightarrow> string \<Rightarrow> int \<Rightarrow> string \<Rightarrow> (string, string) dict" where
  "stanza_section server_id address listen_port fp =
     [(''address'', address), (''display_name'', server_id), (''port'', py_str listen_port), (''protocol'', ''grpc''),
      (''ca_cert'', ''/path/to/fed-ca.crt''), (''fingerprint'', fp), (''accept_as'', ''*:''), (''share_as'', ''*:*'')]"

lemma read_stanza:
  assumes "ini_word server_id" "ini_word address" "normalize_fingerprint_colon_hex fp = Inr fp"
  shows "read_ini (unlines (export_ini_lines server_id address listen_port fp)) =
    Inr [(''federate:'' @ server_id, stanza_section server_id address listen_port fp)]"
proof -
  have "nl \<notin> set server_id" using assms(1) by (simp add: ini_word_def)
  then have "doc_ok [] (stanza_items server_id address listen_port fp)"
    using assms(1,2) ini_word_fingerprint [OF assms(3)]
    by (simp add: stanza_items_def export_ini_lines_def ini_word_int ini_word_literal option_name_literal)
  from read_ini_doc [OF this] show ?thesis
    unfolding stanza_text doc_text_def by (simp add: stanza_items_def export_ini_lines_def stanza_section_def)
qed

section \<open>The peer that it configures\<close>

definition stanza_peer :: "string \<Rightarrow> string \<Rightarrow> int \<Rightarrow> string \<Rightarrow> peer_config" where
  "stanza_peer server_id address listen_port fp =
     projr (parse_peer_section [(''federate:'' @ server_id, stanza_section server_id address listen_port fp)] (''federate:'' @ server_id))"

lemma stanza_peer_parses:
  assumes "ini_word server_id" "ini_word address" "normalize_fingerprint_colon_hex fp = Inr fp"
  shows "parse_peer_section [(''federate:'' @ server_id, stanza_section server_id address listen_port fp)] (''federate:'' @ server_id) =
      Inr (stanza_peer server_id address listen_port fp)"
    "pc_enabled (stanza_peer server_id address listen_port fp)" "pc_name (stanza_peer server_id address listen_port fp) = server_id"
    "pc_address (stanza_peer server_id address listen_port fp) = address" "pc_port (stanza_peer server_id address listen_port fp) = listen_port"
    "pc_display_name (stanza_peer server_id address listen_port fp) = server_id" "pc_protocol (stanza_peer server_id address listen_port fp) = ''grpc''"
    "pc_fingerprint (stanza_peer server_id address listen_port fp) = fp" "pc_server_id (stanza_peer server_id address listen_port fp) = []"
    "pc_group_map_in (stanza_peer server_id address listen_port fp) = ''*:''"
    "pc_group_map_out (stanza_peer server_id address listen_port fp) = ''*:*''"
    "\<not> pc_fallback_when_no_group_mappings (stanza_peer server_id address listen_port fp)"
  using assms(1,2) normalize_Inr(3) [OF assms(3)]
  by (simp_all add: stanza_peer_def parse_peer_section_def stanza_section_def ini_simps ini_word_def
      parse_fingerprint_canonical [OF assms(3)])

text \<open>\<open>*:*\<close> makes no outbound entry: for groups that leave, the default policy decides.\<close>

lemma share_all_entry: "entries_of ''*:*'' DOut = []"
  by (simp add: entries_of_def parse_group_map_def parse_group_token_def py_strip_def py_lstrip_def
      py_rstrip_def py_ws_def py_before_def py_after_def)

lemma add_map_text_share_all: "add_map_text p ''*:*'' DOut r = r"
  by (simp add: add_map_text_def share_all_entry add_entries_def Let_def)

lemma add_map_text_in_outbound: "r_outbound (add_map_text p ''*:'' DIn r) = r_outbound r"
  by (simp add: add_map_text_def block_all_entry add_entries_def add_peer_map_def Let_def)

lemma register_fingerprints_outbound:
  "r_outbound (register_fingerprints p r) = r_outbound r \<and> r_default_outbound (register_fingerprints p r) = r_default_outbound r"
proof -
  have "r_outbound (fold (\<lambda>part r. let fp = py_strip part in if fp = [] then r else register_fingerprint fp key r) parts r) = r_outbound r \<and>
      r_default_outbound (fold (\<lambda>part r. let fp = py_strip part in if fp = [] then r else register_fingerprint fp key r) parts r) = r_default_outbound r"
    for key parts by (induction parts arbitrary: r) (auto simp: Let_def register_fingerprint_def)
  then show ?thesis by (simp add: register_fingerprints_def Let_def)
qed

lemma add_map_text_in_default: "r_default_outbound (add_map_text p ''*:'' DIn r) = r_default_outbound r"
  by (simp add: add_map_text_def block_all_entry add_entries_def add_peer_map_def Let_def)

lemma stanza_outbound:
  assumes "pc_group_map_in p = ''*:''" "pc_group_map_out p = ''*:*''" "\<not> pc_fallback_when_no_group_mappings p"
  shows "r_outbound (add_peer p r) = r_outbound r \<and> r_default_outbound (add_peer p r) = r_default_outbound r"
  by (simp add: add_peer_def assms add_map_text_share_all add_map_text_in_outbound add_map_text_in_default register_fingerprints_outbound)

text \<open>
  C27. A stanza that was exported says to the peer that pastes it what the exporting server is:
  the text reads as one section, and this parses to one enabled peer with the id, the address,
  the port and the fingerprint of the certificate, to which the registry then resolves that
  fingerprint. But its wildcards admit nothing: as long as the peer has them, no group that
  comes from the server is mapped, and what leaves towards it is what the default policy says.
\<close>

theorem exported_stanza_reads_back:
  assumes "config_word server_id" "config_word address" "digest_ok digest"
    and "fp = leaf_fingerprint_sha256_colon_hex digest"
  shows "\<exists>C p. read_ini (unlines (export_ini_lines server_id address listen_port fp)) = Inr C \<and>
    parse_peers C (map fst C) = Inr [p] \<and>
    pc_name p = server_id \<and> pc_display_name p = server_id \<and> pc_address p = address \<and> pc_port p = listen_port \<and>
    pc_protocol p = ''grpc'' \<and> pc_fingerprint p = fp \<and>
    (\<forall>cfg gs lg. fc_peers cfg = [p] \<longrightarrow>
       resolve_peer_id_by_fingerprint (build_group_registry cfg) fp = Some (provisional_id p) \<and>
       map_inbound_groups (build_group_registry cfg) (provisional_id p) gs = None \<and>
       map_outbound (build_group_registry cfg) (provisional_id p) lg = map_outbound (default_policy cfg) (provisional_id p) lg)"
proof -
  have c: "normalize_fingerprint_colon_hex fp = Inr fp" using normalize_fingerprint [OF assms(3)] assms(4) by simp
  have w: "ini_word server_id" "ini_word address" using assms(1,2) by (simp_all add: config_word_def)
  let ?C = "[(''federate:'' @ server_id, stanza_section server_id address listen_port fp)]"
  let ?p = "stanza_peer server_id address listen_port fp"
  note p = stanza_peer_parses [OF w c, of listen_port]
  have "resolve_peer_id_by_fingerprint (build_group_registry cfg) fp = Some (provisional_id ?p) \<and>
      map_inbound_groups (build_group_registry cfg) (provisional_id ?p) gs = None \<and>
      map_outbound (build_group_registry cfg) (provisional_id ?p) lg = map_outbound (default_policy cfg) (provisional_id ?p) lg"
    if "fc_peers cfg = [?p]" for cfg gs lg
  proof (intro conjI)
    have r: "build_group_registry cfg = add_peer ?p (default_policy cfg)" using that by (simp add: build_group_registry_def)
    show "resolve_peer_id_by_fingerprint (build_group_registry cfg) fp = Some (provisional_id ?p)"
      using normalize_Inr [OF c]
      by (simp add: r add_peer_fingerprint register_fingerprints_get p(2,8,9) py_split_no_sep strip_normalized [OF c])
    have "dget (r_inbound (add_peer ?p (default_policy cfg))) (provisional_id ?p) = Some [(''*'', None)]"
      by (rule add_peer_block_all [OF p(2,10)]) (simp_all add: peer_keys_def)
    then have "map_inbound (build_group_registry cfg) (provisional_id ?p) g = None" for g
      by (simp add: r map_inbound_def lookup_in_table_def)
    then show "map_inbound_groups (build_group_registry cfg) (provisional_id ?p) gs = None"
      by (simp add: map_inbound_groups_def collect_inbound_eq Let_def)
    show "map_outbound (build_group_registry cfg) (provisional_id ?p) lg = map_outbound (default_policy cfg) (provisional_id ?p) lg"
      using stanza_outbound [OF p(10-12), of "default_policy cfg"] by (simp add: r map_outbound_def cong: option.case_cong)
  qed
  moreover have "parse_peers ?C (map fst ?C) = Inr [?p]" using p(1,2) by simp
  ultimately show ?thesis using read_stanza [OF w c, of listen_port] p(3-8) by blast
qed

theorem exported_stanza_reads_back_witness:
  "\<exists>C p. read_ini (unlines (export_ini_lines ''s 1'' ''h'' 9101 sample_fp)) = Inr C \<and> parse_peers C (map fst C) = Inr [p] \<and>
     pc_name p = ''s 1'' \<and> pc_port p = 9101 \<and> pc_fingerprint p = sample_fp"
  using exported_stanza_reads_back [of "''s 1''" "''h''" "replicate 32 171" sample_fp 9101]
  by (auto simp: config_word_def ini_word_def trimmed_def py_ws_def sample_fp_def digest_ok_def list_all_iff)

end
