(* ===== verification/Quickstart.thy ===== *)
theory Quickstart
  imports Fed_Bundle Session_Setup
begin

text \<open>
  quickstart.py: the command that sets a node up. It refuses to overwrite an earlier output
  unless forced, generates the certificates, writes the configuration and exports the bundle.
  Arguments are taken as parsed; whether OpenTAKServer can be imported and the names of the
  machine are parameters. What is printed is left out.
\<close>

section \<open>The command\<close>

definition DEFAULT_LISTEN_PORT :: int where "DEFAULT_LISTEN_PORT = 9101"

definition DEFAULT_ACCEPT_AS :: string where "DEFAULT_ACCEPT_AS = ''*:__ANON__''"

definition DEFAULT_SHARE_AS :: string where "DEFAULT_SHARE_AS = ''__ANON__:__ANON__''"

definition GENERATE_OUTPUT_FILES :: "string list" where
  "GENERATE_OUTPUT_FILES =
     [''fed-ca.key'', ''fed-ca.crt'', ''server.key'', ''server.crt'', ''server-chain.crt'',
      ''client.key'', ''client.crt'', ''client-chain.crt'']"

definition federation_ini_lines :: "string \<Rightarrow> int \<Rightarrow> string \<Rightarrow> string \<Rightarrow> string \<Rightarrow> string \<Rightarrow> string \<Rightarrow> string list" where
  \<open>federation_ini_lines server_id listen_port accept_as accept_as_local share_as cert_dir hint =
     [''# '' @ hint,
      ''# OTS federation plugin config, generated by ots-federation-quickstart.'',
      ''# Parsed by ots_federation.config.get_federation_config() on plugin load.'',
      ''# See README.qmd in the ots-federation-plugin source for the full field'',
      ''# reference and BYO-CA requirements.'',
      [],
      ''[federation]'',
      ''enabled = true'',
      ''server_id = '' @ server_id,
      ''listen_enabled = true'',
      ''listen_ip = 0.0.0.0'',
      ''listen_port = '' @ py_str listen_port,
      ''# SECURITY NOTE: accept_as/share_as below are WILDCARD defaults '' @ em_dash @ '' they admit'',
      ''# every inbound group (tagged '' @ accept_as_local @ '') and share every local group'',
      ''# outbound. This matches the proven fleet default (ansible ots_server role)'',
      ''# so a freshly quick-started node federates out of the box, but it is'',
      ''# permissive by design. TIGHTEN to your real ACL group names before adding'',
      ''# real [federate:*] peers '' @ em_dash @ '' see README.qmd "CoT Events Not Exchanged".'',
      ''accept_as = '' @ accept_as,
      ''share_as = '' @ share_as,
      [],
      ''[federation_ssl]'',
      ''fed_ca_bundle = '' @ cert_dir @ ''/fed-ca.crt'',
      ''fed_cert = '' @ cert_dir @ ''/server-chain.crt'',
      ''fed_key = '' @ cert_dir @ ''/server.key'',
      ''fed_verify_hostname = true'']\<close>

definition ansible_managed_hint :: string where
  "ansible_managed_hint = ''Generated by ots-federation-quickstart -- hand-edit freely; not ansible-managed.''"

datatype detection = Not_Found | Configured | Not_Configured

text \<open>What is said of the OTS installation; the file is only read.\<close>

definition detect_ots_install :: "fs \<Rightarrow> string \<Rightarrow> detection" where
  "detect_ots_install F ots_config_path =
     (case node_at F (locate ots_config_path) of
        Some (File contents _) \<Rightarrow> if sublist ''OTS_FEDERATION_CONFIG'' contents then Configured else Not_Configured
      | _ \<Rightarrow> Not_Found)"

definition existing_outputs :: "fs \<Rightarrow> string \<Rightarrow> string \<Rightarrow> string \<Rightarrow> string list" where
  "existing_outputs F cert_dir ini_path bundle_dir =
     filter (path_exists F) (map (path_join cert_dir) GENERATE_OUTPUT_FILES) @
     (if path_exists F ini_path then [ini_path] else []) @
     (if is_dir F bundle_dir \<and> list_dir F bundle_dir \<noteq> [] then [bundle_dir] else [])"

text \<open>\<open>os.path.dirname\<close>\<close>

definition path_dirname :: "string \<Rightarrow> string" where
  "path_dirname p =
     (let head = rev (dropWhile (\<lambda>c. c \<noteq> CHR ''/'') (rev p)) in
      if list_all (\<lambda>c. c = CHR ''/'') head then head else rstrip_slashes head)"

record quick_args =
  qa_ots_config :: string
  qa_cert_dir :: string
  qa_ini_path :: string
  qa_export_dir :: "string option"
  qa_server_id :: "string option"
  qa_server_address :: "string option"
  qa_listen_port :: int
  qa_accept_as :: string
  qa_share_as :: string
  qa_force :: bool

definition default_quick_args :: quick_args where
  "default_quick_args = \<lparr> qa_ots_config = ''/opt/ots/config/config.yml'', qa_cert_dir = ''/opt/ots/fed_ssl'',
     qa_ini_path = ''/opt/ots/config/federation.ini'', qa_export_dir = None, qa_server_id = None, qa_server_address = None,
     qa_listen_port = DEFAULT_LISTEN_PORT, qa_accept_as = DEFAULT_ACCEPT_AS, qa_share_as = DEFAULT_SHARE_AS, qa_force = False \<rparr>"

text \<open>The machine: whether OpenTAKServer can be imported, and its names.\<close>

record machine =
  mc_importable :: bool
  mc_hostname :: string
  mc_fqdn :: string

definition quick_server_id :: "machine \<Rightarrow> quick_args \<Rightarrow> string" where
  "quick_server_id M args = (if truthy (qa_server_id args) then the (qa_server_id args) else mc_hostname M)"

definition quick_address :: "machine \<Rightarrow> quick_args \<Rightarrow> string" where
  "quick_address M args = (if truthy (qa_server_address args) then the (qa_server_address args) else mc_fqdn M)"

definition quick_export_dir :: "string \<Rightarrow> quick_args \<Rightarrow> string" where
  "quick_export_dir cwd args =
     (if truthy (qa_export_dir args) then abspath cwd (the (qa_export_dir args))
      else path_join (abspath cwd (qa_cert_dir args)) ''export-bundle'')"

definition quick_gen_args :: "machine \<Rightarrow> string \<Rightarrow> quick_args \<Rightarrow> gen_args" where
  "quick_gen_args M cwd args = default_gen_args\<lparr> ga_out_dir := abspath cwd (qa_cert_dir args),
     ga_ca_cn := quick_server_id M args @ ''-fed-ca'', ga_server_cn := quick_server_id M args,
     ga_client_cn := quick_server_id M args @ ''-client'', ga_server_san_dns := [quick_address M args] \<rparr>"

definition quick_export_args :: "machine \<Rightarrow> string \<Rightarrow> quick_args \<Rightarrow> export_args" where
  "quick_export_args M cwd args = \<lparr> xa_cert_dir = abspath cwd (qa_cert_dir args), xa_out_dir = Some (quick_export_dir cwd args),
     xa_server_id = Some (quick_server_id M args), xa_our_address = quick_address M args, xa_listen_port = qa_listen_port args,
     xa_zip = False \<rparr>"

definition quick_ini_text :: "machine \<Rightarrow> string \<Rightarrow> quick_args \<Rightarrow> string" where
  "quick_ini_text M cwd args =
     (let accept_as_local = last (py_split (CHR '':'') (qa_accept_as args)) in
      unlines (federation_ini_lines (quick_server_id M args) (qa_listen_port args) (qa_accept_as args)
        (if accept_as_local = [] then ''(strip)'' else accept_as_local) (qa_share_as args) (abspath cwd (qa_cert_dir args))
        ansible_managed_hint))"

text \<open>The next step, when the last one returned 0.\<close>

definition unless_failed :: "int io \<Rightarrow> int io \<Rightarrow> int io" where
  "unless_failed m next_step = io_bind m (\<lambda>ret. if ret \<noteq> 0 then io_return ret else next_step)"

definition quick_setup :: "crypto \<Rightarrow> machine \<Rightarrow> (nat \<Rightarrow> nat) \<Rightarrow> string \<Rightarrow> quick_args \<Rightarrow> int io" where
  "quick_setup C M umask cwd args =
     (let ini_path = abspath cwd (qa_ini_path args); ini_dir = path_dirname ini_path in
      io_bind (makedirs (abspath cwd (qa_cert_dir args))) (\<lambda>_.
      io_bind (makedirs (if ini_dir = [] then abspath cwd ''.'' else ini_dir)) (\<lambda>_.
      unless_failed (cmd_generate C umask cwd (quick_gen_args M cwd args))
       (io_bind (write_file umask False mode_0644 ini_path (quick_ini_text M cwd args)) (\<lambda>_.
        unless_failed (cmd_export C umask cwd (quick_export_args M cwd args)) (io_return 0))))))"

definition quickstart :: "crypto \<Rightarrow> machine \<Rightarrow> (nat \<Rightarrow> nat) \<Rightarrow> string \<Rightarrow> quick_args \<Rightarrow> int io" where
  "quickstart C M umask cwd args F =
     (if \<not> mc_importable M then (Inr 1, F)
      else if existing_outputs F (abspath cwd (qa_cert_dir args)) (abspath cwd (qa_ini_path args)) (quick_export_dir cwd args) \<noteq> []
              \<and> \<not> qa_force args
      then (Inr 1, F)
      else quick_setup C M umask cwd args F)"

section \<open>What is there already stays\<close>

text \<open>A file system where everything lies in a directory.\<close>

definition fs_ok :: "fs \<Rightarrow> bool" where
  "fs_ok F = (\<forall>q n. q \<noteq> [] \<longrightarrow> node_at F q = Some n \<longrightarrow> node_at F (butlast q) = Some Dir)"

text \<open>A computation that changes nothing that exists, outside of some paths.\<close>

definition kept_outside :: "string list set \<Rightarrow> fs \<Rightarrow> fs \<Rightarrow> bool" where
  "kept_outside P F G = (\<forall>q n. q \<notin> P \<longrightarrow> node_at F q = Some n \<longrightarrow> node_at G q = Some n)"

interpretation kept: io_relation "kept_outside P" for P
  by unfold_locales (auto simp: kept_outside_def)

definition spares :: "string list set \<Rightarrow> 'a io \<Rightarrow> bool" where
  "spares P m = (\<forall>F. kept_outside P F (snd (m F)))"

lemma spares_of [simp]: "spares P (io_of r)" "spares P (io_return x)" "spares P (read_file p)"
  unfolding spares_def by (rule allI, rule kept.nothing)+

lemma spares_bind: "spares P m \<Longrightarrow> (\<And>x. spares P (f x)) \<Longrightarrow> spares P (io_bind m f)"
  unfolding spares_def by (intro allI kept.bind) blast+

lemma spares_mono: "spares P m \<Longrightarrow> P \<subseteq> Q \<Longrightarrow> spares Q m"
  by (auto simp: spares_def kept_outside_def)

lemma spares_makedirs [simp]: "spares P (makedirs p)"
  by (simp add: spares_def kept_outside_def makedirs_keeps)

lemma spares_write_file: "locate p \<in> P \<Longrightarrow> spares P (write_file umask excl mode p c)"
  using write_file_frame [of _ p umask excl mode c] unfolding spares_def kept_outside_def by metis

definition children :: "string \<Rightarrow> string list \<Rightarrow> string list set" where
  "children d ns = (\<lambda>n. locate d @ [n]) ` set ns"

lemma spares_write_all:
  "list_all (\<lambda>(n, _). component n) es \<Longrightarrow> fst ` set es \<subseteq> set ns \<Longrightarrow> spares (children d ns) (write_all umask d es)"
proof (induction es)
  case (Cons e es)
  obtain n c mode where e: "e = (n, c, mode)" by (cases e)
  with Cons.prems have "locate (path_join d n) \<in> children d ns" by (auto simp: children_def locate_join_name)
  with Cons e show ?case by (auto intro: spares_bind spares_write_file)
qed simp

lemma output_component: "n \<in> set GENERATE_OUTPUT_FILES \<Longrightarrow> component n"
  by (auto simp: GENERATE_OUTPUT_FILES_def component_def plain_def)

lemma generated_outputs: "map fst (generated_files C pw ca server client) = GENERATE_OUTPUT_FILES"
  by (simp add: generated_files_def GENERATE_OUTPUT_FILES_def)

lemma spares_identity:
  assumes "name = ''server'' \<or> name = ''client''"
  shows "spares (children d GENERATE_OUTPUT_FILES) (write_identity C umask d name pw ca_cert kc)"
  unfolding write_identity_all using assms
  by (intro spares_write_all) (auto simp: component_def plain_def GENERATE_OUTPUT_FILES_def)

lemma spares_generate:
  assumes "d = abspath cwd (ga_out_dir args)"
  shows "spares (children d GENERATE_OUTPUT_FILES) (cmd_generate C umask cwd args)"
proof -
  have l: "n \<in> set GENERATE_OUTPUT_FILES \<Longrightarrow> locate (path_join d n) \<in> children d GENERATE_OUTPUT_FILES" for n
    by (auto simp: children_def locate_join_name output_component)
  have "''fed-ca.key'' \<in> set GENERATE_OUTPUT_FILES" "''fed-ca.crt'' \<in> set GENERATE_OUTPUT_FILES"
    by (simp_all add: GENERATE_OUTPUT_FILES_def)
  note w = this [THEN l]
  show ?thesis
    unfolding cmd_generate_def assms [symmetric] Let_def write_private_key_def write_cert_def case_prod_beta
    by (intro spares_bind spares_identity spares_write_file spares_makedirs spares_of w) simp_all
qed

lemma spares_export:
  assumes "d = export_dir cwd args" "\<not> xa_zip args"
  shows "spares (children d bundle_names) (cmd_export C umask cwd args)"
proof -
  have b: "spares (children d bundle_names) (write_all umask d (bundle_files C ca i a p fp))" for ca i a p fp
    using bundle_files_names(1,2) [of C ca i a p fp] by (intro spares_write_all) (metis list.set_map order_refl)+
  have x: "spares (children d bundle_names) (export_public C umask cwd args)"
    unfolding export_public_def assms(1) [symmetric] Let_def write_bundle_all
    by (intro spares_bind spares_makedirs spares_of b)
  have "spares (children d bundle_names) (io_bind (export_public C umask cwd args) (\<lambda>_. io_bind (io_return ()) (\<lambda>_. io_return (0::int))))"
    by (intro spares_bind x spares_of)
  then show ?thesis using assms(2) by (simp add: spares_def kept_outside_def cmd_export_def Let_def)
qed

text \<open>Paths that are absolute already.\<close>

lemma abspath_is_abs: "is_abs cwd \<Longrightarrow> is_abs (abspath cwd p)"
proof -
  assume c: "is_abs cwd"
  let ?p = "if is_abs p then p else path_join cwd p"
  have "is_abs ?p" using c by (cases cwd) (auto simp: is_abs_def path_join_def)
  from normpath_abs [OF this] show ?thesis by (cases "leading_slashes ?p") (auto simp: abspath_def is_abs_def)
qed

lemma locate_abspath: "is_abs p \<Longrightarrow> locate (abspath cwd p) = locate p"
  by (simp add: abspath_def locate_normpath)

lemma quick_export_dir_abs: "is_abs cwd \<Longrightarrow> is_abs (quick_export_dir cwd args)"
proof -
  assume c: "is_abs cwd"
  have "is_abs a \<Longrightarrow> is_abs (path_join a b)" for a b by (cases a) (auto simp: path_join_def is_abs_def)
  with abspath_is_abs [OF c] show ?thesis by (simp add: quick_export_dir_def)
qed

lemma children_locate: "locate d = locate d' \<Longrightarrow> children d ns = children d' ns"
  by (simp add: children_def)

text \<open>All that a set-up may replace.\<close>

definition quick_outputs :: "string \<Rightarrow> quick_args \<Rightarrow> string list set" where
  "quick_outputs cwd args =
     children (abspath cwd (qa_cert_dir args)) GENERATE_OUTPUT_FILES \<union> {locate (abspath cwd (qa_ini_path args))} \<union>
     children (quick_export_dir cwd args) bundle_names"

lemma spares_unless_failed: "spares P m \<Longrightarrow> spares P k \<Longrightarrow> spares P (unless_failed m k)"
  by (auto simp: unless_failed_def intro: spares_bind)

lemma export_dir_quick: "is_abs cwd \<Longrightarrow> locate (export_dir cwd (quick_export_args M cwd args)) = locate (quick_export_dir cwd args)"
  using quick_export_dir_abs [of cwd args]
  by (auto simp: export_dir_def quick_export_args_def truthy_def locate_abspath is_abs_def)

lemma spares_setup:
  assumes "is_abs cwd"
  shows "spares (quick_outputs cwd args) (quick_setup C M umask cwd args)"
proof -
  let ?P = "quick_outputs cwd args"
  have d: "children (abspath cwd (ga_out_dir (quick_gen_args M cwd args))) ns = children (abspath cwd (qa_cert_dir args)) ns" for ns
    by (rule children_locate) (simp add: quick_gen_args_def locate_abspath abspath_is_abs assms)
  have "spares ?P (cmd_generate C umask cwd (quick_gen_args M cwd args))"
    by (rule spares_mono [OF spares_generate [OF refl, of cwd "quick_gen_args M cwd args"]]) (auto simp: d quick_outputs_def)
  moreover have "\<not> xa_zip (quick_export_args M cwd args)" by (simp add: quick_export_args_def)
  then have "spares ?P (cmd_export C umask cwd (quick_export_args M cwd args))"
    by (rule spares_mono [OF spares_export [OF refl]]) (auto simp: children_locate [OF export_dir_quick [OF assms]] quick_outputs_def)
  moreover have "spares ?P (write_file umask False mode_0644 (abspath cwd (qa_ini_path args)) (quick_ini_text M cwd args))"
    by (rule spares_write_file) (simp add: quick_outputs_def)
  ultimately show ?thesis
    unfolding quick_setup_def Let_def by (intro spares_bind spares_unless_failed spares_makedirs spares_of)
qed

text \<open>
  C24. Without \<open>--force\<close>, a set-up never changes a file: whatever it returns and wherever it
  stops, each file or directory that was there is there, as it was.
\<close>

theorem quickstart_clobbers_nothing:
  assumes "is_abs cwd" "fs_ok F" "\<not> qa_force args" "node_at F q = Some n"
  shows "node_at (snd (quickstart C M umask cwd args F)) q = Some n"
proof (cases "mc_importable M \<and>
    existing_outputs F (abspath cwd (qa_cert_dir args)) (abspath cwd (qa_ini_path args)) (quick_export_dir cwd args) = []")
  case False
  with assms(3,4) show ?thesis by (auto simp: quickstart_def)
next
  case True
  let ?d = "abspath cwd (qa_cert_dir args)" and ?x = "quick_export_dir cwd args"
  have "node_at F (locate ?d @ [m]) = None" if "m \<in> set GENERATE_OUTPUT_FILES" for m
    using True that by (auto simp: existing_outputs_def path_exists_def locate_join_name output_component filter_empty_conv)
  moreover have "node_at F (locate (abspath cwd (qa_ini_path args))) = None"
    using True by (auto simp: existing_outputs_def path_exists_def split: if_splits)
  moreover have "node_at F (locate ?x @ [m]) = None" for m
  proof (rule ccontr)
    assume "node_at F (locate ?x @ [m]) \<noteq> None"
    then have "is_dir F ?x" "m \<in> set (list_dir F ?x)"
      using assms(2) by (auto simp: fs_ok_def is_dir_def set_list_dir) (auto simp: node_at_def dhas_Some)
    then show False using True by (auto simp: existing_outputs_def split: if_splits)
  qed
  ultimately have "q \<notin> quick_outputs cwd args" using assms(4) by (auto simp: quick_outputs_def children_def)
  with spares_setup [OF assms(1), of args C M umask] assms(4) True show ?thesis by (simp add: quickstart_def spares_def kept_outside_def)
qed

text \<open>A key that was there, and a set-up of the same directory.\<close>

definition sample_machine :: machine where
  "sample_machine = \<lparr> mc_importable = True, mc_hostname = ''n'', mc_fqdn = ''n.example'' \<rparr>"

definition sample_quick :: quick_args where
  "sample_quick = default_quick_args\<lparr> qa_cert_dir := ''/d'', qa_ini_path := ''/federation.ini'' \<rparr>"

theorem quickstart_clobbers_nothing_witness:
  "node_at (snd (quickstart sample_crypto sample_machine id ''/'' sample_quick (exported_from ''1''))) [''d'', ''server.key''] = Some (File ''1'' mode_0600)"
proof -
  have "fs_ok (exported_from ''1'')" by (auto simp: fs_ok_def exported_from_def node_at_def split: if_splits)
  from quickstart_clobbers_nothing [OF _ this, of "''/''" sample_quick "[''d'', ''server.key'']" "File ''1'' mode_0600" sample_crypto sample_machine id]
  show ?thesis by (simp add: is_abs_def sample_quick_def default_quick_args_def exported_from_def node_at_def)
qed

section \<open>The configuration that it writes\<close>

definition quick_items :: "string \<Rightarrow> int \<Rightarrow> string \<Rightarrow> string \<Rightarrow> string \<Rightarrow> string \<Rightarrow> string \<Rightarrow> item list" where
  "quick_items server_id listen_port accept_as loc share_as cert_dir hint =
     (let ls = federation_ini_lines server_id listen_port accept_as loc share_as cert_dir hint in
      map (Comment \<circ> tl) (take 5 ls) @
      [Blank, Section ''federation'', Option ''enabled'' ''true'', Option ''server_id'' server_id, Option ''listen_enabled'' ''true'',
       Option ''listen_ip'' ''0.0.0.0'', Option ''listen_port'' (py_str listen_port)] @
      map (Comment \<circ> tl) (take 6 (drop 12 ls)) @
      [Option ''accept_as'' accept_as, Option ''share_as'' share_as, Blank, Section ''federation_ssl'',
       Option ''fed_ca_bundle'' (cert_dir @ ''/fed-ca.crt''), Option ''fed_cert'' (cert_dir @ ''/server-chain.crt''),
       Option ''fed_key'' (cert_dir @ ''/server.key''), Option ''fed_verify_hostname'' ''true''])"

lemma quick_text:
  "federation_ini_lines server_id listen_port accept_as loc share_as cert_dir hint =
     map item_text (quick_items server_id listen_port accept_as loc share_as cert_dir hint)"
  by (simp add: federation_ini_lines_def quick_items_def section_text_def option_text_def Let_def)

definition quick_ini :: "string \<Rightarrow> int \<Rightarrow> string \<Rightarrow> string \<Rightarrow> string \<Rightarrow> ini" where
  "quick_ini server_id listen_port accept_as share_as cert_dir =
     [(''federation'', [(''enabled'', ''true''), (''server_id'', server_id), (''listen_enabled'', ''true''), (''listen_ip'', ''0.0.0.0''),
        (''listen_port'', py_str listen_port), (''accept_as'', accept_as), (''share_as'', share_as)]),
      (''federation_ssl'', [(''fed_ca_bundle'', cert_dir @ ''/fed-ca.crt''), (''fed_cert'', cert_dir @ ''/server-chain.crt''),
        (''fed_key'', cert_dir @ ''/server.key''), (''fed_verify_hostname'', ''true'')])]"

lemma quick_option_names:
  "option_name ''enabled''" "option_name ''server_id''" "option_name ''listen_enabled''" "option_name ''listen_ip''" "option_name ''listen_port''"
  "option_name ''accept_as''" "option_name ''share_as''" "option_name ''fed_ca_bundle''" "option_name ''fed_cert''" "option_name ''fed_key''"
  "option_name ''fed_verify_hostname''"
  by (simp_all add: option_name_def)

lemma ini_word_path:
  assumes "is_abs d" "nl \<notin> set d"
  shows "ini_word (d @ ''/fed-ca.crt'')" "ini_word (d @ ''/server-chain.crt'')" "ini_word (d @ ''/server.key'')"
  using assms by (cases d; auto simp: ini_word_def trimmed_def is_abs_def py_ws_def)+

lemma read_quick:
  assumes "ini_word server_id" "ini_word accept_as" "ini_word share_as" "is_abs cert_dir" "nl \<notin> set cert_dir" "nl \<notin> set loc" "nl \<notin> set hint"
  shows "read_ini (unlines (federation_ini_lines server_id listen_port accept_as loc share_as cert_dir hint)) =
    Inr (quick_ini server_id listen_port accept_as share_as cert_dir)"
proof -
  have "ini_word ''true''" "ini_word ''0.0.0.0''" by (simp_all add: ini_word_def trimmed_def py_ws_def)
  then have "doc_ok [] (quick_items server_id listen_port accept_as loc share_as cert_dir hint)"
    using assms ini_word_path [OF assms(4,5)]
    by (simp add: quick_items_def federation_ini_lines_def Let_def ini_word_int quick_option_names)
  from read_ini_doc [OF this] show ?thesis
    unfolding quick_text doc_text_def by (simp add: quick_items_def federation_ini_lines_def quick_ini_def Let_def)
qed

lemma quick_get_other:
  "k \<notin> {''enabled'', ''server_id'', ''listen_enabled'', ''listen_ip'', ''listen_port'', ''accept_as'', ''share_as''} \<Longrightarrow>
   ini_get (quick_ini server_id listen_port accept_as share_as cert_dir) ''federation'' k = None"
  by (simp add: quick_ini_def ini_get_def)

lemma quick_get:
  "ini_get (quick_ini server_id listen_port accept_as share_as cert_dir) ''federation'' ''enabled'' = Some ''true''"
  "ini_get (quick_ini server_id listen_port accept_as share_as cert_dir) ''federation'' ''server_id'' = Some server_id"
  "ini_get (quick_ini server_id listen_port accept_as share_as cert_dir) ''federation'' ''listen_enabled'' = Some ''true''"
  "ini_get (quick_ini server_id listen_port accept_as share_as cert_dir) ''federation'' ''listen_ip'' = Some ''0.0.0.0''"
  "ini_get (quick_ini server_id listen_port accept_as share_as cert_dir) ''federation'' ''listen_port'' = Some (py_str listen_port)"
  "ini_get (quick_ini server_id listen_port accept_as share_as cert_dir) ''federation'' ''accept_as'' = Some accept_as"
  "ini_get (quick_ini server_id listen_port accept_as share_as cert_dir) ''federation'' ''share_as'' = Some share_as"
  by (simp_all add: quick_ini_def ini_get_def)

lemma get_bool_true: "ini_get Q sec k = Some ''true'' \<Longrightarrow> get_bool Q sec k b = Inr True"
  by (simp add: get_bool_def boolean_states_def to_lower_def)

lemma quick_ssl:
  "parse_federation_ssl (quick_ini server_id listen_port accept_as share_as cert_dir) =
     Inr \<lparr> ssl_fed_ca_bundle = cert_dir @ ''/fed-ca.crt'', ssl_fed_cert = cert_dir @ ''/server-chain.crt'',
       ssl_fed_key = cert_dir @ ''/server.key'', ssl_fed_key_pw = [], ssl_fed_verify_hostname = True \<rparr>"
proof -
  let ?Q = "quick_ini server_id listen_port accept_as share_as cert_dir"
  have "get_bool ?Q ''federation_ssl'' ''fed_verify_hostname'' True = Inr True"
    by (rule get_bool_true) (simp add: quick_ini_def ini_get_def)
  then show ?thesis
    by (simp add: parse_federation_ssl_def Let_def) (simp add: quick_ini_def has_section_def get_str_def ini_get_def)
qed

lemma quick_config:
  assumes "server_id \<noteq> []" "accept_as \<noteq> []" "share_as \<noteq> []"
  shows "\<exists>cfg. get_federation_config (quick_ini server_id listen_port accept_as share_as cert_dir) = Inr cfg \<and>
    fc_enabled cfg \<and> fc_server_id cfg = server_id \<and> fc_listen_enabled cfg \<and> fc_listen_port cfg = listen_port \<and>
    \<not> fc_insecure_listen cfg \<and> fc_peers cfg = [] \<and> fc_default_group_map_in cfg = accept_as \<and> fc_default_group_map_out cfg = share_as \<and>
    fc_ssl cfg = \<lparr> ssl_fed_ca_bundle = cert_dir @ ''/fed-ca.crt'', ssl_fed_cert = cert_dir @ ''/server-chain.crt'',
       ssl_fed_key = cert_dir @ ''/server.key'', ssl_fed_key_pw = [], ssl_fed_verify_hostname = True \<rparr>"
proof -
  let ?Q = "quick_ini server_id listen_port accept_as share_as cert_dir"
  have o: "k \<notin> {''enabled'', ''server_id'', ''listen_enabled'', ''listen_ip'', ''listen_port'', ''accept_as'', ''share_as''} \<Longrightarrow>
      get_bool ?Q ''federation'' k b = Inr b \<and> get_int ?Q ''federation'' k i = Inr i" for k b i
    unfolding get_bool_def get_int_def by (simp add: quick_get_other del: insert_iff)
  have b: "get_bool ?Q ''federation'' ''enabled'' x = Inr True" "get_bool ?Q ''federation'' ''listen_enabled'' x = Inr True" for x
    by (simp_all add: get_bool_true quick_get)
  have i: "get_int ?Q ''federation'' ''listen_port'' x = Inr listen_port" for x by (simp add: get_int_def quick_get)
  have s: "get_str ?Q ''federation'' ''server_id'' [] = server_id" by (simp add: get_str_def quick_get)
  have a: "resolve_alias ?Q ''federation'' ''accept_as'' x y = accept_as" "resolve_alias ?Q ''federation'' ''share_as'' x y = share_as" for x y
    using assms(2,3) by (simp_all add: resolve_alias_def has_option_def get_str_def quick_get)
  have p: "parse_peers ?Q (map fst ?Q) = Inr []" by (simp add: quick_ini_def)
  have f: "has_section ?Q ''federation''" by (simp add: quick_ini_def has_section_def)
  show ?thesis
    by (simp add: get_federation_config_def parse_enabled_config_def Let_def f b s assms(1) o i p quick_ssl a)
qed

section \<open>The node that it sets up\<close>

lemma locate_slash:
  assumes "component n"
  shows "locate (d @ CHR ''/'' # n) = locate d @ [n]"
proof -
  have n: "py_split (CHR ''/'') n = [n]" "plain n" using assms by (simp_all add: component_def py_split_no_sep)
  have "list_all plain (rev (norm_parts True [] cs))" for cs using norm_parts_clean [of "[]" cs] by simp
  with n show ?thesis
    by (simp add: locate_def py_split_append_gen norm_parts_append del: norm_parts.simps) (simp add: norm_parts_id)
qed

lemma unless_failed_0: "unless_failed m k F = (Inr 0, F') \<Longrightarrow> \<exists>F1. m F = (Inr 0, F1) \<and> k F1 = (Inr 0, F')"
  by (auto simp: unless_failed_def io_bind_Inr split: if_splits)

lemma quick_setup_0:
  assumes "quick_setup C M umask cwd args F = (Inr 0, F')"
  obtains F1 F2 F3 where "cmd_generate C umask cwd (quick_gen_args M cwd args) F1 = (Inr 0, F2)"
    "write_file umask False mode_0644 (abspath cwd (qa_ini_path args)) (quick_ini_text M cwd args) F2 = (Inr (), F3)"
    "cmd_export C umask cwd (quick_export_args M cwd args) F3 = (Inr 0, F')"
proof -
  from assms obtain F1 where
    "unless_failed (cmd_generate C umask cwd (quick_gen_args M cwd args))
       (io_bind (write_file umask False mode_0644 (abspath cwd (qa_ini_path args)) (quick_ini_text M cwd args)) (\<lambda>_.
        unless_failed (cmd_export C umask cwd (quick_export_args M cwd args)) (io_return 0))) F1 = (Inr 0, F')"
    by (auto simp: quick_setup_def Let_def io_bind_Inr)
  from unless_failed_0 [OF this] obtain F2 F3 where g: "cmd_generate C umask cwd (quick_gen_args M cwd args) F1 = (Inr 0, F2)"
    and w: "write_file umask False mode_0644 (abspath cwd (qa_ini_path args)) (quick_ini_text M cwd args) F2 = (Inr (), F3)"
    and x: "unless_failed (cmd_export C umask cwd (quick_export_args M cwd args)) (io_return 0) F3 = (Inr 0, F')"
    by (auto simp: io_bind_Inr)
  from unless_failed_0 [OF x] have "cmd_export C umask cwd (quick_export_args M cwd args) F3 = (Inr 0, F')" by auto
  with g w show thesis by (rule that)
qed

text \<open>The listener of a configuration with all three files and without opt-in.\<close>

lemma start_listener_secure:
  assumes "start_listener T bind cfg = Inr r" "fc_listen_enabled cfg"
    and "ssl_fed_ca_bundle (fc_ssl cfg) \<noteq> []" "ssl_fed_cert (fc_ssl cfg) \<noteq> []" "ssl_fed_key (fc_ssl cfg) \<noteq> []"
  shows "\<exists>c port. r = Some (Secure_Port c, port) \<and> port \<noteq> 0 \<and> sc_require_client_auth c \<and>
    te_read T (ssl_fed_ca_bundle (fc_ssl cfg)) = Inr (sc_roots c) \<and> te_read T (ssl_fed_cert (fc_ssl cfg)) = Inr (sc_chain c) \<and>
    te_read T (ssl_fed_key (fc_ssl cfg)) = Inr (sc_private_key c)"
proof -
  obtain l port creds where r: "r = Some (l, port)" and c: "listener_credentials T cfg = Inr creds"
    and st: "federation_server_start bind creds (fc_insecure_listen cfg) = Inr (l, port)"
    using assms(1,2) by (auto simp: start_listener_def start_fed_server_def rbind_Inr_iff)
  obtain c pw where s: "creds = Some c" and b: "build_grpc_server_credentials T (ssl_fed_ca_bundle (fc_ssl cfg)) (ssl_fed_cert (fc_ssl cfg))
      (ssl_fed_key (fc_ssl cfg)) pw True = Inr c"
    using c assms(3-5) by (auto simp: listener_credentials_def Let_def rbind_Inr_iff)
  from st s have "l = Secure_Port c" "port \<noteq> 0"
    by (auto simp: federation_server_start_def choose_port_def rbind_Inr_iff split: if_splits)
  with r server_credentials_contents [OF b] show ?thesis by simp
qed

lemma py_split_subset: "t \<in> set (py_split c s) \<Longrightarrow> set t \<subseteq> set s"
proof (induction s arbitrary: t)
  case (Cons a s)
  then show ?case by (auto split: list.splits if_splits) (metis list.set_intros subsetD)+
qed simp

lemma nl_last_part: "nl \<notin> set s \<Longrightarrow> nl \<notin> set (last (py_split (CHR '':'') s))"
  using py_split_subset [of "last (py_split (CHR '':'') s)" "CHR '':''" s] by auto

lemma quick_ini_text_reads:
  assumes "config_word (quick_server_id M args)" "config_word (qa_accept_as args)" "config_word (qa_share_as args)"
    and "is_abs (abspath cwd (qa_cert_dir args))" "nl \<notin> set (abspath cwd (qa_cert_dir args))"
  shows "read_ini (quick_ini_text M cwd args) =
    Inr (quick_ini (quick_server_id M args) (qa_listen_port args) (qa_accept_as args) (qa_share_as args) (abspath cwd (qa_cert_dir args)))"
  unfolding quick_ini_text_def Let_def
  using assms nl_last_part [of "qa_accept_as args"]
  by (intro read_quick) (auto simp: config_word_def ini_word_def ansible_managed_hint_def)

lemma generated_present:
  assumes "cmd_generate C umask cwd (quick_gen_args M cwd args) F = (Inr 0, F')" "is_abs cwd"
    and "d = locate (abspath cwd (qa_cert_dir args))"
  shows "\<exists>ca server m1 m2 m3. is_root_ca ca \<and> issued_by ca server \<and> DNS_Name (quick_address M args) \<in> set (x_san (snd server)) \<and>
    node_at F' (d @ [''fed-ca.crt'']) = Some (File (cr_cert_pem C (snd ca)) m1) \<and>
    node_at F' (d @ [''server-chain.crt'']) = Some (File (cr_cert_pem C (snd server) @ cr_cert_pem C (snd ca)) m2) \<and>
    node_at F' (d @ [''server.key'']) = Some (File (cr_key_pem C (fst server) None) m3)"
proof -
  let ?a = "quick_gen_args M cwd args"
  let ?d = "abspath cwd (ga_out_dir ?a)"
  have l: "locate ?d = d" by (simp add: quick_gen_args_def locate_abspath abspath_is_abs assms(2,3))
  have pw: "ga_key_password ?a = None" by (simp add: quick_gen_args_def default_gen_args_def)
  from cmd_generate_writes [OF assms(1) refl refl] obtain ca server client F1 where
    w: "write_all umask ?d (generated_files C None ca server client) F1 = (Inr (), F')"
    and g: "generate_ca C 0 (ga_ca_cn ?a) (ga_org ?a) (ga_ca_days ?a) = Inr ca"
      "generate_peer_cert C 1 (ga_server_cn ?a) (ga_org ?a) (fst ca) (snd ca) (ga_cert_days ?a)
         (ga_server_san_dns ?a) (ga_server_san_ip ?a) True = Inr server"
    by (auto simp: pw)
  note f = write_all_files [OF w generated_names, unfolded l]
  have "DNS_Name (quick_address M args) \<in> set (x_san (snd server))"
    using generate_peer_issued [OF g(2) generate_ca_root [OF g(1)]] by (simp add: quick_gen_args_def)
  moreover have "issued_by ca server" using generate_peer_issued [OF g(2) generate_ca_root [OF g(1)]] by simp
  moreover have "\<exists>m. node_at F' (d @ [''fed-ca.crt'']) = Some (File (cr_cert_pem C (snd ca)) m)"
    by (rule exI, rule f [of _ _ mode_0644]) (simp add: generated_files_def)
  moreover have "\<exists>m. node_at F' (d @ [''server-chain.crt'']) = Some (File (cr_cert_pem C (snd server) @ cr_cert_pem C (snd ca)) m)"
    by (rule exI, rule f [of _ _ mode_0644]) (simp add: generated_files_def)
  moreover have "\<exists>m. node_at F' (d @ [''server.key'']) = Some (File (cr_key_pem C (fst server) None) m)"
    by (rule exI, rule f [of _ _ mode_0600]) (simp add: generated_files_def)
  ultimately show ?thesis using generate_ca_root [OF g(1)] by blast
qed

text \<open>
  C10. A node that was set up starts as it should: when the command returned 0, the
  configuration file reads back as an enabled configuration with the server id, the port and
  the policy that were asked for; and a listener that starts from it, with the files as they
  are, is never insecure: it requires client certificates of the CA that was generated, and
  presents the chain and the key of a server certificate of this CA, for the address of the node.
\<close>

theorem quickstart_node_listens_with_mtls:
  assumes "quickstart C M umask cwd args F = (Inr 0, F')" "is_abs cwd"
    and "config_word (quick_server_id M args)" "config_word (qa_accept_as args)" "config_word (qa_share_as args)"
    and "cert_dir = abspath cwd (qa_cert_dir args)" "set cert_dir \<inter> {nl, CHR ''%''} = {}" "ini_path = abspath cwd (qa_ini_path args)"
    and "butlast (locate ini_path) \<notin> {locate cert_dir, locate (quick_export_dir cwd args)}"
    and "locate (quick_export_dir cwd args) \<noteq> locate cert_dir"
    and "\<forall>path. te_read T path = fst (read_file path F')"
  shows "\<exists>ca server text mode cfg. is_root_ca ca \<and> issued_by ca server \<and> DNS_Name (quick_address M args) \<in> set (x_san (snd server)) \<and>
    node_at F' (locate ini_path) = Some (File text mode) \<and> rbind (read_ini text) get_federation_config = Inr cfg \<and>
    fc_enabled cfg \<and> fc_server_id cfg = quick_server_id M args \<and> fc_listen_port cfg = qa_listen_port args \<and>
    fc_default_group_map_in cfg = qa_accept_as args \<and> fc_default_group_map_out cfg = qa_share_as args \<and>
    (\<forall>bind r. start_listener T bind cfg = Inr r \<longrightarrow> (\<exists>c port. r = Some (Secure_Port c, port) \<and> sc_require_client_auth c \<and>
       sc_roots c = cr_cert_pem C (snd ca) \<and> sc_chain c = cr_cert_pem C (snd server) @ cr_cert_pem C (snd ca) \<and>
       sc_private_key c = cr_key_pem C (fst server) None))"
proof -
  let ?d = "locate cert_dir" and ?x = "locate (quick_export_dir cwd args)"
  from assms(1) have "quick_setup C M umask cwd args F = (Inr 0, F')" by (simp add: quickstart_def split: if_splits)
  then obtain F1 F2 F3 where g: "cmd_generate C umask cwd (quick_gen_args M cwd args) F1 = (Inr 0, F2)"
    and w: "write_file umask False mode_0644 ini_path (quick_ini_text M cwd args) F2 = (Inr (), F3)"
    and x: "cmd_export C umask cwd (quick_export_args M cwd args) F3 = (Inr 0, F')"
    unfolding assms(8) by (rule quick_setup_0)
  have "\<not> xa_zip (quick_export_args M cwd args)" by (simp add: quick_export_args_def)
  from spares_export [OF refl this, of cwd C umask]
  have sp: "spares (children (quick_export_dir cwd args) bundle_names) (cmd_export C umask cwd (quick_export_args M cwd args))"
    by (simp only: children_locate [OF export_dir_quick [OF assms(2)]])
  have s: "node_at F' q = Some n" if "node_at F3 q = Some n" "butlast q \<noteq> ?x" for q n
  proof -
    have "q \<notin> children (quick_export_dir cwd args) bundle_names" using that(2) by (auto simp: children_def)
    with sp that(1) have "node_at (snd (cmd_export C umask cwd (quick_export_args M cwd args) F3)) q = Some n" by (simp add: spares_def kept_outside_def)
    with x show ?thesis by simp
  qed
  have keep: "node_at F' (?d @ [n]) = Some y" if "node_at F2 (?d @ [n]) = Some y" for n y
  proof (rule s)
    have "?d @ [n] \<noteq> locate ini_path" using assms(9) by (metis butlast_snoc insertI1)
    with that show "node_at F3 (?d @ [n]) = Some y" by (simp add: write_file_Inr [OF w])
    show "butlast (?d @ [n]) \<noteq> ?x" using assms(10) by simp
  qed
  obtain ca server m1 m2 m3 where c: "is_root_ca ca" "issued_by ca server" "DNS_Name (quick_address M args) \<in> set (x_san (snd server))"
    "node_at F' (?d @ [''fed-ca.crt'']) = Some (File (cr_cert_pem C (snd ca)) m1)"
    "node_at F' (?d @ [''server-chain.crt'']) = Some (File (cr_cert_pem C (snd server) @ cr_cert_pem C (snd ca)) m2)"
    "node_at F' (?d @ [''server.key'']) = Some (File (cr_key_pem C (fst server) None) m3)"
    using generated_present [OF g assms(2) refl, folded assms(6)] keep by blast
  obtain mode where ini: "node_at F' (locate ini_path) = Some (File (quick_ini_text M cwd args) mode)"
    using s [of "locate ini_path"] write_file_Inr [OF w, of "locate ini_path"] assms(9) by auto
  have "read_ini (quick_ini_text M cwd args) =
      Inr (quick_ini (quick_server_id M args) (qa_listen_port args) (qa_accept_as args) (qa_share_as args) cert_dir)"
    unfolding assms(6) using assms(3-7) abspath_is_abs [OF assms(2)] by (intro quick_ini_text_reads) auto
  moreover obtain cfg where k: "get_federation_config (quick_ini (quick_server_id M args) (qa_listen_port args) (qa_accept_as args)
      (qa_share_as args) cert_dir) = Inr cfg" "fc_enabled cfg" "fc_server_id cfg = quick_server_id M args" "fc_listen_enabled cfg"
    "fc_listen_port cfg = qa_listen_port args" "fc_default_group_map_in cfg = qa_accept_as args" "fc_default_group_map_out cfg = qa_share_as args"
    "fc_ssl cfg = \<lparr> ssl_fed_ca_bundle = cert_dir @ ''/fed-ca.crt'', ssl_fed_cert = cert_dir @ ''/server-chain.crt'',
       ssl_fed_key = cert_dir @ ''/server.key'', ssl_fed_key_pw = [], ssl_fed_verify_hostname = True \<rparr>"
    using quick_config [of "quick_server_id M args" "qa_accept_as args" "qa_share_as args"] assms(3-5)
    by (auto simp: config_word_def ini_word_def)
  moreover have n: "component ''server-chain.crt''" "component ''server.key''" by (simp_all add: component_def plain_def)
  have t: "te_read T (cert_dir @ ''/fed-ca.crt'') = Inr (cr_cert_pem C (snd ca))"
    "te_read T (cert_dir @ ''/server-chain.crt'') = Inr (cr_cert_pem C (snd server) @ cr_cert_pem C (snd ca))"
    "te_read T (cert_dir @ ''/server.key'') = Inr (cr_key_pem C (fst server) None)"
    using assms(11) c(4-6) by (simp_all add: read_file_def locate_slash n)
  have "\<exists>cr port. r = Some (Secure_Port cr, port) \<and> sc_require_client_auth cr \<and> sc_roots cr = cr_cert_pem C (snd ca) \<and>
      sc_chain cr = cr_cert_pem C (snd server) @ cr_cert_pem C (snd ca) \<and> sc_private_key cr = cr_key_pem C (fst server) None"
    if "start_listener T bind cfg = Inr r" for bind r
    using start_listener_secure [OF that k(4)] t by (auto simp: k(8))
  ultimately show ?thesis using c(1-3) ini by (intro exI [of _ ca] exI [of _ server] exI [of _ "quick_ini_text M cwd args"] exI [of _ mode] exI [of _ cfg]) simp
qed

text \<open>The first set-up of a machine.\<close>

lemma sample_quick_paths:
  "abspath ''/'' (qa_cert_dir sample_quick) = ''/d''" "abspath ''/'' (qa_ini_path sample_quick) = ''/federation.ini''"
  "path_dirname ''/federation.ini'' = ''/''" "locate ''/'' = []" "locate ''/federation.ini'' = [''federation.ini'']"
  "quick_export_dir ''/'' sample_quick = ''/d/export-bundle''" "locate ''/d/export-bundle'' = [''d'', ''export-bundle'']"
  "abspath ''/'' (ga_out_dir (quick_gen_args sample_machine ''/'' sample_quick)) = ''/d''"
  "abspath ''/'' (xa_cert_dir (quick_export_args sample_machine ''/'' sample_quick)) = ''/d''"
  "export_dir ''/'' (quick_export_args sample_machine ''/'' sample_quick) = ''/d/export-bundle''"
  by (simp_all add: sample_quick_def default_quick_args_def quick_export_dir_def quick_gen_args_def quick_export_args_def export_dir_def
      truthy_def abspath_def is_abs_def normpath_def leading_slashes_def path_join_def path_dirname_def locate_def Let_def)

lemma sample_quick_runs: "\<exists>F'. quickstart export_crypto sample_machine id ''/'' sample_quick [] = (Inr 0, F')"
proof -
  let ?M = sample_machine and ?a = sample_quick and ?F1 = "[([''d''], Dir)]"
  let ?g = "quick_gen_args ?M ''/'' ?a" and ?x = "quick_export_args ?M ''/'' ?a"
  have i: "mc_importable sample_machine" by (simp add: sample_machine_def)
  have m: "makedirs ''/d'' [] = (Inr (), ?F1)" "makedirs ''/'' F = (Inr (), F)" "makedirs ''/d'' ?F1 = (Inr (), ?F1)" for F
    by (simp_all add: makedirs_def sample_out sample_quick_paths node_at_def)
  have w: "writable ''/d'' ?F1" by (auto simp: writable_def sample_out node_at_def)
  obtain F2 where g: "cmd_generate export_crypto id ''/'' ?g ?F1 = (Inr 0, F2)"
    using cmd_generate_ok [of "''/''" ?g ?F1 ?F1 export_crypto id] m w
    by (auto simp: sample_quick_paths export_crypto_def sample_crypto_def)
  from cmd_generate_writes [OF g refl refl] obtain ca server client where
    ws: "write_all id ''/d'' (generated_files export_crypto (if ga_key_password ?g = Some [] then None else ga_key_password ?g) ca server client) ?F1
      = (Inr (), F2)"
    by (auto simp: sample_quick_paths m)
  have n2: "node_at F2 q = node_at ?F1 q" if "q \<notin> children ''/d'' GENERATE_OUTPUT_FILES" for q
  proof (rule write_all_frame [OF ws generated_names(1)])
    fix n assume "n \<in> fst ` set (generated_files export_crypto (if ga_key_password ?g = Some [] then None else ga_key_password ?g) ca server client)"
    then have "n \<in> set GENERATE_OUTPUT_FILES"
      unfolding generated_outputs [symmetric, of export_crypto "if ga_key_password ?g = Some [] then None else ga_key_password ?g" ca server client] by simp
    with that show "q \<noteq> locate ''/d'' @ [n]" by (auto simp: children_def)
  qed
  have f2: "\<exists>c m. node_at F2 [''d'', n] = Some (File c m)" if o: "n \<in> set GENERATE_OUTPUT_FILES" for n
  proof -
    obtain c mode where "(n, c, mode) \<in> set (generated_files export_crypto (if ga_key_password ?g = Some [] then None else ga_key_password ?g) ca server client)"
      using o unfolding generated_outputs [symmetric, of export_crypto "if ga_key_password ?g = Some [] then None else ga_key_password ?g" ca server client]
      by fastforce
    from write_all_files [OF ws generated_names this] show ?thesis by (simp add: sample_out)
  qed
  have ni: "[''federation.ini''] \<notin> children ''/d'' GENERATE_OUTPUT_FILES" by (auto simp: children_def sample_out)
  obtain F3 where ini: "write_file id False mode_0644 ''/federation.ini'' (quick_ini_text ?M ''/'' ?a) F2 = (Inr (), F3)"
    using n2 [OF ni] by (simp add: write_file_def sample_quick_paths node_at_def [of _ "[]"]) (simp add: node_at_def)
  have n3: "node_at F3 q = node_at F2 q" if "q \<noteq> [''federation.ini'']" for q
    using that by (simp add: write_file_Inr [OF ini] sample_quick_paths)
  obtain ca_pem m1 where ca: "node_at F3 [''d'', ''fed-ca.crt''] = Some (File ca_pem m1)"
    using f2 [of "''fed-ca.crt''"] n3 [of "[''d'', ''fed-ca.crt'']"] by (auto simp: GENERATE_OUTPUT_FILES_def)
  obtain pem m2 where crt: "node_at F3 [''d'', ''server.crt''] = Some (File pem m2)"
    using f2 [of "''server.crt''"] n3 [of "[''d'', ''server.crt'']"] by (auto simp: GENERATE_OUTPUT_FILES_def)
  have d3: "node_at F3 [''d''] = Some Dir" "node_at F3 ([''d'', ''export-bundle''] @ ns) = None" for ns
  proof -
    have "[''d''] \<notin> children ''/d'' GENERATE_OUTPUT_FILES" "[''d'', ''export-bundle''] @ ns \<notin> children ''/d'' GENERATE_OUTPUT_FILES"
      by (auto simp: children_def sample_out GENERATE_OUTPUT_FILES_def)
    then have "node_at F3 [''d''] = node_at ?F1 [''d'']" "node_at F3 ([''d'', ''export-bundle''] @ ns) = node_at ?F1 ([''d'', ''export-bundle''] @ ns)"
      by (simp_all add: n3 n2)
    then show "node_at F3 [''d''] = Some Dir" "node_at F3 ([''d'', ''export-bundle''] @ ns) = None"
      by (simp_all add: node_at_def [of ?F1])
  qed
  let ?F4 = "dset [''d'', ''export-bundle''] Dir F3"
  have m4: "makedirs ''/d/export-bundle'' F3 = (Inr (), ?F4)"
    using d3(1) d3(2) [of "[]"] by (simp add: makedirs_def sample_quick_paths)
  have "writable ''/d/export-bundle'' ?F4" using d3(2) by (simp add: writable_def sample_quick_paths) (simp add: node_at_def)
  from write_all_ok [OF this bundle_files_names(1)]
  have "\<exists>F'. write_all id ''/d/export-bundle'' (bundle_files export_crypto ca_pem i a p fp) ?F4 = (Inr (), F')" for i a p fp by blast
  moreover have "cr_load export_crypto y = Inr sample_leaf" for y by (simp add: export_crypto_def)
  ultimately have "\<exists>F'. export_public export_crypto id ''/'' ?x F3 = (Inr (), F')"
    by (simp add: export_public_def Let_def sample_quick_paths io_bind_def read_file_def locate_join_name sample_out ca crt m4 write_bundle_all)
  moreover have "\<not> xa_zip ?x" by (simp add: quick_export_args_def)
  ultimately obtain F' where x: "cmd_export export_crypto id ''/'' ?x F3 = (Inr 0, F')"
    by (auto simp: cmd_export_def Let_def sample_quick_paths is_file_def locate_join_name sample_out ca crt io_bind_def)
  have "existing_outputs [] ''/d'' ''/federation.ini'' ''/d/export-bundle'' = []"
    by (simp add: existing_outputs_def path_exists_def is_dir_def sample_quick_paths locate_join_name output_component sample_out filter_empty_conv)
      (simp add: node_at_def)
  then have "quickstart export_crypto ?M id ''/'' ?a [] = (Inr 0, F')"
    by (simp add: quickstart_def sample_quick_paths quick_setup_def unless_failed_def io_bind_def Let_def m g ini x i)
  then show ?thesis by blast
qed

theorem quickstart_node_listens_with_mtls_witness:
  "\<exists>F' ca server text mode cfg. quickstart export_crypto sample_machine id ''/'' sample_quick [] = (Inr 0, F') \<and>
     is_root_ca ca \<and> issued_by ca server \<and> node_at F' [''federation.ini''] = Some (File text mode) \<and>
     rbind (read_ini text) get_federation_config = Inr cfg \<and> fc_enabled cfg \<and> fc_server_id cfg = ''n'' \<and> fc_listen_port cfg = 9101"
proof -
  obtain F' where r: "quickstart export_crypto sample_machine id ''/'' sample_quick [] = (Inr 0, F')" using sample_quick_runs by blast
  let ?T = "undefined\<lparr> te_read := \<lambda>path. fst (read_file path F') \<rparr> :: tls_env"
  let ?M = sample_machine and ?a = sample_quick
  have i: "quick_server_id ?M ?a = ''n''" "qa_accept_as ?a = ''*:__ANON__''" "qa_share_as ?a = ''__ANON__:__ANON__''" "qa_listen_port ?a = 9101"
    by (simp_all add: sample_quick_def default_quick_args_def sample_machine_def quick_server_id_def truthy_def DEFAULT_ACCEPT_AS_def
        DEFAULT_SHARE_AS_def DEFAULT_LISTEN_PORT_def)
  have w: "config_word (quick_server_id ?M ?a)" "config_word (qa_accept_as ?a)" "config_word (qa_share_as ?a)" "is_abs ''/''"
    by (simp_all add: i config_word_def ini_word_def trimmed_def py_ws_def is_abs_def)
  have d: "set (abspath ''/'' (qa_cert_dir ?a)) \<inter> {nl, CHR ''%''} = {}"
    "butlast (locate (abspath ''/'' (qa_ini_path ?a))) \<notin> {locate (abspath ''/'' (qa_cert_dir ?a)), locate (quick_export_dir ''/'' ?a)}"
    "locate (quick_export_dir ''/'' ?a) \<noteq> locate (abspath ''/'' (qa_cert_dir ?a))" "\<forall>path. te_read ?T path = fst (read_file path F')"
    by (simp_all add: sample_quick_paths sample_out)
  obtain ca server ini mode cfg where "is_root_ca ca" "issued_by ca server" "DNS_Name (quick_address ?M ?a) \<in> set (x_san (snd server))"
    "node_at F' (locate (abspath ''/'' (qa_ini_path ?a))) = Some (File ini mode)" "rbind (read_ini ini) get_federation_config = Inr cfg"
    "fc_enabled cfg" "fc_server_id cfg = quick_server_id ?M ?a" "fc_listen_port cfg = qa_listen_port ?a"
    using quickstart_node_listens_with_mtls [OF r w(4) w(1-3) refl d(1) refl d(2-4)] by (elim exE conjE) (rule that, assumption+)
  with r show ?thesis unfolding i sample_quick_paths by blast
qed

end
