(* ===== verification/Spec2Isabelle.thy ===== *)
theory Spec2Isabelle
  imports System Typed_Links Fed_Staging Peer_Stanza Quickstart
begin

text \<open>
  OTS federation: the plugin that connects an OpenTAKServer to other TAK servers
  (src/ots_federation). This development models its engine and its command line tools and
  proves what a site relies on: which events enter, which leave, with which groups, and that
  neither the network nor an interleaving of the threads changes this.

  \<^bold>\<open>The program.\<close> The host loads \<open>plugin.py\<close>, which checks its configuration, starts the engine
  as a child process and watches it. The engine (\<open>engine_main.py\<close>) reads \<open>federation.ini\<close>
  (\<open>config.py\<close>), builds the group registry and starts the manager (\<open>manager.py\<close>), with one
  client per peer it dials (\<open>client.py\<close>) and a gRPC server for the peers that dial it
  (\<open>fed_server.py\<close>). What a peer sends is decoded (\<open>codec.py\<close>), mapped to local groups by the
  policy of the peer (\<open>groups.py\<close>), whose identity is the fingerprint of its certificate
  (\<open>cert_identity.py\<close>), put on the bridge (\<open>bridge.py\<close>), and injected by the drain thread into
  the broker (\<open>ots_bus.py\<close>), stamped with its provenance (\<open>loop_filter.py\<close>). What local devices
  send arrives on the firehose of the broker; what did not come from here or from a peer gets
  the ACL groups of its sender (\<open>eud_group_cache.py\<close>, \<open>group_resolver.py\<close>) and is fanned out to
  all clients and links, each with its own outbound gate. The tools \<open>gen_fed_ca.py\<close> and
  \<open>quickstart.py\<close> make the certificates, the configuration and what peers exchange.

  \<^bold>\<open>Theories.\<close>
  \<^item> \<open>Prelude\<close>: Python's strings, dictionaries (association lists in insertion order) and sets,
    exceptions (\<open>py_error\<close>) and \<open>rbind\<close>; the collections \<open>dict_simps\<close> and \<open>str_simps\<close>; the locale
    \<open>set_iteration\<close>, what code may assume of the order in which a set is visited. \<open>Py_Int\<close>,
    \<open>Py_Float\<close>, \<open>Py_Time\<close>: \<open>int\<close>, \<open>float\<close> with the rounding of doubles, and \<open>datetime\<close>.
  \<^item> \<open>Xml_Tree\<close>, \<open>Wire\<close>: XML elements with the parser and the printer as parameters; the messages of the
    protocol with the ranges of their integer fields.
  \<^item> \<open>Cot_Models\<close> (models/): events, points and details, read from and written to XML.
  \<^item> \<open>Group_Registry\<close> (groups.py): the registry, the parser of mapping texts, the \<open>Teams\<close>; the
    locale \<open>group_policy\<close> is what the codec relies on. \<open>Registry_Build\<close> (manager.py): the
    registry of a configuration.
  \<^item> \<open>Codec\<close> (codec.py): encoding, decoding, \<open>prepare_outbound_event\<close>, the gate of every event
    that leaves. \<open>Typed_Links\<close> follows the messages it makes to the streams.
  \<^item> \<open>Loop_Filter\<close> (loop_filter.py), \<open>Eud_Cache\<close> (both group caches; locale \<open>acl_cache\<close>),
    \<open>Cert_Identity\<close>, \<open>Config\<close>, \<open>Session_Setup\<close> (tls.py, credentials, version, listener).
  \<^item> \<open>Bridge\<close> (bridge.py): the queue with its wake-up bytes as steps, with the failures of send
    and recv; locale \<open>event_sink\<close>, what its drain needs of the bus. \<open>Ots_Bus\<close> (ots_bus.py)
    interprets it; the bodies the broker delivers have members of any JSON type.
  \<^item> \<open>Fed_Link\<close> (\<open>_InboundPeerLink\<close>): locales \<open>outbound_link\<close> and \<open>policy_link\<close>, interpreted by it
    and by the client. \<open>Fed_Client\<close>: the gRPC thread as a machine with a program counter, every
    other thread as steps in between. \<open>Fed_Manager\<close>: the tables and the fan-out.
    \<open>Fed_Server\<close>: the handlers; locale \<open>inbound_gate\<close>, interpreted for the stream, the unary
    call and the client. \<open>Fed_Service\<close>: calls in any order.
  \<^item> \<open>Plugin\<close> (plugin.py, default_config.py): the configuration surface and the supervisor.
    \<open>Engine\<close> (engine_main.py): the process. \<open>System\<close>: all threads over service, bridge and bus;
    a run records what arrived (by a call of the server, or from a client's thread in a state
    that \<open>Fed_Client\<close> reaches) and what was injected with which answers of the database.
  \<^item> \<open>File_System\<close>: path names as \<open>os.path\<close> has them, files with modes, and the type \<open>io\<close> of a
    computation on them; the locale \<open>io_relation\<close> is how what a command keeps follows from what
    its steps keep. \<open>Ini_Reader\<close>: \<open>configparser\<close> on text. \<open>Fed_Certs\<close>, \<open>Fed_Bundle\<close>,
    \<open>Fed_Staging\<close>: the commands \<open>generate\<close>, \<open>export\<close>, \<open>apply\<close> of gen_fed_ca.py; \<open>Peer_Stanza\<close>: from
    an export to the registry of the peer; \<open>Quickstart\<close>: quickstart.py, composed of these.

  \<^bold>\<open>How state and operations correspond.\<close> An object is a record with its attributes; a method
  is a function from the record to its result and the record afterwards; what it raises is
  \<open>Inl\<close>. Names are those of the source. An operation that may block is taken as its steps: the
  threads of the client (\<open>loop_step\<close>, \<open>session_step\<close>, \<open>other_step\<close>), of the bridge
  (\<open>enqueue_put\<close>, \<open>enqueue_send\<close>, \<open>drain_read\<close>, \<open>drain_pop\<close>), of the watchdog (\<open>watchdog_check\<close>,
  \<open>watchdog_spawn\<close>) and of the engine (\<open>engine_reach\<close>) interleave arbitrarily; clocks, sockets,
  processes, the database and the broker are inputs of the steps, as arguments.

  \<^bold>\<open>What the lemmas show.\<close>
  \<^item> End to end, over every interleaving: what is published locally came from a peer whose
    policy maps it there (or names a recipient whom the database puts into such a group); what
    is sent was local, and is tagged with what the policy of the receiver makes of the groups
    known for the uid of the message.
  \<^item> Identity: an inbound stream has the policy of its certificate, a certificate that nobody
    configured gets nothing, and an active session is bound to a configured identity.
  \<^item> Closed gates: each gate says what it does on every branch, where it is open (no registry
    or no peer id) included; the optimised or duplicated paths agree with each other.
  \<^item> Loops: what was injected does not leave again; provenance ends in this node, hops stay
    within their limit, messages fit the types of the protocol.
  \<^item> Data: round trips of events through messages and XML, of fingerprints, of mapping
    texts and of configurations; which rounding of times loses a millisecond.
  \<^item> Progress: no wake-up of the bridge is lost unless a system call fails, a stopped thread
    exits, an event that was let through is streamed, restarts are bounded; which messages
    end the consumer, and what the process leaves behind when its listener fails.
  \<^item> Tools: which files each command reads, writes and never touches; a set-up yields a node
    that listens with mutual TLS under the CA it made; a stanza means to the peer what it
    should, but for its wildcards.

  \<^bold>\<open>Bounds.\<close> A loop over a collection is structural recursion. A loop that waits for others runs
  on a list of turns or a number of them (\<open>drain_outbound\<close>, \<open>consume_turns\<close>, \<open>bridge_drain_loop\<close>),
  one per iteration that took place, so that every finite behaviour is one of some list; claims
  that something happens say how many turns are enough. Termination of the client is a bound on the
  moves of its own thread, for all schedules (\<open>client_run\<close>).

  \<^bold>\<open>Not modelled.\<close> Log output, what is printed, \<open>argparse\<close>, the HTML of the plugin page and health
  checks; the handlers of the server that only return constants; the generated code under
  proto/ and the interface \<open>bus.py\<close>. Parameters are: lxml (\<open>xml_lib\<close>), cryptography (\<open>crypto\<close>),
  the digest of a certificate, the parser of dates, gRPC, the broker, the database and the
  operating system; where a result depends on what they guarantee, this is a hypothesis, and
  a witness shows it with a concrete instance. Characters are code points below 256; values
  with a percent sign, which \<open>configparser\<close> would interpolate, are excluded where a text is
  read back; permissions of directories and symbolic links are left out. Threads are
  taken to start; the fan-out of the manager sends to one client in one step, while \<open>Fed_Client\<close>
  has \<open>send_event\<close> in two; the numbers of JSON are finite.
\<close>

end
